theory Spec2Isabelle
  imports Main "HOL-Library.Extended_Nat"
begin

chapter \<open>The programs\<close>

section \<open>JavaScript values and string operations used by the scrapers\<close>

text \<open>
  A JavaScript string is modelled as a \<^typ>\<open>string\<close>; a value of type \<open>string | null\<close>
  (or \<open>string | undefined\<close>) as a \<^typ>\<open>string option\<close>. In a condition JavaScript
  treats \<open>null\<close>, \<open>undefined\<close> and the empty string as false.
\<close>

fun truthy :: "string option \<Rightarrow> bool" where
  "truthy None = False"
| "truthy (Some s) = (s \<noteq> [])"

text \<open>\<open>s || null\<close> for a string \<open>s\<close>.\<close>

definition orNull :: "string \<Rightarrow> string option" where
  "orNull s = (if s = [] then None else Some s)"

text \<open>\<open>v || null\<close> for a value \<open>v\<close> of type \<open>string | null\<close>.\<close>

definition optOrNull :: "string option \<Rightarrow> string option" where
  "optOrNull v = (if truthy v then v else None)"

text \<open>\<open>v || d\<close> for a value \<open>v\<close> of type \<open>string | null\<close> and a string \<open>d\<close>.\<close>

definition orElse :: "string option \<Rightarrow> string \<Rightarrow> string" where
  "orElse v d = (case v of None \<Rightarrow> d | Some s \<Rightarrow> if s = [] then d else s)"

text \<open>
  The white space of \<open>trim\<close> and of \<open>\s\<close> among the characters of a \<^typ>\<open>string\<close>, which
  are 8-bit: the model is exact for texts in Latin-1; white space beyond U+00FF is not
  represented.
\<close>

definition isWhiteSpace :: "char \<Rightarrow> bool" where
  "isWhiteSpace c = (c \<in> set [CHR 0x09, CHR 0x0A, CHR 0x0B, CHR 0x0C, CHR 0x0D, CHR 0x20, CHR 0xA0])"

definition isDigit :: "char \<Rightarrow> bool" where
  "isDigit c = (c \<in> set ''0123456789'')"

text \<open>\<open>String.prototype.trim\<close>.\<close>

definition trim :: "string \<Rightarrow> string" where
  "trim s = rev (dropWhile isWhiteSpace (rev (dropWhile isWhiteSpace s)))"

text \<open>\<open>s.replace(/\s+/g, "-")\<close>: every maximal run of white space becomes one dash.\<close>

fun replaceWhiteSpaceFrom :: "bool \<Rightarrow> string \<Rightarrow> string" where
  "replaceWhiteSpaceFrom inRun [] = []"
| "replaceWhiteSpaceFrom inRun (c # cs) =
     (if isWhiteSpace c
      then (if inRun then replaceWhiteSpaceFrom True cs
            else CHR ''-'' # replaceWhiteSpaceFrom True cs)
      else c # replaceWhiteSpaceFrom False cs)"

definition replaceWhiteSpace :: "string \<Rightarrow> string" where
  "replaceWhiteSpace s = replaceWhiteSpaceFrom False s"

text \<open>\<open>/\d+/.test(s)\<close> and \<open>/^\d+$/.test(s)\<close>.\<close>

definition hasDigit :: "string \<Rightarrow> bool" where
  "hasDigit s = (\<exists>c \<in> set s. isDigit c)"

definition allDigits :: "string \<Rightarrow> bool" where
  "allDigits s = (s \<noteq> [] \<and> (\<forall>c \<in> set s. isDigit c))"

text \<open>\<open>s.includes(t)\<close>.\<close>

fun includesStr :: "string \<Rightarrow> string \<Rightarrow> bool" where
  "includesStr [] t = (t = [])"
| "includesStr (c # cs) t = (take (length t) (c # cs) = t \<or> includesStr cs t)"


section \<open>The environment: console, network, file system, libraries\<close>

text \<open>
  Every effect of a run is recorded, in program order, in a trace: a line written to the
  console (with its level and the fixed part of its text; interpolated values are left
  out), an HTTP request made through \<open>axios.get\<close>, and a write to the output file
  through \<open>fs.writeFile\<close> or \<open>fs.appendFile\<close> (with the data and whether the
  operation succeeded). The pauses made with \<open>setTimeout\<close> change no state and are not
  recorded.
\<close>

datatype level = LOG | WARN | ERROR

datatype event =
    Console level string
  | HttpGet string
  | WriteFile string bool
  | AppendFile string bool

text \<open>
  What the selectors of the scrapers read from one element matched by
  \<open>.product-grid .item\<close> on a catalog page: \<open>text()\<close> yields a string (empty when
  nothing matches), \<open>attr()\<close> a string or \<open>undefined\<close>. \<open>availability\<close> is \<open>None\<close>
  when \<open>.availability\<close> matches nothing, otherwise the texts of its \<open>span.green\<close>
  descendants.
\<close>

record item_elem =
  productName :: string
  detailCode :: string
  dataOrig :: "string option"
  productHref :: "string option"
  imgSrc :: "string option"
  availability :: "string list option"

text \<open>
  The \<open>brandModels\<close> object of the data source page, as the \<open>for ... in\<close> and
  \<open>for ... of\<close> loops of \<open>scrapeAllCars\<close> enumerate it: brands in order, each with its
  models in order, each with its year ranges. \<open>getBrandModelsData\<close> finds no script
  (\<open>NoScript\<close>), fails to evaluate it (\<open>BadScript\<close>) or obtains the object.
\<close>

type_synonym BrandModelsData = "(string \<times> (string \<times> string list) list) list"

datatype brandModelsScript = NoScript | BadScript | Script BrandModelsData

text \<open>
  A fetched document as the selectors of the three programs see it: the catalog items and
  the \<open>href\<close> of \<open>.pagination .next a\<close>; on a product page the text of
  \<open>#tabs2-horizontal\<close>, the availability block (as for an item), the \<open>src\<close> of the main
  picture and the \<open>data-path\<close> and \<open>data-filename\<close> of each thumbnail; on the data
  source page the \<open>brandModels\<close> script.
\<close>

record page =
  items :: "item_elem list"
  nextLink :: "string option"
  tabs2 :: string
  detailAvailability :: "string list option"
  mainImgSrc :: "string option"
  thumbs :: "(string option \<times> string option) list"
  brandModels :: brandModelsScript

text \<open>
  The outside world has a state of type \<open>'w\<close>. \<open>httpGet\<close> answers a request
  (\<open>None\<close> when \<open>axios.get\<close> or \<open>cheerio.load\<close> throws) and \<open>fsOk\<close> decides whether
  the next write to the output file succeeds; both may change the world. The other
  fields are the library functions the programs call, which are not part of the
  repository: \<open>parseFloat\<close> (\<open>None\<close> for \<open>NaN\<close>) and \<open>Number.prototype.toString\<close> on
  numbers of type \<open>'n\<close>; \<open>newURL x\<close> for \<open>new URL(x, BASE_URL).toString()\<close> (\<open>None\<close>
  when the constructor throws); \<open>codeMatch t\<close> for the first group of
  \<open>t.match(/Deta\<dots>as kods:\s*(.*)/)\<close> (\<open>None\<close> when there is no match);
  \<open>nextCatalogUrl url link\<close> and \<open>nextCarUrl url link\<close> for the \<open>try\<close> blocks that
  resolve the next-page link against \<open>BASE_URL\<close> and copy the query parameters of the
  current URL (\<open>None\<close> when they throw); and \<open>encodeURIComponent\<close>.
\<close>

record ('w, 'n) env =
  httpGet :: "'w \<Rightarrow> string \<Rightarrow> page option \<times> 'w"
  fsOk :: "'w \<Rightarrow> bool \<times> 'w"
  parseFloat :: "string \<Rightarrow> 'n option"
  numberToString :: "'n \<Rightarrow> string"
  newURL :: "string \<Rightarrow> string option"
  codeMatch :: "string \<Rightarrow> string option"
  nextCatalogUrl :: "string \<Rightarrow> string \<Rightarrow> string option"
  nextCarUrl :: "string \<Rightarrow> string \<Rightarrow> string option"
  encodeURIComponent :: "string \<Rightarrow> string"

text \<open>
  The state every function threads: the world, the trace so far, and the content of the
  output file (\<open>None\<close> when the file does not exist).
\<close>

record 'w io =
  world :: 'w
  trace :: "event list"
  outputFile :: "string option"

definition console :: "level \<Rightarrow> string \<Rightarrow> 'w io \<Rightarrow> 'w io" where
  "console l m s = s\<lparr>trace := trace s @ [Console l m]\<rparr>"

definition axiosGet :: "('w, 'n) env \<Rightarrow> string \<Rightarrow> 'w io \<Rightarrow> page option \<times> 'w io" where
  "axiosGet env url s =
     (let (r, w) = httpGet env (world s) url
      in (r, s\<lparr>world := w, trace := trace s @ [HttpGet url]\<rparr>))"

text \<open>
  \<open>fs.writeFile\<close> replaces the content, \<open>fs.appendFile\<close> extends it (creating the file
  when it does not exist); the result tells whether the promise was fulfilled. A failed
  operation is taken to leave the file as it was.
\<close>

definition writeFile :: "('w, 'n) env \<Rightarrow> string \<Rightarrow> 'w io \<Rightarrow> bool \<times> 'w io" where
  "writeFile env d s =
     (let (ok, w) = fsOk env (world s)
      in (ok, s\<lparr>world := w, trace := trace s @ [WriteFile d ok],
                  outputFile := (if ok then Some d else outputFile s)\<rparr>))"

definition appendFile :: "('w, 'n) env \<Rightarrow> string \<Rightarrow> 'w io \<Rightarrow> bool \<times> 'w io" where
  "appendFile env d s =
     (let (ok, w) = fsOk env (world s)
      in (ok, s\<lparr>world := w, trace := trace s @ [AppendFile d ok],
                  outputFile := (if ok then Some (case outputFile s of None \<Rightarrow> d | Some c \<Rightarrow> c @ d)
                           else outputFile s)\<rparr>))"

text \<open>\<open>fs.stat(f).catch(() => null)\<close>, of which only \<open>size\<close> is read.\<close>

definition statSize :: "'w io \<Rightarrow> nat option" where
  "statSize s = map_option length (outputFile s)"

text \<open>The compile-time limits of the programs.\<close>

record config =
  MAX_CATALOG_PAGES :: nat
  MAX_PRODUCTS_PER_CAR :: enat
  MAX_TOTAL_PRODUCTS :: enat

definition sourceConfig :: config where
  "sourceConfig = \<lparr>MAX_CATALOG_PAGES = 1000, MAX_PRODUCTS_PER_CAR = \<infinity>, MAX_TOTAL_PRODUCTS = 1500\<rparr>"

definition BASE_URL :: string where
  "BASE_URL = ''https://www.fastdeliverycarparts.com''"

text \<open>\<open>new URL("/img/default-image.png", BASE_URL).toString()\<close>, which never throws.\<close>

definition DEFAULT_IMAGE_URL :: string where
  "DEFAULT_IMAGE_URL = BASE_URL @ ''/img/default-image.png''"


section \<open>Extraction steps shared by the catalog-page scrapers\<close>

text \<open>
  The three catalog-page scrapers repeat the same statements for the site code, the
  price, the absolute URLs and the stock flag of an item.
\<close>

definition siteCodeOf :: "('w, 'n) env \<Rightarrow> item_elem \<Rightarrow> string option" where
  "siteCodeOf env el =
     (let codeText = trim (detailCode el)
      in if codeText \<noteq> []
         then (case codeMatch env codeText of
                 None \<Rightarrow> None
               | Some g \<Rightarrow> if g \<noteq> [] then Some (trim g) else None)
         else None)"

definition priceOf :: "('w, 'n) env \<Rightarrow> item_elem \<Rightarrow> 'n option" where
  "priceOf env el =
     (case dataOrig el of
        None \<Rightarrow> None
      | Some priceStr \<Rightarrow> if priceStr \<noteq> [] then parseFloat env priceStr else None)"

text \<open>
  \<open>if (rel) { try { u = new URL(rel, BASE_URL).toString() } catch { console.warn(msg) } }\<close>
\<close>

definition resolveOrWarn ::
  "('w, 'n) env \<Rightarrow> string \<Rightarrow> string option \<Rightarrow> 'w io \<Rightarrow> string option \<times> 'w io" where
  "resolveOrWarn env msg rel s =
     (case rel of
        None \<Rightarrow> (None, s)
      | Some r \<Rightarrow>
          if r = [] then (None, s)
          else (case newURL env r of
                  Some u \<Rightarrow> (Some u, s)
                | None \<Rightarrow> (None, console WARN msg s)))"

text \<open>The stock flag: some \<open>span.green\<close> of the availability block holds a digit.\<close>

definition stockOf :: "string list option \<Rightarrow> bool" where
  "stockOf a = (case a of None \<Rightarrow> False | Some greens \<Rightarrow> list_ex (\<lambda>t. hasDigit (trim t)) greens)"

section \<open>The first program of \<open>src/scraper.ts\<close> (SKU derived from the name)\<close>

record 'n BaseInfo =
  sku :: "string option"
  siteCode :: "string option"
  name :: "string option"
  price :: "'n option"
  productPageUrl :: "string option"

record 'n CatalogInfo = "'n BaseInfo" +
  imageUrl :: "string option"
  isInStock :: bool

record 'n Product = "'n CatalogInfo" +
  manufacturerCode :: "string option"

definition START_URL :: string where
  "START_URL = ''https://www.fastdeliverycarparts.com/katalogs/?cat=38,4,23,95,1107,98,8,9,13,35,70,76,40,1103,1101,3,11,5,9000000423,9000000421,9000000422,32,14,19,16,15,31,20,99,97,46,47,71,41,80,85,79,78,84,81,1106,39,49,37,50,1116,54,51,105,57,52,58,59,60,67,68,30,1102,75,1104,66,101,102,64,109,36,18,34,1109,69,65,72,1108,2,104,42,6,1117,29,1118,43,17,7,45,10,44,24,28,22,106,108,55,96,92,1105,93,12,1112,94,86,88,89,87,91,77,63,21,103,27,61,107,25,1110,1113,1111,1114,56,1115''"

text \<open>
  \<open>scrapeProductDetails\<close> (lines 79-124). The two texts of the error message (for an
  axios error and for any other) are one event.
\<close>

definition scrapeProductDetails ::
  "('w, 'n) env \<Rightarrow> string \<Rightarrow> 'w io \<Rightarrow> string option \<times> 'w io" where
  "scrapeProductDetails env url s =
     (if url = [] then (None, console WARN ''Skipping detail scraping due to missing URL.'' s)
      else
        (case axiosGet env url (console LOG '' -> Fetching details from'' s) of
           (None, s1) \<Rightarrow> (None, console ERROR '' -> Error fetching product details page'' s1)
         | (Some pg, s1) \<Rightarrow> (orNull (trim (tabs2 pg)), s1)))"

text \<open>The callback of \<open>$(".product-grid .item").each\<close> in \<open>scrapeCatalogPage\<close> (lines 154-233).\<close>

definition catalogItem :: "('w, 'n) env \<Rightarrow> item_elem \<Rightarrow> 'w io \<Rightarrow> 'n CatalogInfo \<times> 'w io" where
  "catalogItem env el s =
     (let name' = orNull (trim (productName el));
          sku' = map_option replaceWhiteSpace name';
          siteCode' = siteCodeOf env el;
          price' = priceOf env el;
          (productPageUrl', s1) =
             resolveOrWarn env ''Could not construct absolute URL for product page'' (productHref el) s;
          (imageUrl', s2) =
             resolveOrWarn env ''Could not construct absolute URL for image'' (imgSrc el) s1;
          imageUrl'' = (if truthy imageUrl' then imageUrl' else Some DEFAULT_IMAGE_URL);
          isInStock' = stockOf (availability el)
      in (\<lparr>sku = sku', siteCode = siteCode', name = name', price = price',
           productPageUrl = productPageUrl', imageUrl = imageUrl'', isInStock = isInStock'\<rparr>, s2))"

fun catalogItems ::
  "('w, 'n) env \<Rightarrow> item_elem list \<Rightarrow> 'w io \<Rightarrow> 'n CatalogInfo list \<times> 'w io" where
  "catalogItems env [] s = ([], s)"
| "catalogItems env (el # els) s =
     (let (b, s1) = catalogItem env el s;
          (bs, s2) = catalogItems env els s1
      in (b # bs, s2))"

text \<open>The next-page link of a catalog page (lines 235-253).\<close>

definition nextPageOf ::
  "(string \<Rightarrow> string \<Rightarrow> string option) \<Rightarrow> string \<Rightarrow> string \<Rightarrow> page \<Rightarrow> 'w io \<Rightarrow> string option \<times> 'w io" where
  "nextPageOf resolve msg url pg s =
     (case nextLink pg of
        None \<Rightarrow> (None, s)
      | Some l \<Rightarrow>
          if l = [] then (None, s)
          else (case resolve url l of
                  Some u \<Rightarrow> (Some u, s)
                | None \<Rightarrow> (None, console WARN msg s)))"

text \<open>\<open>scrapeCatalogPage\<close> (lines 131-266).\<close>

definition scrapeCatalogPage ::
  "('w, 'n) env \<Rightarrow> string \<Rightarrow> 'w io \<Rightarrow> ('n CatalogInfo list \<times> string option) \<times> 'w io" where
  "scrapeCatalogPage env url s =
     (case axiosGet env url (console LOG ''Fetching catalog page'' s) of
        (None, s1) \<Rightarrow> (([], None), console ERROR ''Error fetching or parsing catalog page'' s1)
      | (Some pg, s1) \<Rightarrow>
          (let (productsBaseInfo, s2) = catalogItems env (items pg) s1;
               (nextPageUrl, s3) =
                  nextPageOf (nextCatalogUrl env) ''Could not construct absolute URL for next page'' url pg s2
           in ((productsBaseInfo, nextPageUrl), s3)))"

text \<open>The local variables of \<open>scrapeAllPages\<close>.\<close>

record 'p pagesState =
  allProducts :: "'p list"
  currentCatalogPageUrl :: "string option"
  catalogPageCount :: nat

definition withManufacturerCode :: "'n CatalogInfo \<Rightarrow> string option \<Rightarrow> 'n Product" where
  "withManufacturerCode b m =
     \<lparr>sku = sku b, siteCode = siteCode b, name = name b, price = price b,
      productPageUrl = productPageUrl b, imageUrl = imageUrl b, isInStock = isInStock b,
      manufacturerCode = m\<rparr>"

text \<open>The \<open>for\<close> loop over the products of one catalog page (lines 359-394).\<close>

fun mergeDetails ::
  "('w, 'n) env \<Rightarrow> 'n CatalogInfo list \<Rightarrow> 'n Product list \<times> 'w io \<Rightarrow> 'n Product list \<times> 'w io" where
  "mergeDetails env [] (acc, s) = (acc, s)"
| "mergeDetails env (baseInfo # rest) (acc, s) =
     (let s1 = console LOG ''Processing SKU'' s
      in if \<not> truthy (productPageUrl baseInfo)
         then mergeDetails env rest
                (acc @ [withManufacturerCode baseInfo None],
                 console WARN '' -> Skipping detail fetch due to missing product page URL'' s1)
         else (let (manufacturerCode', s2) =
                     scrapeProductDetails env (orElse (productPageUrl baseInfo) []) s1
               in mergeDetails env rest (acc @ [withManufacturerCode baseInfo manufacturerCode'], s2)))"

text \<open>
  One execution of the body of the \<open>while\<close> loop (lines 343-400) on the page at \<open>url\<close>;
  the result tells whether the loop goes on to test its condition again (\<open>True\<close>) or was
  left with \<open>break\<close> (\<open>False\<close>).
\<close>

definition catalogStep ::
  "('w, 'n) env \<Rightarrow> string \<Rightarrow> 'n Product pagesState \<times> 'w io \<Rightarrow> bool \<times> 'n Product pagesState \<times> 'w io" where
  "catalogStep env url = (\<lambda>(v, s).
     (let n = catalogPageCount v + 1;
          ((productsBaseInfo, nextPageUrl), s1) = scrapeCatalogPage env url s
      in if productsBaseInfo = [] \<and> n > 1
         then (False, v\<lparr>catalogPageCount := n\<rparr>,
               console LOG ''No products found on catalog page, stopping catalog pagination.'' s1)
         else
           (let (acc, s2) = mergeDetails env productsBaseInfo
                              (allProducts v, console LOG ''Found products on catalog page. Fetching details...'' s1)
            in if nextPageUrl = Some url
               then (False, v\<lparr>catalogPageCount := n, allProducts := acc\<rparr>,
                     console LOG ''Next catalog page URL is the same as current, stopping.'' s2)
               else (True, v\<lparr>catalogPageCount := n, allProducts := acc,
                             currentCatalogPageUrl := nextPageUrl\<rparr>, s2))))"

lemma catalogStep_count:
  "catalogStep env url (v, s) = (b, v', s') \<Longrightarrow> catalogPageCount v' = Suc (catalogPageCount v)"
  by (auto simp: catalogStep_def Let_def split: prod.splits if_splits)

text \<open>The \<open>while\<close> loop of \<open>scrapeAllPages\<close> (line 342).\<close>

function catalogLoop ::
  "config \<Rightarrow> ('w, 'n) env \<Rightarrow> 'n Product pagesState \<times> 'w io \<Rightarrow> 'n Product pagesState \<times> 'w io" where
  "catalogLoop cfg env (v, s) =
     (case currentCatalogPageUrl v of
        None \<Rightarrow> (v, s)
      | Some url \<Rightarrow>
          if url \<noteq> [] \<and> catalogPageCount v < MAX_CATALOG_PAGES cfg
          then (case catalogStep env url (v, s) of
                  (True, vs') \<Rightarrow> catalogLoop cfg env vs'
                | (False, vs') \<Rightarrow> vs')
          else (v, s))"
  by pat_completeness auto
termination
  by (relation "measure (\<lambda>(cfg, env, v, s). MAX_CATALOG_PAGES cfg - catalogPageCount v)")
     (auto dest: catalogStep_count [OF sym])


section \<open>The second program of \<open>src/scraper.ts\<close> (SKU derived from the URL)\<close>

text \<open>
  The names of this program that the first program also declares carry the suffix \<open>2\<close>.
  Its catalog page yields a \<^typ>\<open>'n BaseInfo\<close> per item; stock and images come from the
  product page.
\<close>

record 'n Product2 = "'n BaseInfo" +
  manufacturerCode2 :: "string option"
  isInStock2 :: bool
  imageUrls :: "string list"

text \<open>\<open>s.split("/")\<close>.\<close>

fun splitSlash :: "string \<Rightarrow> string list" where
  "splitSlash [] = [[]]"
| "splitSlash (c # cs) =
     (case splitSlash cs of
        [] \<Rightarrow> (if c = CHR ''/'' then [[], []] else [[c]])
      | p # ps \<Rightarrow> (if c = CHR ''/'' then [] # p # ps else (c # p) # ps))"

text \<open>
  \<open>s.replace(/__\d+\//, "")\<close>: the leftmost occurrence of two underscores, one or more
  digits and a slash is removed. \<open>matchSize s\<close> is what follows such an occurrence at
  the start of \<open>s\<close>.
\<close>

definition matchSize :: "string \<Rightarrow> string option" where
  "matchSize s =
     (case s of
        a # b # r \<Rightarrow>
          if a = CHR ''_'' \<and> b = CHR ''_'' \<and> takeWhile isDigit r \<noteq> []
          then (case dropWhile isDigit r of
                  [] \<Rightarrow> None
                | c # r' \<Rightarrow> if c = CHR ''/'' then Some r' else None)
          else None
      | _ \<Rightarrow> None)"

fun removeSize :: "string \<Rightarrow> string" where
  "removeSize [] = []"
| "removeSize (c # cs) =
     (case matchSize (c # cs) of Some r \<Rightarrow> r | None \<Rightarrow> c # removeSize cs)"

text \<open>
  The callback of \<open>$("#single-item-card-left-column-thumbs img").each\<close> (lines 570-594),
  with \<open>mainImageUrl\<close> and the \<open>imageUrls\<close> collected so far.
\<close>

definition thumbImage ::
  "('w, 'n) env \<Rightarrow> string option \<Rightarrow> string option \<times> string option \<Rightarrow> string list \<times> 'w io \<Rightarrow> string list \<times> 'w io" where
  "thumbImage env mainImageUrl = (\<lambda>(thumbDataPath, thumbFilename) (urls, s).
     if truthy thumbDataPath \<and> truthy thumbFilename
     then (case newURL env (orElse thumbDataPath [] @ orElse thumbFilename []) of
             None \<Rightarrow> (urls, console WARN '' -> Could not construct thumb image URL'' s)
           | Some fullImageUrl \<Rightarrow>
               if \<not> includesStr fullImageUrl ''default-image.png''
                  \<and> Some fullImageUrl \<noteq> mainImageUrl
                  \<and> fullImageUrl \<notin> set urls
               then (urls @ [fullImageUrl], s)
               else (urls, s))
     else (urls, s))"

fun thumbImages ::
  "('w, 'n) env \<Rightarrow> string option \<Rightarrow> (string option \<times> string option) list \<Rightarrow> string list \<times> 'w io \<Rightarrow> string list \<times> 'w io" where
  "thumbImages env mainImageUrl [] us = us"
| "thumbImages env mainImageUrl (t # ts) us =
     thumbImages env mainImageUrl ts (thumbImage env mainImageUrl t us)"

text \<open>The main picture (lines 553-568): the value of \<open>mainImageUrl\<close> and of \<open>imageUrls\<close>.\<close>

definition mainImage ::
  "('w, 'n) env \<Rightarrow> string option \<Rightarrow> 'w io \<Rightarrow> (string option \<times> string list) \<times> 'w io" where
  "mainImage env mainImgSrc' s =
     (if truthy mainImgSrc'
      then (case newURL env (orElse mainImgSrc' []) of
              None \<Rightarrow> ((None, []), console WARN '' -> Could not parse main image URL'' s)
            | Some u \<Rightarrow>
                (let mainImageUrl = removeSize u
                 in if \<not> includesStr mainImageUrl ''default-image.png''
                    then ((Some mainImageUrl, [mainImageUrl]), s)
                    else ((None, []), s)))
      else ((None, []), s))"

text \<open>The images of a fetched product page (lines 553-600).\<close>

definition pageImages :: "('w, 'n) env \<Rightarrow> page \<Rightarrow> 'w io \<Rightarrow> string list \<times> 'w io" where
  "pageImages env pg s =
     (let ((mainImageUrl, urls0), s1) = mainImage env (mainImgSrc pg) s;
          (urls1, s2) = thumbImages env mainImageUrl (thumbs pg) (urls0, s1)
      in if urls1 = [] then ([DEFAULT_IMAGE_URL], s2) else (urls1, s2))"

text \<open>\<open>scrapeProductDetails\<close> of the second program (lines 506-616 of \<open>src/scraper.ts\<close>).\<close>

definition scrapeProductDetails2 ::
  "('w, 'n) env \<Rightarrow> string \<Rightarrow> 'w io \<Rightarrow> (string option \<times> bool \<times> string list) \<times> 'w io" where
  "scrapeProductDetails2 env url s =
     (if url = []
      then ((None, False, []), console WARN ''Skipping detail scraping due to missing URL.'' s)
      else
        (case axiosGet env url (console LOG '' -> Fetching details from'' s) of
           (None, s1) \<Rightarrow>
             ((None, False, []), console ERROR '' -> Error fetching product details page'' s1)
         | (Some pg, s1) \<Rightarrow>
             (let manufacturerCode' = orNull (trim (tabs2 pg));
                  isInStock' = stockOf (detailAvailability pg);
                  s2 = (if detailAvailability pg = None
                        then console WARN '' -> Availability info div not found'' s1 else s1);
                  (urls, s3) = pageImages env pg s2
              in ((manufacturerCode', isInStock', urls), s3))))"

text \<open>
  The callback of \<open>$(".product-grid .item").each\<close> in \<open>scrapeCatalogPage\<close> of the second
  program. \<open>candidate2\<close> is lines 648-691: the values of \<open>sku\<close>, \<open>siteCode\<close>, \<open>name\<close>,
  \<open>price\<close> and \<open>productPageUrl\<close> when line 693 is reached.
\<close>

definition potentialId :: "string \<Rightarrow> string option" where
  "potentialId u =
     (let urlParts = splitSlash u
      in if last urlParts \<noteq> [] then Some (last urlParts)
         else if 2 \<le> length urlParts then Some (urlParts ! (length urlParts - 2))
         else None)"

definition candidate2 :: "('w, 'n) env \<Rightarrow> item_elem \<Rightarrow> 'w io \<Rightarrow> 'n BaseInfo \<times> 'w io" where
  "candidate2 env el s =
     (let name' = orNull (trim (productName el));
          siteCode' = siteCodeOf env el;
          price' = priceOf env el;
          ((productPageUrl', sku'), s1) =
             (if truthy (productHref el)
              then (case newURL env (orElse (productHref el) []) of
                      None \<Rightarrow>
                        ((None, None),
                         console WARN ''Could not construct absolute URL or extract SKU for product page'' s)
                    | Some u \<Rightarrow>
                        (case potentialId u of
                           None \<Rightarrow>
                             ((Some u, None),
                              console WARN ''Could not extract numeric ID from product URL'' s)
                         | Some i \<Rightarrow>
                             if i \<noteq> [] \<and> allDigits i then ((Some u, Some i), s)
                             else ((Some u, None),
                                   console WARN ''Could not extract numeric ID from product URL'' s)))
              else ((None, None), s))
      in (\<lparr>sku = sku', siteCode = siteCode', name = name', price = price',
           productPageUrl = productPageUrl'\<rparr>, s1))"

text \<open>Lines 693-706: the item is pushed, or left out.\<close>

definition pushCandidate2 ::
  "'n BaseInfo \<Rightarrow> 'n BaseInfo list \<times> 'w io \<Rightarrow> 'n BaseInfo list \<times> 'w io" where
  "pushCandidate2 c = (\<lambda>(acc, s).
     if truthy (name c) \<or> truthy (siteCode c) \<or> truthy (sku c) \<or> price c \<noteq> None
        \<or> truthy (productPageUrl c)
     then
       (let s1 = (if \<not> (truthy (name c) \<and> truthy (siteCode c) \<and> truthy (sku c)
                         \<and> price c \<noteq> None \<and> truthy (productPageUrl c))
                  then console WARN ''Product has missing base data but will still be included'' s
                  else s)
        in (acc @ [\<lparr>sku = optOrNull (sku c), siteCode = optOrNull (siteCode c),
                     name = optOrNull (name c), price = price c,
                     productPageUrl = optOrNull (productPageUrl c)\<rparr>], s1))
     else (acc, s))"

definition catalogItem2 ::
  "('w, 'n) env \<Rightarrow> item_elem \<Rightarrow> 'n BaseInfo list \<times> 'w io \<Rightarrow> 'n BaseInfo list \<times> 'w io" where
  "catalogItem2 env el = (\<lambda>(acc, s).
     (let (c, s1) = candidate2 env el s in pushCandidate2 c (acc, s1)))"

fun catalogItems2 ::
  "('w, 'n) env \<Rightarrow> item_elem list \<Rightarrow> 'n BaseInfo list \<times> 'w io \<Rightarrow> 'n BaseInfo list \<times> 'w io" where
  "catalogItems2 env [] a = a"
| "catalogItems2 env (el # els) a = catalogItems2 env els (catalogItem2 env el a)"

text \<open>\<open>scrapeCatalogPage\<close> of the second program (lines 618-740 of \<open>src/scraper.ts\<close>).\<close>

definition scrapeCatalogPage2 ::
  "('w, 'n) env \<Rightarrow> string \<Rightarrow> 'w io \<Rightarrow> ('n BaseInfo list \<times> string option) \<times> 'w io" where
  "scrapeCatalogPage2 env url s =
     (case axiosGet env url (console LOG ''Fetching catalog page'' s) of
        (None, s1) \<Rightarrow> (([], None), console ERROR ''Error fetching or parsing catalog page'' s1)
      | (Some pg, s1) \<Rightarrow>
          (let (productsBaseInfo, s2) = catalogItems2 env (items pg) ([], s1);
               (nextPageUrl, s3) =
                  nextPageOf (nextCatalogUrl env) ''Could not construct absolute URL for next page'' url pg s2
           in ((productsBaseInfo, nextPageUrl), s3)))"

text \<open>The \<open>for\<close> loop over the products of one catalog page (lines 828-857).\<close>

fun mergeDetails2 ::
  "('w, 'n) env \<Rightarrow> 'n BaseInfo list \<Rightarrow> 'n Product2 list \<times> 'w io \<Rightarrow> 'n Product2 list \<times> 'w io" where
  "mergeDetails2 env [] (acc, s) = (acc, s)"
| "mergeDetails2 env (baseInfo # rest) (acc, s) =
     (let s1 = console LOG ''Processing SKU'' s
      in if \<not> truthy (productPageUrl baseInfo)
         then mergeDetails2 env rest
                (acc, console WARN '' -> Skipping detail fetch due to missing product page URL'' s1)
         else (let ((manufacturerCode', isInStock', imageUrls'), s2) =
                     scrapeProductDetails2 env (orElse (productPageUrl baseInfo) []) s1
               in mergeDetails2 env rest
                    (acc @ [\<lparr>sku = sku baseInfo, siteCode = siteCode baseInfo, name = name baseInfo,
                             price = price baseInfo, productPageUrl = productPageUrl baseInfo,
                             manufacturerCode2 = manufacturerCode', isInStock2 = isInStock',
                             imageUrls = imageUrls'\<rparr>], s2)))"

text \<open>The body and the \<open>while\<close> loop of \<open>scrapeAllPages\<close> of the second program (lines 811-867).\<close>

definition catalogStep2 ::
  "('w, 'n) env \<Rightarrow> string \<Rightarrow> 'n Product2 pagesState \<times> 'w io \<Rightarrow> bool \<times> 'n Product2 pagesState \<times> 'w io" where
  "catalogStep2 env url = (\<lambda>(v, s).
     (let n = catalogPageCount v + 1;
          ((productsBaseInfo, nextPageUrl), s1) = scrapeCatalogPage2 env url s
      in if productsBaseInfo = [] \<and> n > 1
         then (False, v\<lparr>catalogPageCount := n\<rparr>,
               console LOG ''No products found on catalog page, stopping catalog pagination.'' s1)
         else
           (let (acc, s2) = mergeDetails2 env productsBaseInfo
                              (allProducts v, console LOG ''Found products on catalog page. Fetching details...'' s1)
            in if nextPageUrl = Some url
               then (False, v\<lparr>catalogPageCount := n, allProducts := acc\<rparr>,
                     console LOG ''Next catalog page URL is the same as current, stopping.'' s2)
               else (True, v\<lparr>catalogPageCount := n, allProducts := acc,
                             currentCatalogPageUrl := nextPageUrl\<rparr>, s2))))"

lemma catalogStep2_count:
  "catalogStep2 env url (v, s) = (b, v', s') \<Longrightarrow> catalogPageCount v' = Suc (catalogPageCount v)"
  by (auto simp: catalogStep2_def Let_def split: prod.splits if_splits)

function catalogLoop2 ::
  "config \<Rightarrow> ('w, 'n) env \<Rightarrow> 'n Product2 pagesState \<times> 'w io \<Rightarrow> 'n Product2 pagesState \<times> 'w io" where
  "catalogLoop2 cfg env (v, s) =
     (case currentCatalogPageUrl v of
        None \<Rightarrow> (v, s)
      | Some url \<Rightarrow>
          if url \<noteq> [] \<and> catalogPageCount v < MAX_CATALOG_PAGES cfg
          then (case catalogStep2 env url (v, s) of
                  (True, vs') \<Rightarrow> catalogLoop2 cfg env vs'
                | (False, vs') \<Rightarrow> vs')
          else (v, s))"
  by pat_completeness auto
termination
  by (relation "measure (\<lambda>(cfg, env, v, s). MAX_CATALOG_PAGES cfg - catalogPageCount v)")
     (auto dest: catalogStep2_count [OF sym])


section \<open>The program \<open>src/category-specific-scraper.ts\<close>\<close>

record 'n CarProduct = "'n Product" +
  brandCode :: "string option"
  modelName :: "string option"
  yearRange :: "string option"

definition DATA_SOURCE_URL :: string where
  "DATA_SOURCE_URL = ''https://www.fastdeliverycarparts.com/katalogs/''"

text \<open>\<open>getBrandModelsData\<close> (lines 158-191).\<close>

definition getBrandModelsData :: "('w, 'n) env \<Rightarrow> 'w io \<Rightarrow> BrandModelsData option \<times> 'w io" where
  "getBrandModelsData env s =
     (case axiosGet env DATA_SOURCE_URL (console LOG ''Fetching brand/model data'' s) of
        (None, s1) \<Rightarrow> (None, console ERROR ''Error fetching or parsing brandModels data'' s1)
      | (Some pg, s1) \<Rightarrow>
          (case brandModels pg of
             NoScript \<Rightarrow>
               (None, console ERROR ''Could not find brandModels script tag or data in HTML.'' s1)
           | BadScript \<Rightarrow> (None, console ERROR ''Error fetching or parsing brandModels data'' s1)
           | Script t \<Rightarrow> (Some t, console LOG ''Successfully parsed brand/model data.'' s1)))"

text \<open>\<open>scrapeProductDetails\<close> of this program (lines 196-235).\<close>

definition scrapeProductDetailsCar ::
  "('w, 'n) env \<Rightarrow> string \<Rightarrow> 'w io \<Rightarrow> string option \<times> 'w io" where
  "scrapeProductDetailsCar env url s =
     (if url = [] then (None, console WARN ''Skipping detail scraping due to missing URL.'' s)
      else
        (case axiosGet env url (console LOG ''   -> Fetching details from'' s) of
           (None, s1) \<Rightarrow> (None, console ERROR ''   -> Error fetching product details page'' s1)
         | (Some pg, s1) \<Rightarrow> (orNull (trim (tabs2 pg)), s1)))"

text \<open>The callback of \<open>$(".product-grid .item").each\<close> in \<open>scrapeCarCatalogPage\<close> (lines 269-346).\<close>

definition carCatalogItem ::
  "('w, 'n) env \<Rightarrow> string \<Rightarrow> string \<Rightarrow> string \<Rightarrow> item_elem \<Rightarrow> 'w io \<Rightarrow> 'n CarProduct \<times> 'w io" where
  "carCatalogItem env brandCode' modelName' yearRange' el s =
     (let name' = orNull (trim (productName el));
          sku' = map_option replaceWhiteSpace name';
          siteCode' = siteCodeOf env el;
          price' = priceOf env el;
          (productPageUrl', s1) =
             resolveOrWarn env '' -> Could not construct product URL'' (productHref el) s;
          (imageUrl', s2) =
             resolveOrWarn env '' -> Could not construct image URL'' (imgSrc el) s1;
          imageUrl'' = (if truthy imageUrl' then imageUrl' else Some DEFAULT_IMAGE_URL);
          isInStock' = stockOf (availability el)
      in (\<lparr>sku = sku', siteCode = siteCode', name = name', price = price',
           productPageUrl = productPageUrl', imageUrl = imageUrl'', isInStock = isInStock',
           manufacturerCode = None, brandCode = Some brandCode', modelName = Some modelName',
           yearRange = Some yearRange'\<rparr>, s2))"

fun carCatalogItems ::
  "('w, 'n) env \<Rightarrow> string \<Rightarrow> string \<Rightarrow> string \<Rightarrow> item_elem list \<Rightarrow> 'w io \<Rightarrow> 'n CarProduct list \<times> 'w io" where
  "carCatalogItems env b m y [] s = ([], s)"
| "carCatalogItems env b m y (el # els) s =
     (let (p, s1) = carCatalogItem env b m y el s;
          (ps, s2) = carCatalogItems env b m y els s1
      in (p # ps, s2))"

text \<open>\<open>scrapeCarCatalogPage\<close> (lines 240-395).\<close>

definition scrapeCarCatalogPage ::
  "('w, 'n) env \<Rightarrow> string \<Rightarrow> string \<Rightarrow> string \<Rightarrow> string \<Rightarrow> 'w io \<Rightarrow> ('n CarProduct list \<times> string option) \<times> 'w io" where
  "scrapeCarCatalogPage env url b m y s =
     (case axiosGet env url (console LOG '' -> Fetching catalog page'' s) of
        (None, s1) \<Rightarrow> (([], None), console ERROR '' -> Error fetching or parsing catalog page'' s1)
      | (Some pg, s1) \<Rightarrow>
          (let (productsFromPage, s2) = carCatalogItems env b m y (items pg) s1;
               (nextPageUrl, s3) =
                  nextPageOf (nextCarUrl env) '' -> Could not construct next page URL for car'' url pg s2
           in ((productsFromPage, nextPageUrl), s3)))"

text \<open>The local variables of \<open>scrapeSingleCar\<close>.\<close>

record 'n carState =
  carProducts :: "'n CarProduct list"
  currentCarCatalogUrl :: "string option"
  productCountForCar :: nat
  pageCountForCar :: nat

text \<open>The \<open>for ... of\<close> loop over the products of one page (lines 438-464).\<close>

fun carDetails ::
  "config \<Rightarrow> ('w, 'n) env \<Rightarrow> 'n CarProduct list \<Rightarrow> 'n carState \<times> 'w io \<Rightarrow> 'n carState \<times> 'w io" where
  "carDetails cfg env [] (v, s) = (v, s)"
| "carDetails cfg env (productBase # rest) (v, s) =
     (if MAX_PRODUCTS_PER_CAR cfg \<le> enat (productCountForCar v)
      then (v, console LOG ''  -> Reached MAX_PRODUCTS_PER_CAR limit for this car.'' s)
      else
        (let s1 = console LOG ''    Processing'' s;
             (p, s2) =
               (if truthy (productPageUrl productBase)
                then (let (manufacturerCode', s') =
                            scrapeProductDetailsCar env (orElse (productPageUrl productBase) []) s1
                      in (productBase\<lparr>manufacturerCode := manufacturerCode'\<rparr>, s'))
                else (productBase, console WARN ''    -> Skipping detail fetch - missing URL.'' s1))
         in carDetails cfg env rest
              (v\<lparr>carProducts := carProducts v @ [p],
                 productCountForCar := productCountForCar v + 1\<rparr>, s2)))"

text \<open>
  One execution of the body of the \<open>while\<close> loop of \<open>scrapeSingleCar\<close> (lines 419-473) on
  the page at \<open>url\<close>; \<open>True\<close> when the loop goes on to test its condition again.
\<close>

definition carStep ::
  "config \<Rightarrow> ('w, 'n) env \<Rightarrow> string \<Rightarrow> string \<Rightarrow> string \<Rightarrow> string \<Rightarrow> 'n carState \<times> 'w io
     \<Rightarrow> bool \<times> 'n carState \<times> 'w io" where
  "carStep cfg env b m y url = (\<lambda>(v, s).
     (let n = pageCountForCar v + 1;
          ((productsFromPage, nextPageUrl), s1) = scrapeCarCatalogPage env url b m y s
      in if productsFromPage = [] \<and> n > 1
         then (False, v\<lparr>pageCountForCar := n\<rparr>,
               console LOG '' -> No more products found for this car on page.'' s1)
         else
           (let (v2, s2) = carDetails cfg env productsFromPage
                             (v\<lparr>pageCountForCar := n\<rparr>,
                              console LOG ''  -> Found products on page. Fetching details...'' s1)
            in if MAX_PRODUCTS_PER_CAR cfg \<le> enat (productCountForCar v2)
               then (False, v2, s2)
               else (True, v2\<lparr>currentCarCatalogUrl := nextPageUrl\<rparr>, s2))))"

text \<open>
  The \<open>while\<close> loop of \<open>scrapeSingleCar\<close> (line 418). Nothing bounds the number of its
  iterations when \<open>MAX_PRODUCTS_PER_CAR\<close> is \<open>Infinity\<close>: the result is \<open>None\<close> when the
  loop does not end.
\<close>

partial_function (option) carLoop ::
  "config \<Rightarrow> ('w, 'n) env \<Rightarrow> string \<Rightarrow> string \<Rightarrow> string \<Rightarrow> 'n carState \<times> 'w io
     \<Rightarrow> ('n carState \<times> 'w io) option" where
  "carLoop cfg env b m y vs =
     (case currentCarCatalogUrl (fst vs) of
        None \<Rightarrow> Some vs
      | Some url \<Rightarrow>
          if url \<noteq> [] \<and> enat (productCountForCar (fst vs)) < MAX_PRODUCTS_PER_CAR cfg
          then (let r = carStep cfg env b m y url vs
                in if fst r then carLoop cfg env b m y (snd r) else Some (snd r))
          else Some vs)"

declare carLoop.simps [code]

text \<open>\<open>scrapeSingleCar\<close> (lines 400-479).\<close>

definition scrapeSingleCar ::
  "config \<Rightarrow> ('w, 'n) env \<Rightarrow> string \<Rightarrow> string \<Rightarrow> string \<Rightarrow> 'w io
     \<Rightarrow> ('n CarProduct list \<times> 'w io) option" where
  "scrapeSingleCar cfg env b m y s =
     (let modelEncoded = encodeURIComponent env m;
          yearEncoded = encodeURIComponent env y;
          url = BASE_URL @ ''/katalogs/?brand='' @ b @ ''&model='' @ modelEncoded
                  @ ''&year='' @ yearEncoded
      in map_option (\<lambda>(v, s1). (carProducts v, console LOG ''--- Finished Car'' s1))
           (carLoop cfg env b m y
              (\<lparr>carProducts = [], currentCarCatalogUrl = Some url, productCountForCar = 0,
                pageCountForCar = 0\<rparr>, console LOG ''--- Scraping Car'' s)))"


section \<open>The CSV output of \<open>src/category-specific-scraper.ts\<close>\<close>

definition BRAND_CODE_TO_NAME_MAP :: "(string \<times> string) list" where
  "BRAND_CODE_TO_NAME_MAP =
    [(''AC'', ''Acura''), (''AF'', ''Alfa Romeo''), (''AD'', ''Audi''), (''AT'', ''Austin''),
     (''BMW'', ''BMW''), (''BU '', ''Buick''), (''CD'', ''Cadillac''), (''CV'', ''Chevrolet''),
     (''CH'', ''Chrysler''), (''CT'', ''Citroen''), (''DC'', ''Dacia''), (''DA'', ''Daewoo''),
     (''DAF'', ''DAF''), (''DH'', ''Daihatsu''), (''DG'', ''Dodge''), (''DS'', ''DS''),
     (''FT'', ''Fiat''), (''FD'', ''Ford''), (''HN'', ''Honda''), (''HUMMER'', ''Hummer''),
     (''HY'', ''Hyundai''), (''IN'', ''Infiniti''), (''IS'', ''Isuzu''), (''IV'', ''Iveco''),
     (''JG'', ''Jaguar''), (''JP'', ''Jeep''), (''KS'', ''Kassbohrer''), (''KIA'', ''KIA''),
     (''LN'', ''Lancia''), (''LR'', ''Land Rover''), (''LX'', ''Lexus''),
     (''LC'', ''Lincoln''), (''MA'', ''MA''), (''MAN'', ''MAN''), (''MZ'', ''Mazda''),
     (''MB'', ''Mercedes-Benz''), (''MINI'', ''Mini''), (''MT'', ''Mitsubishi''),
     (''MOS'', ''Moskvitch''), (''NS'', ''Nissan''), (''OL'', ''Oldsmobile''),
     (''OP'', ''Opel''), (''PG'', ''Peugeot''), (''PL'', ''Plymouth''), (''PT'', ''Pontiac''),
     (''PO'', ''Porsche''), (''RN'', ''Renault''), (''RO'', ''Rover''), (''SAAB'', ''SAAB''),
     (''SC'', ''Scania''), (''SE'', ''Seat''), (''SETRA'', ''Setra''), (''SK'', ''Skoda''),
     (''SMART'', ''Smart''), (''SY'', ''SsangYong''), (''SB'', ''Subaru''),
     (''SZ'', ''Suzuki''), (''TESLA'', ''Tesla''), (''TT'', ''Toyota''),
     (''TRIUMPH'', ''TRIUMPH''), (''VAZ'', ''VAZ''), (''VW'', ''Volkswagen''),
     (''VV'', ''Volvo''), (''ZAZ'', ''Zaz'')]"

definition CRLF :: string where
  "CRLF = [CHR 0x0D, CHR 0x0A]"

text \<open>\<open>xs.join(sep)\<close>.\<close>

fun joinWith :: "string \<Rightarrow> string list \<Rightarrow> string" where
  "joinWith sep [] = []"
| "joinWith sep [x] = x"
| "joinWith sep (x # y # ys) = x @ sep @ joinWith sep (y # ys)"

text \<open>\<open>n.toString()\<close> for a non-negative integer \<open>n\<close>.\<close>

function natToString :: "nat \<Rightarrow> string" where
  "natToString n =
     (if n < 10 then [''0123456789'' ! n]
      else natToString (n div 10) @ [''0123456789'' ! (n mod 10)])"
  by pat_completeness auto
termination
  by (relation "measure id") auto

text \<open>\<open>s.replace("->", "-")\<close>: the first occurrence is replaced.\<close>

fun replaceArrow :: "string \<Rightarrow> string" where
  "replaceArrow (a # b # r) =
     (if a = CHR ''-'' \<and> b = CHR ''>'' then CHR ''-'' # r else a # replaceArrow (b # r))"
| "replaceArrow s = s"

text \<open>
  \<open>Papa.unparse(data, {header, quotes: true, quoteChar: '"', escapeChar: '"',
  delimiter: ",", newline: "\r\n"})\<close> on an array of objects with the 39 string-valued
  keys of \<open>WooCommerceProductRow\<close>, each object given as the list of its values: every
  field is quoted, a quote inside a field is doubled, the rows are separated (not ended)
  by the newline, and an empty array gives the empty string.
\<close>

definition headerFields :: "string list" where
  "headerFields =
    [''ID'', ''Type'', ''SKU'', ''Name'', ''Published'', ''Is featured?'',
     ''Visibility in catalog'', ''Short description'', ''Description'',
     ''Date sale price starts'', ''Date sale price ends'', ''Tax status'', ''Tax class'',
     ''In stock?'', ''Stock'', ''Low stock amount'', ''Backorders allowed?'',
     ''Sold individually?'', ''Weight (kg)'', ''Length (cm)'', ''Width (cm)'', ''Height (cm)'',
     ''Allow customer reviews?'', ''Purchase note'', ''Sale price'', ''Regular price'',
     ''Categories'', ''Tags'', ''Shipping class'', ''Images'', ''Download limit'',
     ''Download expiry days'', ''Parent'', ''Grouped products'', ''Upsells'', ''Cross-sells'',
     ''External URL'', ''Button text'', ''Position'']"

definition csvField :: "string \<Rightarrow> string" where
  "csvField f = CHR 0x22 # concat (map (\<lambda>c. if c = CHR 0x22 then [c, c] else [c]) f) @ [CHR 0x22]"

definition csvRow :: "string list \<Rightarrow> string" where
  "csvRow fs = joinWith '','' (map csvField fs)"

definition unparse :: "bool \<Rightarrow> string list list \<Rightarrow> string" where
  "unparse header rows =
     (if rows = [] then []
      else joinWith CRLF (map csvRow ((if header then [headerFields] else []) @ rows)))"

text \<open>
  The \<open>Categories\<close> column (lines 493-502). The lookup in \<open>BRAND_CODE_TO_NAME_MAP\<close> is
  that of its own keys; a brand code that names a property every JavaScript object
  inherits (such as \<open>constructor\<close>) is outside this model.
\<close>

definition categoryString :: "'n CarProduct \<Rightarrow> string" where
  "categoryString product =
     (let brandName =
            (if truthy (brandCode product)
             then (case map_of BRAND_CODE_TO_NAME_MAP (orElse (brandCode product) []) of
                     Some n \<Rightarrow> n
                   | None \<Rightarrow> orElse (brandCode product) [])
             else []);
          c1 = (if truthy (modelName product)
                then brandName @ (if brandName \<noteq> [] then '' > '' else []) @ orElse (modelName product) []
                else brandName);
          c2 = (if truthy (yearRange product)
                then c1 @ (if c1 \<noteq> [] then '' > '' else [])
                       @ replaceArrow (orElse (yearRange product) [])
                else c1)
      in c2)"

text \<open>
  The three programs build a \<open>WooCommerceProductRow\<close> that differs only in the columns
  \<open>ID\<close>, \<open>SKU\<close>, \<open>Name\<close>, \<open>Categories\<close> and \<open>Images\<close>; \<open>Description\<close>,
  \<open>In stock?\<close> and \<open>Regular price\<close> are computed in the same way from the manufacturer
  code, the site code, the stock flag and the price.
\<close>

definition wooCommerceColumns ::
  "('w, 'n) env \<Rightarrow> string \<Rightarrow> string \<Rightarrow> string \<Rightarrow> string option \<Rightarrow> string option \<Rightarrow> bool
     \<Rightarrow> 'n option \<Rightarrow> string \<Rightarrow> string \<Rightarrow> string list" where
  "wooCommerceColumns env id' sku' name' manufacturerCode' siteCode' isInStock' price' categories images =
     [id',
      ''simple'',
      sku',
      name',
      ''1'',
      ''0'',
      ''visible'',
      [],
      ''Manufacturer Code: '' @ orElse manufacturerCode' ''N/A'' @ [CHR 0x0A]
        @ ''Site Code: '' @ orElse siteCode' ''N/A'',
      [],
      [],
      ''taxable'',
      [],
      (if isInStock' then ''1'' else ''0''),
      [],
      [],
      ''0'',
      ''0'',
      [],
      [],
      [],
      [],
      ''1'',
      [],
      [],
      (case price' of None \<Rightarrow> [] | Some n \<Rightarrow> numberToString env n),
      categories,
      [],
      [],
      images,
      [],
      [],
      [],
      [],
      [],
      [],
      [],
      [],
      ''0'']"

text \<open>The row built for \<open>product\<close> at position \<open>index\<close> of the batch (lines 504-546).\<close>

definition wooCommerceRow :: "('w, 'n) env \<Rightarrow> 'n CarProduct \<Rightarrow> nat \<Rightarrow> string list" where
  "wooCommerceRow env product index =
     wooCommerceColumns env
       []
       (orElse (sku product) (''MISSING-SKU-'' @ orElse (siteCode product) (natToString index)))
       (orElse (name product) (''Unnamed Product '' @ orElse (siteCode product) (natToString index)))
       (manufacturerCode product) (siteCode product) (isInStock product) (price product)
       (categoryString product)
       (orElse (imageUrl product) [])"

text \<open>\<open>convertBatchToWooCommerceCSV\<close> (lines 487-560).\<close>

definition convertBatchToWooCommerceCSV ::
  "('w, 'n) env \<Rightarrow> 'n CarProduct list \<Rightarrow> bool \<Rightarrow> string" where
  "convertBatchToWooCommerceCSV env productsBatch includeHeader =
     unparse includeHeader
       (map (\<lambda>(index, product). wooCommerceRow env product index) (List.enumerate 0 productsBatch))"


section \<open>\<open>scrapeAllCars\<close>: the brand, model and year loops and the batches\<close>

text \<open>The variables \<open>isHeaderWritten\<close> and \<open>totalProductsScraped\<close> of \<open>scrapeAllCars\<close>.\<close>

record carsState =
  isHeaderWritten :: bool
  totalProductsScraped :: nat

text \<open>\<open>xs.slice(0, n)\<close> for \<open>n\<close> a non-negative integer or \<open>Infinity\<close>.\<close>

definition slice0 :: "'a list \<Rightarrow> enat \<Rightarrow> 'a list" where
  "slice0 xs n = (case n of enat k \<Rightarrow> take k xs | \<infinity> \<Rightarrow> xs)"

text \<open>
  How a loop body ends: at its end (\<open>Next\<close>), with \<open>break modelLoop\<close>, with
  \<open>break brandLoop\<close>, or not at all, because a call of \<open>scrapeSingleCar\<close> does not
  return (\<open>Hangs\<close>). The state of a run that hangs is the state before that call.
\<close>

datatype signal = Next | BreakModelLoop | BreakBrandLoop | Hangs

text \<open>The loop over the year ranges of one model (lines 597-631).\<close>

fun yearLoop ::
  "config \<Rightarrow> ('w, 'n) env \<Rightarrow> string \<Rightarrow> string \<Rightarrow> string list
     \<Rightarrow> 'n CarProduct list \<times> carsState \<times> 'w io
     \<Rightarrow> signal \<times> 'n CarProduct list \<times> carsState \<times> 'w io" where
  "yearLoop cfg env b m [] (productsForThisBrand, v, s) = (Next, productsForThisBrand, v, s)"
| "yearLoop cfg env b m (y # ys) (productsForThisBrand, v, s) =
     (if MAX_TOTAL_PRODUCTS cfg \<le> enat (totalProductsScraped v)
      then (BreakBrandLoop, productsForThisBrand, v,
            console LOG ''Reached MAX_TOTAL_PRODUCTS limit. Stopping scraping.'' s)
      else
        (case scrapeSingleCar cfg env b m y s of
           None \<Rightarrow> (Hangs, productsForThisBrand, v, s)
         | Some (productsForThisCarModelYear, s1) \<Rightarrow>
             (let remainingSlots = MAX_TOTAL_PRODUCTS cfg - enat (totalProductsScraped v);
                  productsToAdd = slice0 productsForThisCarModelYear remainingSlots;
                  productsForThisBrand' = productsForThisBrand @ productsToAdd;
                  v' = v\<lparr>totalProductsScraped := totalProductsScraped v + length productsToAdd\<rparr>
              in if MAX_TOTAL_PRODUCTS cfg \<le> enat (totalProductsScraped v')
                 then (BreakModelLoop, productsForThisBrand', v',
                       console LOG ''Reached MAX_TOTAL_PRODUCTS limit during this car.'' s1)
                 else yearLoop cfg env b m ys (productsForThisBrand', v', s1))))"

text \<open>The loop over the models of one brand (lines 594-635).\<close>

fun modelLoop ::
  "config \<Rightarrow> ('w, 'n) env \<Rightarrow> string \<Rightarrow> (string \<times> string list) list
     \<Rightarrow> 'n CarProduct list \<times> carsState \<times> 'w io
     \<Rightarrow> signal \<times> 'n CarProduct list \<times> carsState \<times> 'w io" where
  "modelLoop cfg env b [] st = (Next, st)"
| "modelLoop cfg env b ((m, yearRanges) # rest) st =
     (case yearLoop cfg env b m yearRanges st of
        (Next, productsForThisBrand, v, s) \<Rightarrow>
          if MAX_TOTAL_PRODUCTS cfg \<le> enat (totalProductsScraped v)
          then (BreakModelLoop, productsForThisBrand, v, s)
          else modelLoop cfg env b rest (productsForThisBrand, v, s)
      | r \<Rightarrow> r)"

text \<open>Saving the batch of one brand (lines 638-688).\<close>

definition saveBatch ::
  "('w, 'n) env \<Rightarrow> 'n CarProduct list \<Rightarrow> carsState \<times> 'w io \<Rightarrow> carsState \<times> 'w io" where
  "saveBatch env productsForThisBrand = (\<lambda>(v, s).
     if productsForThisBrand \<noteq> []
     then
       (let s1 = console LOG ''Converting and saving batch for Brand'' s;
            csvDataBatch = convertBatchToWooCommerceCSV env productsForThisBrand (\<not> isHeaderWritten v)
        in if \<not> isHeaderWritten v
           then (case writeFile env csvDataBatch s1 of
                   (True, s2) \<Rightarrow>
                     (v\<lparr>isHeaderWritten := True\<rparr>,
                      console LOG '' -> Header written and first batch saved.'' s2)
                 | (False, s2) \<Rightarrow>
                     (v, console ERROR ''Error converting or writing batch CSV for brand'' s2))
           else
             (let dataRowsOnlyString = convertBatchToWooCommerceCSV env productsForThisBrand False
              in if trim dataRowsOnlyString \<noteq> []
                 then
                   (let prependNewline =
                          (case statSize s1 of
                             None \<Rightarrow> []
                           | Some size' \<Rightarrow> if size' > 0 then CRLF else [])
                    in case appendFile env (prependNewline @ dataRowsOnlyString) s1 of
                         (True, s2) \<Rightarrow> (v, console LOG '' -> Appended batch.'' s2)
                       | (False, s2) \<Rightarrow>
                           (v, console ERROR ''Error converting or writing batch CSV for brand'' s2))
                 else (v, console LOG '' -> Skipping append as batch data is empty.'' s1)))
     else (v, console LOG '' -> No products found or added for Brand in this run. Skipping save.'' s))"

text \<open>
  The loop over the brands (lines 585-697). The result tells whether the loop ended
  (\<open>True\<close>) or hangs in a call of \<open>scrapeSingleCar\<close> (\<open>False\<close>).
\<close>

fun brandLoop ::
  "config \<Rightarrow> ('w, 'n) env \<Rightarrow> BrandModelsData \<Rightarrow> carsState \<times> 'w io \<Rightarrow> bool \<times> carsState \<times> 'w io" where
  "brandLoop cfg env [] (v, s) = (True, v, s)"
| "brandLoop cfg env ((b, models) # rest) (v, s) =
     (case modelLoop cfg env b models ([], v, console LOG ''Processing Brand'' s) of
        (BreakBrandLoop, productsForThisBrand, v1, s1) \<Rightarrow> (True, v1, s1)
      | (Hangs, productsForThisBrand, v1, s1) \<Rightarrow> (False, v1, s1)
      | (_, productsForThisBrand, v1, s1) \<Rightarrow>
          (let (v2, s2) = saveBatch env productsForThisBrand (v1, s1)
           in if MAX_TOTAL_PRODUCTS cfg \<le> enat (totalProductsScraped v2)
              then (True, v2,
                    console LOG ''Reached MAX_TOTAL_PRODUCTS limit after processing brand. Stopping all scraping.'' s2)
              else brandLoop cfg env rest (v2, s2)))"

text \<open>
  \<open>scrapeAllCars\<close> (lines 565-703). The result tells whether the function returns, with
  the final values of its variables.
\<close>

definition scrapeAllCars ::
  "config \<Rightarrow> ('w, 'n) env \<Rightarrow> 'w io \<Rightarrow> bool \<times> carsState \<times> 'w io" where
  "scrapeAllCars cfg env s =
     (let v0 = \<lparr>isHeaderWritten = False, totalProductsScraped = 0\<rparr>
      in case getBrandModelsData env s of
           (None, s1) \<Rightarrow> (True, v0, console ERROR ''Cannot proceed without brand/model data.'' s1)
         | (Some brandModels', s1) \<Rightarrow>
             (case writeFile env [] s1 of
                (False, s2) \<Rightarrow> (True, v0, console ERROR ''Error initializing output file'' s2)
              | (True, s2) \<Rightarrow>
                  (case brandLoop cfg env brandModels'
                          (v0, console LOG ''Starting scraping process for all cars...''
                                 (console LOG ''Initialized output file'' s2)) of
                     (True, v, s3) \<Rightarrow>
                       (True, v, console LOG ''Output file'' (console LOG ''Scraping finished.'' s3))
                   | (False, v, s3) \<Rightarrow> (False, v, s3))))"


section \<open>\<open>scrapeAllPages\<close> of the two programs of \<open>src/scraper.ts\<close>\<close>

text \<open>\<open>convertToWooCommerceCSV\<close> of the first program (lines 273-330).\<close>

definition convertToWooCommerceCSV :: "('w, 'n) env \<Rightarrow> 'n Product list \<Rightarrow> string" where
  "convertToWooCommerceCSV env products =
     unparse True
       (map (\<lambda>(index, product).
               wooCommerceColumns env
                 (natToString (index + 1))
                 (orElse (sku product) (''MISSING-SKU-'' @ natToString (index + 1)))
                 (orElse (name product) (''Unnamed Product '' @ natToString (index + 1)))
                 (manufacturerCode product) (siteCode product) (isInStock product) (price product)
                 []
                 (orElse (imageUrl product) []))
          (List.enumerate 0 products))"

text \<open>\<open>convertToWooCommerceCSV\<close> of the second program (lines 742-799).\<close>

definition convertToWooCommerceCSV2 :: "('w, 'n) env \<Rightarrow> 'n Product2 list \<Rightarrow> string" where
  "convertToWooCommerceCSV2 env products =
     unparse True
       (map (\<lambda>product.
               wooCommerceColumns env
                 []
                 (orElse (sku product) [])
                 (orElse (name product) [])
                 (manufacturerCode2 product) (siteCode product) (isInStock2 product) (price product)
                 []
                 (joinWith '','' (imageUrls product)))
          products)"

text \<open>
  What follows the \<open>while\<close> loop in both programs (lines 406-432 and 869-895), given the
  CSV text of the products.
\<close>

definition finishPages ::
  "config \<Rightarrow> ('w, 'n) env \<Rightarrow> ('p list \<Rightarrow> string) \<Rightarrow> 'p pagesState \<times> 'w io \<Rightarrow> 'p pagesState \<times> 'w io" where
  "finishPages cfg env convert = (\<lambda>(v, s).
     (let s1 = (if MAX_CATALOG_PAGES cfg \<le> catalogPageCount v
                then console WARN ''Reached maximum catalog page limit. Stopping.'' s else s);
          s2 = console LOG ''Scraping finished.'' s1
      in if allProducts v \<noteq> []
         then (case writeFile env (convert (allProducts v))
                      (console LOG ''Converting data to WooCommerce CSV format...'' s2) of
                 (True, s3) \<Rightarrow> (v, console LOG ''Successfully wrote products'' s3)
               | (False, s3) \<Rightarrow> (v, console ERROR ''Error converting or writing CSV to file'' s3))
         else (v, console LOG ''No products were scraped, skipping CSV file generation.'' s2)))"

text \<open>
  \<open>scrapeAllPages\<close> of the first program (lines 335-433) and of the second (lines
  804-896), with the final values of the local variables.
\<close>

definition scrapeAllPages ::
  "config \<Rightarrow> ('w, 'n) env \<Rightarrow> 'w io \<Rightarrow> 'n Product pagesState \<times> 'w io" where
  "scrapeAllPages cfg env s =
     finishPages cfg env (convertToWooCommerceCSV env)
       (catalogLoop cfg env
          (\<lparr>allProducts = [], currentCatalogPageUrl = Some START_URL, catalogPageCount = 0\<rparr>,
           console LOG ''Starting scraper...'' s))"

definition scrapeAllPages2 ::
  "config \<Rightarrow> ('w, 'n) env \<Rightarrow> 'w io \<Rightarrow> 'n Product2 pagesState \<times> 'w io" where
  "scrapeAllPages2 cfg env s =
     finishPages cfg env (convertToWooCommerceCSV2 env)
       (catalogLoop2 cfg env
          (\<lparr>allProducts = [], currentCatalogPageUrl = Some START_URL, catalogPageCount = 0\<rparr>,
           console LOG ''Starting scraper...'' s))"

section \<open>Example sites\<close>

text \<open>
  A site that answers every request for a URL with the same page and a file system that
  never fails; relative links starting with a slash resolve against \<open>BASE_URL\<close>. The
  examples carry no prices, site codes or characters that \<open>encodeURIComponent\<close> would
  escape. The resolver of the examples does not copy query parameters of the current URL
  into the next URL, as the code does for \<open>cat\<close> and \<open>pp\<close>; the theorems below hold for
  every environment.
\<close>

definition emptyPage :: page where
  "emptyPage = \<lparr>items = [], nextLink = None, tabs2 = [], detailAvailability = None,
     mainImgSrc = None, thumbs = [], brandModels = NoScript\<rparr>"

definition emptyItem :: item_elem where
  "emptyItem = \<lparr>productName = [], detailCode = [], dataOrig = None, productHref = None,
     imgSrc = None, availability = None\<rparr>"

definition staticEnv :: "(string \<Rightarrow> page option) \<Rightarrow> (unit, nat) env" where
  "staticEnv site =
     \<lparr>httpGet = (\<lambda>w url. (site url, w)),
      fsOk = (\<lambda>w. (True, w)),
      parseFloat = (\<lambda>t. None),
      numberToString = natToString,
      newURL = (\<lambda>x. if take 1 x = ''/'' then Some (BASE_URL @ x) else None),
      codeMatch = (\<lambda>t. None),
      nextCatalogUrl = (\<lambda>url l. if take 1 l = ''/'' then Some (BASE_URL @ l) else None),
      nextCarUrl = (\<lambda>url l. if take 1 l = ''/'' then Some (BASE_URL @ l) else None),
      encodeURIComponent = (\<lambda>t. t)\<rparr>"

definition io0 :: "unit io" where
  "io0 = \<lparr>world = (), trace = [], outputFile = None\<rparr>"

text \<open>
  A catalog whose only page shows two items: one with a name and nothing else, one with
  nothing at all.
\<close>

definition twoItemSite :: "string \<Rightarrow> page option" where
  "twoItemSite url =
     (if url = START_URL
      then Some (emptyPage\<lparr>items := [emptyItem\<lparr>productName := ''Oil filter''\<rparr>, emptyItem]\<rparr>)
      else None)"

text \<open>
  A catalog with one product, and what a request for the product page gives: no answer,
  or a page. \<open>picturePage\<close> shows a main picture and three thumbnails, of which one
  repeats the main picture and one is the placeholder.
\<close>

definition productSite :: "page option \<Rightarrow> string \<Rightarrow> page option" where
  "productSite productPage url =
     (if url = START_URL
      then Some (emptyPage\<lparr>items := [emptyItem\<lparr>productName := ''Oil filter'',
                                                productHref := Some ''/prece/123''\<rparr>]\<rparr>)
      else if url = BASE_URL @ ''/prece/123'' then productPage
      else None)"

definition picturePage :: page where
  "picturePage = emptyPage\<lparr>tabs2 := ''OC 47'', mainImgSrc := Some ''/images/__200/a.jpg'',
     thumbs := [(Some ''/images/'', Some ''a.jpg''), (Some ''/images/'', Some ''b.jpg''),
                (Some ''/img/'', Some ''default-image.png'')]\<rparr>"

text \<open>What the catalog page of \<open>productSite\<close> yields for its product.\<close>

definition oilFilterInfo :: "nat BaseInfo" where
  "oilFilterInfo = \<lparr>sku = Some ''123'', siteCode = None, name = Some ''Oil filter'', price = None,
     productPageUrl = Some (BASE_URL @ ''/prece/123'')\<rparr>"

section \<open>The real images of a product page\<close>

text \<open>
  Following the specification: a real image of a product page is the main picture or a
  thumbnail whose absolute URL can be built and does not contain the file name of the
  placeholder. \<open>realImageUrls\<close> lists them in page order, with repetitions.
\<close>

definition realThumbUrl :: "('w, 'n) env \<Rightarrow> string option \<times> string option \<Rightarrow> string list" where
  "realThumbUrl env = (\<lambda>(p, f).
     if truthy p \<and> truthy f
     then (case newURL env (orElse p [] @ orElse f []) of
             None \<Rightarrow> []
           | Some u \<Rightarrow> if includesStr u ''default-image.png'' then [] else [u])
     else [])"

definition realMainUrl :: "('w, 'n) env \<Rightarrow> string option \<Rightarrow> string list" where
  "realMainUrl env src =
     (if truthy src
      then (case newURL env (orElse src []) of
              None \<Rightarrow> []
            | Some u \<Rightarrow> if includesStr (removeSize u) ''default-image.png'' then [] else [removeSize u])
      else [])"

definition realImageUrls :: "('w, 'n) env \<Rightarrow> page \<Rightarrow> string list" where
  "realImageUrls env pg = realMainUrl env (mainImgSrc pg) @ concat (map (realThumbUrl env) (thumbs pg))"

text \<open>
  A catalog of two pages without products, the first linking to the second, under the
  start URL of the first program and under the URL of the car \<open>AD\<close>, \<open>A4\<close>, \<open>2000\<close>.
\<close>

definition emptyCatalogSite :: "string \<Rightarrow> page option" where
  "emptyCatalogSite url =
     (if url = START_URL then Some (emptyPage\<lparr>nextLink := Some ''/katalogs/?page=2''\<rparr>)
      else if url = BASE_URL @ ''/katalogs/?page=2'' then Some emptyPage
      else if url = BASE_URL @ ''/katalogs/?brand=AD&model=A4&year=2000''
      then Some (emptyPage\<lparr>nextLink := Some ''/katalogs/?brand=AD&model=A4&year=2000&page=2''\<rparr>)
      else if url = BASE_URL @ ''/katalogs/?brand=AD&model=A4&year=2000&page=2'' then Some emptyPage
      else None)"

section \<open>Example sites with several pages\<close>

text \<open>
  A page showing one product without a link, price or code, and a next-page link.
\<close>

definition oneItemPage :: "string option \<Rightarrow> page" where
  "oneItemPage link = emptyPage\<lparr>items := [emptyItem\<lparr>productName := ''Oil filter''\<rparr>], nextLink := link\<rparr>"

text \<open>
  Three catalog pages of the single-catalog program: the start page leads to page 2, page 2 to
  page 3 and page 3 back to page 2.
\<close>

definition threePageSite :: "string \<Rightarrow> page option" where
  "threePageSite url =
     (if url = START_URL then Some (oneItemPage (Some ''/katalogs/?page=2''))
      else if url = BASE_URL @ ''/katalogs/?page=2'' then Some (oneItemPage (Some ''/katalogs/?page=3''))
      else if url = BASE_URL @ ''/katalogs/?page=3'' then Some (oneItemPage (Some ''/katalogs/?page=2''))
      else None)"

text \<open>A catalog page whose next-page link resolves to the page itself.\<close>

definition selfLinkSite :: "string \<Rightarrow> page option" where
  "selfLinkSite url =
     (if url = BASE_URL @ ''/katalogs/?page=2'' then Some (oneItemPage (Some ''/katalogs/?page=2''))
      else None)"

text \<open>
  Two pages of one car's catalog that link to each other: the first page (the URL
  \<open>scrapeSingleCar\<close> builds for brand AD, model A4, year 2000) and its page 2.
\<close>

definition cycleSite :: "string \<Rightarrow> page option" where
  "cycleSite url =
     (if url = BASE_URL @ ''/katalogs/?brand=AD&model=A4&year=2000''
      then Some (oneItemPage (Some ''/katalogs/?brand=AD&model=A4&year=2000&page=2''))
      else if url = BASE_URL @ ''/katalogs/?brand=AD&model=A4&year=2000&page=2''
      then Some (oneItemPage (Some ''/katalogs/?brand=AD&model=A4&year=2000''))
      else None)"

text \<open>
  A server that counts the requests it has answered (the world is that count): the first
  1000 answers carry a next-page link, the 1001st does not.
\<close>

definition countingEnv :: "(nat, nat) env" where
  "countingEnv =
     \<lparr>httpGet = (\<lambda>w url.
         (Some (oneItemPage (if w < 1000 then Some ''/katalogs/?brand=AD&model=A4&year=2000&page=next''
                             else None)), Suc w)),
      fsOk = (\<lambda>w. (True, w)),
      parseFloat = (\<lambda>t. None),
      numberToString = natToString,
      newURL = (\<lambda>x. if take 1 x = ''/'' then Some (BASE_URL @ x) else None),
      codeMatch = (\<lambda>t. None),
      nextCatalogUrl = (\<lambda>url l. if take 1 l = ''/'' then Some (BASE_URL @ l) else None),
      nextCarUrl = (\<lambda>url l. if take 1 l = ''/'' then Some (BASE_URL @ l) else None),
      encodeURIComponent = (\<lambda>t. t)\<rparr>"

section \<open>What a function leaves alone\<close>

text \<open>
  The events that concern the output file, and the warning of \<open>scrapeAllPages\<close> about the
  page limit. \<open>quiet s s'\<close> holds when \<open>s'\<close> continues the trace of \<open>s\<close> with console lines
  and requests only, none of them that warning, and has the same output file.
\<close>

definition isFsEvent :: "event \<Rightarrow> bool" where
  "isFsEvent e = (case e of WriteFile d ok \<Rightarrow> True | AppendFile d ok \<Rightarrow> True | _ \<Rightarrow> False)"

definition fsEvents :: "event list \<Rightarrow> event list" where
  "fsEvents tr = filter isFsEvent tr"

definition pageLimitWarning :: event where
  "pageLimitWarning = Console WARN ''Reached maximum catalog page limit. Stopping.''"

definition quiet :: "'w io \<Rightarrow> 'w io \<Rightarrow> bool" where
  "quiet s s' = (outputFile s' = outputFile s
     \<and> take (length (trace s)) (trace s') = trace s
     \<and> fsEvents (drop (length (trace s)) (trace s')) = []
     \<and> pageLimitWarning \<notin> set (drop (length (trace s)) (trace s')))"

section \<open>Reading the output file\<close>

text \<open>
  The records of a CSV text as a reader of the file sees them: the text is cut at every
  line break (CR LF) that stands outside a quoted field, a quote switching between inside
  and outside. The data records are the records other than the header row and the empty
  record. \<open>rowsWritten\<close> counts the data records that the successful writes and appends of
  a trace carry.
\<close>

fun splitRecords :: "bool \<Rightarrow> string \<Rightarrow> string \<Rightarrow> string list" where
  "splitRecords q cur [] = [cur]"
| "splitRecords q cur (c # cs) =
     (if c = CHR 0x22 then splitRecords (\<not> q) (cur @ [c]) cs
      else if \<not> q \<and> c = CHR 0x0D \<and> take 1 cs = [CHR 0x0A]
           then cur # splitRecords False [] (drop 1 cs)
      else splitRecords q (cur @ [c]) cs)"

definition csvRecords :: "string \<Rightarrow> string list" where
  "csvRecords text = (if text = [] then [] else splitRecords False [] text)"

definition dataRecords :: "string \<Rightarrow> string list" where
  "dataRecords text = filter (\<lambda>r. r \<noteq> [] \<and> r \<noteq> csvRow headerFields) (csvRecords text)"

definition rowsOfEvent :: "event \<Rightarrow> nat" where
  "rowsOfEvent e =
     (case e of
        WriteFile d ok \<Rightarrow> if ok then length (dataRecords d) else 0
      | AppendFile d ok \<Rightarrow> if ok then length (dataRecords d) else 0
      | _ \<Rightarrow> 0)"

definition rowsWritten :: "event list \<Rightarrow> nat" where
  "rowsWritten tr = sum_list (map rowsOfEvent tr)"

text \<open>
  The rows \<open>convertBatchToWooCommerceCSV\<close> builds for a batch; a data row has at least two
  columns, the first one (\<open>ID\<close>) empty.
\<close>

definition batchRows :: "('w, 'n) env \<Rightarrow> 'n CarProduct list \<Rightarrow> string list list" where
  "batchRows env ps = map (\<lambda>(index, product). wooCommerceRow env product index) (List.enumerate 0 ps)"

definition isDataRow :: "string list \<Rightarrow> bool" where
  "isDataRow r = (take 1 r = [[]] \<and> 1 < length r)"

text \<open>
  How often the header row occurs among the records of a text; a text with header starts
  with the header row and has it once, a text of rows only does not have it.
\<close>

definition headerCount :: "string \<Rightarrow> nat" where
  "headerCount d = count_list (csvRecords d) (csvRow headerFields)"

definition withHeader :: "string \<Rightarrow> bool" where
  "withHeader d = (take 1 (csvRecords d) = [csvRow headerFields] \<and> headerCount d = 1)"

definition rowsOnly :: "string \<Rightarrow> bool" where
  "rowsOnly d = (headerCount d = 0)"

text \<open>
  The discipline of the operations on the output file that follow its initialisation,
  \<open>h\<close> telling whether a batch has been written with success before: as long as none
  has, a batch is written with \<open>fs.writeFile\<close> and its data are a text with header;
  afterwards a batch is appended with \<open>fs.appendFile\<close> and its data are rows only.
  \<open>headerAfter\<close> tells whether a write has succeeded at the end of the events, and
  \<open>writeOk\<close> that an event is not a failed operation on the file.
\<close>

fun batchWrites :: "bool \<Rightarrow> event list \<Rightarrow> bool" where
  "batchWrites h [] = True"
| "batchWrites h (WriteFile d ok # es) = (\<not> h \<and> withHeader d \<and> batchWrites ok es)"
| "batchWrites h (AppendFile d ok # es) = (h \<and> rowsOnly d \<and> batchWrites h es)"
| "batchWrites h (e # es) = batchWrites h es"

fun headerAfter :: "bool \<Rightarrow> event list \<Rightarrow> bool" where
  "headerAfter h [] = h"
| "headerAfter h (WriteFile d ok # es) = headerAfter (h \<or> ok) es"
| "headerAfter h (e # es) = headerAfter h es"

definition writeOk :: "event \<Rightarrow> bool" where
  "writeOk e = (case e of WriteFile d ok \<Rightarrow> ok | AppendFile d ok \<Rightarrow> ok | _ \<Rightarrow> True)"

text \<open>
  The output file between two batches: empty before the first successful write, the header
  row followed by data rows afterwards.
\<close>

abbreviation fileInv :: "carsState \<Rightarrow> 'w io \<Rightarrow> bool" where
  "fileInv v s \<equiv>
     (if isHeaderWritten v
      then \<exists>rows. rows \<noteq> [] \<and> list_all isDataRow rows
             \<and> outputFile s = Some (joinWith CRLF (csvRow headerFields # map csvRow rows))
      else outputFile s = Some [])"

section \<open>Example sites for the grouped program\<close>

text \<open>
  A site whose data source page lists the given brands, models and years and whose every
  other page shows four products without link, price or code and no next-page link; the
  products \<open>scrapeSingleCar\<close> makes of such a page and the events of that call. The
  global budget of \<open>budget5\<close> is five products. \<open>scenarioFile\<close> is the output expected
  of a run over two brands with one car each under that budget. \<open>deadSite\<close> answers no
  request, and \<open>previousRun\<close> is a state in which the output file exists.
\<close>

definition fourItemPage :: page where
  "fourItemPage = emptyPage\<lparr>items :=
     [emptyItem\<lparr>productName := ''Oil filter''\<rparr>, emptyItem\<lparr>productName := ''Air filter''\<rparr>,
      emptyItem\<lparr>productName := ''Brake pad''\<rparr>, emptyItem\<lparr>productName := ''Spark plug''\<rparr>]\<rparr>"

definition carSite :: "BrandModelsData \<Rightarrow> string \<Rightarrow> page option" where
  "carSite tree url =
     (if url = DATA_SOURCE_URL then Some (emptyPage\<lparr>brandModels := Script tree\<rparr>)
      else Some fourItemPage)"

definition budget5 :: config where
  "budget5 = sourceConfig\<lparr>MAX_TOTAL_PRODUCTS := 5\<rparr>"

definition twoBrands :: BrandModelsData where
  "twoBrands = [(''AD'', [(''A4'', [''2000''])]), (''VW'', [(''Golf'', [''2001''])])]"

definition fourProducts :: "string \<Rightarrow> string \<Rightarrow> string \<Rightarrow> nat CarProduct list" where
  "fourProducts b m y =
     map (\<lambda>(n, k). \<lparr>sku = Some k, siteCode = None, name = Some n, price = None,
                     productPageUrl = None, imageUrl = Some DEFAULT_IMAGE_URL, isInStock = False,
                     manufacturerCode = None, brandCode = Some b, modelName = Some m,
                     yearRange = Some y\<rparr>)
       [(''Oil filter'', ''Oil-filter''), (''Air filter'', ''Air-filter''),
        (''Brake pad'', ''Brake-pad''), (''Spark plug'', ''Spark-plug'')]"

definition leafEvents :: "string \<Rightarrow> event list" where
  "leafEvents u =
     [Console LOG ''--- Scraping Car'', Console LOG '' -> Fetching catalog page'', HttpGet u,
      Console LOG ''  -> Found products on page. Fetching details...'',
      Console LOG ''    Processing'', Console WARN ''    -> Skipping detail fetch - missing URL.'',
      Console LOG ''    Processing'', Console WARN ''    -> Skipping detail fetch - missing URL.'',
      Console LOG ''    Processing'', Console WARN ''    -> Skipping detail fetch - missing URL.'',
      Console LOG ''    Processing'', Console WARN ''    -> Skipping detail fetch - missing URL.'',
      Console LOG ''--- Finished Car'']"

definition scenarioFile :: string where
  "scenarioFile =
     convertBatchToWooCommerceCSV (staticEnv (carSite twoBrands)) (fourProducts ''AD'' ''A4'' ''2000'') True
     @ CRLF
     @ convertBatchToWooCommerceCSV (staticEnv (carSite twoBrands))
         (take 1 (fourProducts ''VW'' ''Golf'' ''2001'')) False"



chapter \<open>Properties\<close>

section \<open>The items a catalog page of the second program yields\<close>

lemma candidate2_fst: "fst (candidate2 env el s) = fst (candidate2 env el s')"
  by (simp add: candidate2_def Let_def split: option.splits prod.splits)

lemma pushCandidate2_fst:
  "fst (pushCandidate2 c (acc, s)) =
     acc @ (if truthy (name c) \<or> truthy (siteCode c) \<or> truthy (sku c) \<or> price c \<noteq> None
               \<or> truthy (productPageUrl c)
            then [\<lparr>sku = optOrNull (sku c), siteCode = optOrNull (siteCode c),
                   name = optOrNull (name c), price = price c,
                   productPageUrl = optOrNull (productPageUrl c)\<rparr>] else [])"
  by (simp add: pushCandidate2_def Let_def)

lemma catalogItems2_fst:
  "fst (catalogItems2 env els (acc, s)) =
     acc @ map (\<lambda>c. \<lparr>sku = optOrNull (sku c), siteCode = optOrNull (siteCode c),
                      name = optOrNull (name c), price = price c,
                      productPageUrl = optOrNull (productPageUrl c)\<rparr>)
             (filter (\<lambda>c. truthy (name c) \<or> truthy (siteCode c) \<or> truthy (sku c)
                           \<or> price c \<noteq> None \<or> truthy (productPageUrl c))
                (map (\<lambda>el. fst (candidate2 env el s)) els))"
proof (induction els arbitrary: acc s)
  case Nil
  then show ?case by simp
next
  case (Cons el els)
  obtain c s1 where c: "candidate2 env el s = (c, s1)" by (cases "candidate2 env el s")
  obtain acc' s2 where p: "pushCandidate2 c (acc, s1) = (acc', s2)"
    by (cases "pushCandidate2 c (acc, s1)")
  have acc': "acc' = fst (pushCandidate2 c (acc, s1))" using p by simp
  have same: "(\<lambda>el. fst (candidate2 env el s2)) = (\<lambda>el. fst (candidate2 env el s))"
    by (rule ext) (rule candidate2_fst)
  have "catalogItems2 env (el # els) (acc, s) = catalogItems2 env els (acc', s2)"
    by (simp add: catalogItem2_def c p)
  then show ?case
    using Cons.IH [of acc' s2] c
    by (simp add: same acc' pushCandidate2_fst)
qed

lemma scrapeCatalogPage2_fst:
  assumes "httpGet env (world s) url = (Some pg, w)"
  shows "fst (fst (scrapeCatalogPage2 env url s)) =
     map (\<lambda>c. \<lparr>sku = optOrNull (sku c), siteCode = optOrNull (siteCode c),
                      name = optOrNull (name c), price = price c,
                      productPageUrl = optOrNull (productPageUrl c)\<rparr>)
             (filter (\<lambda>c. truthy (name c) \<or> truthy (siteCode c) \<or> truthy (sku c)
                           \<or> price c \<noteq> None \<or> truthy (productPageUrl c))
                (map (\<lambda>el. fst (candidate2 env el s)) (items pg)))"
proof -
  let ?s1 = "(console LOG ''Fetching catalog page'' s)\<lparr>world := w,
      trace := trace (console LOG ''Fetching catalog page'' s) @ [HttpGet url]\<rparr>"
  have same: "(\<lambda>el. fst (candidate2 env el ?s1)) = (\<lambda>el. fst (candidate2 env el s))"
    by (rule ext) (rule candidate2_fst)
  have "fst (fst (scrapeCatalogPage2 env url s)) = fst (catalogItems2 env (items pg) ([], ?s1))"
    using assms
    by (simp add: scrapeCatalogPage2_def axiosGet_def console_def Let_def split: prod.splits)
  then show ?thesis
    by (simp add: catalogItems2_fst same)
qed

text \<open>
  C9. In the second program a field of an item counts as absent when the test of
  line 693 finds it so: a string that is \<open>null\<close> or empty, a price that is \<open>null\<close>.
  The callback leaves an item out exactly when its name, site code, SKU, price and
  product page URL are all absent. Every other item is appended with each absent
  field \<open>null\<close> and each present field unchanged, and a warning is written exactly when
  some field is absent. Hence the products a fetched catalog page yields are, in page
  order, the items with at least one of the five fields present.
\<close>

theorem listing_item_omitted_iff_all_absent:
  "((fst (pushCandidate2 c (acc, s)) = acc) =
      (\<not> truthy (name c) \<and> \<not> truthy (siteCode c) \<and> \<not> truthy (sku c) \<and> price c = None
        \<and> \<not> truthy (productPageUrl c)))
   \<and> (truthy (name c) \<or> truthy (siteCode c) \<or> truthy (sku c) \<or> price c \<noteq> None
        \<or> truthy (productPageUrl c) \<longrightarrow>
       fst (pushCandidate2 c (acc, s)) =
         acc @ [\<lparr>sku = (if truthy (sku c) then sku c else None),
                  siteCode = (if truthy (siteCode c) then siteCode c else None),
                  name = (if truthy (name c) then name c else None),
                  price = price c,
                  productPageUrl = (if truthy (productPageUrl c) then productPageUrl c else None)\<rparr>]
       \<and> snd (pushCandidate2 c (acc, s)) =
           (if truthy (name c) \<and> truthy (siteCode c) \<and> truthy (sku c) \<and> price c \<noteq> None
                \<and> truthy (productPageUrl c)
            then s
            else console WARN ''Product has missing base data but will still be included'' s))
   \<and> (httpGet env (world s) url = (Some pg, w) \<longrightarrow>
       fst (fst (scrapeCatalogPage2 env url s)) =
         map (\<lambda>c. \<lparr>sku = (if truthy (sku c) then sku c else None),
                     siteCode = (if truthy (siteCode c) then siteCode c else None),
                     name = (if truthy (name c) then name c else None),
                     price = price c,
                     productPageUrl = (if truthy (productPageUrl c) then productPageUrl c else None)\<rparr>)
           (filter (\<lambda>c. truthy (name c) \<or> truthy (siteCode c) \<or> truthy (sku c)
                         \<or> price c \<noteq> None \<or> truthy (productPageUrl c))
              (map (\<lambda>el. fst (candidate2 env el s)) (items pg))))"
proof (intro conjI impI)
  show "(fst (pushCandidate2 c (acc, s)) = acc) =
      (\<not> truthy (name c) \<and> \<not> truthy (siteCode c) \<and> \<not> truthy (sku c) \<and> price c = None
        \<and> \<not> truthy (productPageUrl c))"
    by (simp add: pushCandidate2_fst)
next
  assume "truthy (name c) \<or> truthy (siteCode c) \<or> truthy (sku c) \<or> price c \<noteq> None
        \<or> truthy (productPageUrl c)"
  then show "fst (pushCandidate2 c (acc, s)) =
         acc @ [\<lparr>sku = (if truthy (sku c) then sku c else None),
                  siteCode = (if truthy (siteCode c) then siteCode c else None),
                  name = (if truthy (name c) then name c else None),
                  price = price c,
                  productPageUrl = (if truthy (productPageUrl c) then productPageUrl c else None)\<rparr>]"
    by (simp add: pushCandidate2_fst optOrNull_def)
next
  assume "truthy (name c) \<or> truthy (siteCode c) \<or> truthy (sku c) \<or> price c \<noteq> None
        \<or> truthy (productPageUrl c)"
  then show "snd (pushCandidate2 c (acc, s)) =
           (if truthy (name c) \<and> truthy (siteCode c) \<and> truthy (sku c) \<and> price c \<noteq> None
                \<and> truthy (productPageUrl c)
            then s
            else console WARN ''Product has missing base data but will still be included'' s)"
    by (simp add: pushCandidate2_def Let_def)
next
  assume "httpGet env (world s) url = (Some pg, w)"
  then show "fst (fst (scrapeCatalogPage2 env url s)) =
         map (\<lambda>c. \<lparr>sku = (if truthy (sku c) then sku c else None),
                     siteCode = (if truthy (siteCode c) then siteCode c else None),
                     name = (if truthy (name c) then name c else None),
                     price = price c,
                     productPageUrl = (if truthy (productPageUrl c) then productPageUrl c else None)\<rparr>)
           (filter (\<lambda>c. truthy (name c) \<or> truthy (siteCode c) \<or> truthy (sku c)
                         \<or> price c \<noteq> None \<or> truthy (productPageUrl c))
              (map (\<lambda>el. fst (candidate2 env el s)) (items pg)))"
    by (simp add: scrapeCatalogPage2_fst optOrNull_def)
qed

theorem listing_item_omitted_iff_all_absent_witness:
  "truthy (name \<lparr>sku = None, siteCode = None, name = Some ''Oil filter'', price = None :: nat option,
             productPageUrl = None\<rparr>)
   \<and> pushCandidate2 \<lparr>sku = None, siteCode = None, name = Some ''Oil filter'', price = None :: nat option,
             productPageUrl = None\<rparr> ([], io0)
       = ([\<lparr>sku = None, siteCode = None, name = Some ''Oil filter'', price = None,
             productPageUrl = None\<rparr>],
          console WARN ''Product has missing base data but will still be included'' io0)
   \<and> httpGet (staticEnv twoItemSite) (world io0) START_URL
       = (Some (emptyPage\<lparr>items := [emptyItem\<lparr>productName := ''Oil filter''\<rparr>, emptyItem]\<rparr>), ())
   \<and> fst (fst (scrapeCatalogPage2 (staticEnv twoItemSite) START_URL io0))
       = [\<lparr>sku = None, siteCode = None, name = Some ''Oil filter'', price = None,
            productPageUrl = None\<rparr>]"
  using listing_item_omitted_iff_all_absent
    [of "\<lparr>sku = None, siteCode = None, name = Some ''Oil filter'', price = None :: nat option,
             productPageUrl = None\<rparr>" "[]" io0 "staticEnv twoItemSite" START_URL
        "emptyPage\<lparr>items := [emptyItem\<lparr>productName := ''Oil filter''\<rparr>, emptyItem]\<rparr>" "()"]
  by (simp add: staticEnv_def twoItemSite_def io0_def emptyPage_def emptyItem_def candidate2_def
        siteCodeOf_def priceOf_def orNull_def trim_def isWhiteSpace_def prod_eq_iff)

section \<open>An empty batch\<close>

text \<open>
  C8. Saving an empty batch writes one line to the console and nothing else: the
  variables of \<open>scrapeAllCars\<close>, the world and the output file are as before, no write
  to the file is requested, and saving an empty batch again changes nothing either.
\<close>

theorem empty_batch_is_noop:
  "saveBatch env [] (v, s) =
     (v, console LOG '' -> No products found or added for Brand in this run. Skipping save.'' s)
   \<and> fst (saveBatch env [] (v, s)) = v
   \<and> outputFile (snd (saveBatch env [] (v, s))) = outputFile s
   \<and> world (snd (saveBatch env [] (v, s))) = world s
   \<and> filter (\<lambda>e. \<exists>d ok. e = WriteFile d ok \<or> e = AppendFile d ok)
         (trace (snd (saveBatch env [] (v, s))))
       = filter (\<lambda>e. \<exists>d ok. e = WriteFile d ok \<or> e = AppendFile d ok) (trace s)
   \<and> outputFile (snd (saveBatch env [] (saveBatch env [] (v, s)))) = outputFile s"
  by (simp add: saveBatch_def console_def)

theorem empty_batch_is_noop_witness:
  "outputFile (snd (saveBatch (staticEnv twoItemSite) []
      (\<lparr>isHeaderWritten = True, totalProductsScraped = 3\<rparr>, io0\<lparr>outputFile := Some ''abc''\<rparr>)))
   = Some ''abc''"
  using empty_batch_is_noop
          [of "staticEnv twoItemSite" "\<lparr>isHeaderWritten = True, totalProductsScraped = 3\<rparr>"
              "io0\<lparr>outputFile := Some ''abc''\<rparr>"]
  by (simp add: io0_def console_def)

section \<open>An item without a product page URL\<close>

text \<open>
  C1. The catalog of \<open>twoItemSite\<close> shows an item that has a name and no link to a
  product page. The catalog page of the second program yields it, but the loop over the
  products of the page leaves it out: no product is collected and no file is written.
  The first program, on the same catalog, keeps the item (and the empty one) with the
  manufacturer code \<open>null\<close>.
\<close>

theorem second_program_drops_item_without_url:
  "fst (fst (scrapeCatalogPage2 (staticEnv twoItemSite) START_URL io0))
     = [\<lparr>sku = None, siteCode = None, name = Some ''Oil filter'', price = None,
          productPageUrl = None\<rparr>]
   \<and> allProducts (fst (scrapeAllPages2 sourceConfig (staticEnv twoItemSite) io0)) = []
   \<and> outputFile (snd (scrapeAllPages2 sourceConfig (staticEnv twoItemSite) io0)) = None
   \<and> map (\<lambda>p. (name p, productPageUrl p, manufacturerCode p))
         (allProducts (fst (scrapeAllPages sourceConfig (staticEnv twoItemSite) io0)))
       = [(Some ''Oil filter'', None, None), (None, None, None)]"
  by code_simp

section \<open>The images of a merged product\<close>

lemma mainImage_fst:
  "fst (mainImage env src s) =
     ((case realMainUrl env src of [] \<Rightarrow> None | u # _ \<Rightarrow> Some u), realMainUrl env src)"
  supply TrueI [simproc del: list_to_set_comprehension]
  by (simp add: mainImage_def realMainUrl_def Let_def split: option.splits)

lemma thumbImage_fst:
  "fst (thumbImage env m t (urls, s)) =
     urls @ filter (\<lambda>u. Some u \<noteq> m \<and> u \<notin> set urls) (realThumbUrl env t)"
  supply TrueI [simproc del: list_to_set_comprehension]
  by (cases t) (simp add: thumbImage_def realThumbUrl_def split: option.splits)

lemma thumbImages_fst:
  assumes "set_option m \<subseteq> set urls"
  shows "set (fst (thumbImages env m ts (urls, s))) = set urls \<union> set (concat (map (realThumbUrl env) ts))
         \<and> (distinct urls \<longrightarrow> distinct (fst (thumbImages env m ts (urls, s))))"
  using assms
proof (induction ts arbitrary: urls s)
  case Nil
  then show ?case by simp
next
  case (Cons t ts)
  obtain urls' s' where st: "thumbImage env m t (urls, s) = (urls', s')"
    by (cases "thumbImage env m t (urls, s)")
  have urls': "urls' = urls @ filter (\<lambda>u. Some u \<noteq> m \<and> u \<notin> set urls) (realThumbUrl env t)"
    using thumbImage_fst [of env m t urls s] st by simp
  have one: "length (realThumbUrl env t) \<le> 1"
    by (cases t) (simp add: realThumbUrl_def split: option.splits)
  have set': "set urls' = set urls \<union> set (realThumbUrl env t)"
    using Cons.prems by (auto simp: urls')
  have dist': "distinct urls \<Longrightarrow> distinct urls'"
    using one by (cases "realThumbUrl env t") (auto simp: urls')
  have m': "set_option m \<subseteq> set urls'"
    using Cons.prems set' by auto
  show ?case
    using Cons.IH [of urls' s', OF m'] set' dist'
    by (auto simp: st)
qed

lemma placeholder_includes: "includesStr DEFAULT_IMAGE_URL ''default-image.png''"
  by code_simp

lemma realImageUrls_no_placeholder:
  "u \<in> set (realImageUrls env pg) \<Longrightarrow> \<not> includesStr u ''default-image.png''"
  supply TrueI [simproc del: list_to_set_comprehension]
  by (auto simp: realImageUrls_def realMainUrl_def realThumbUrl_def
      split: option.splits if_splits prod.splits)

lemma pageImages_fst:
  "distinct (fst (pageImages env pg s))"
  "realImageUrls env pg \<noteq> [] \<Longrightarrow> set (fst (pageImages env pg s)) = set (realImageUrls env pg)"
  "realImageUrls env pg = [] \<Longrightarrow> fst (pageImages env pg s) = [DEFAULT_IMAGE_URL]"
proof -
  obtain m urls0 s1 where mi: "mainImage env (mainImgSrc pg) s = ((m, urls0), s1)"
    by (cases "mainImage env (mainImgSrc pg) s") auto
  have m: "m = (case realMainUrl env (mainImgSrc pg) of [] \<Rightarrow> None | u # _ \<Rightarrow> Some u)"
    and u0: "urls0 = realMainUrl env (mainImgSrc pg)"
    using mainImage_fst [of env "mainImgSrc pg" s] mi by simp_all
  have d0: "distinct urls0"
    by (simp add: u0 realMainUrl_def split: option.splits)
  have mem: "set_option m \<subseteq> set urls0"
    by (auto simp: m u0 split: list.splits)
  obtain urls1 s2 where ti: "thumbImages env m (thumbs pg) (urls0, s1) = (urls1, s2)"
    by (cases "thumbImages env m (thumbs pg) (urls0, s1)")
  have set1: "set urls1 = set (realImageUrls env pg)" and d1: "distinct urls1"
    using thumbImages_fst [of m urls0 env "thumbs pg" s1, OF mem] ti d0
    by (simp_all add: realImageUrls_def u0)
  have pi: "fst (pageImages env pg s) = (if urls1 = [] then [DEFAULT_IMAGE_URL] else urls1)"
    by (simp add: pageImages_def mi ti)
  have e: "(urls1 = []) = (realImageUrls env pg = [])"
    using set1 by (metis set_empty)
  show "distinct (fst (pageImages env pg s))"
    using pi d1 by simp
  show "realImageUrls env pg \<noteq> [] \<Longrightarrow> set (fst (pageImages env pg s)) = set (realImageUrls env pg)"
    using pi e set1 by simp
  show "realImageUrls env pg = [] \<Longrightarrow> fst (pageImages env pg s) = [DEFAULT_IMAGE_URL]"
    using pi e by simp
qed

lemma scrapeProductDetails2_images:
  "url = [] \<or> fst (httpGet env (world s) url) = None \<Longrightarrow>
     snd (snd (fst (scrapeProductDetails2 env url s))) = []"
  "url \<noteq> [] \<Longrightarrow> fst (httpGet env (world s) url) = Some pg \<Longrightarrow>
     \<exists>s'. snd (snd (fst (scrapeProductDetails2 env url s))) = fst (pageImages env pg s')"
proof -
  show "url = [] \<or> fst (httpGet env (world s) url) = None \<Longrightarrow>
     snd (snd (fst (scrapeProductDetails2 env url s))) = []"
    by (auto simp: scrapeProductDetails2_def axiosGet_def console_def Let_def
          split: prod.splits option.splits)
next
  assume u: "url \<noteq> []" and g: "fst (httpGet env (world s) url) = Some pg"
  obtain w where w: "httpGet env (world s) url = (Some pg, w)"
    using g by (cases "httpGet env (world s) url") simp
  let ?s1 = "(console LOG '' -> Fetching details from'' s)
               \<lparr>world := w, trace := trace (console LOG '' -> Fetching details from'' s) @ [HttpGet url]\<rparr>"
  let ?s2 = "if detailAvailability pg = None
             then console WARN '' -> Availability info div not found'' ?s1 else ?s1"
  have "snd (snd (fst (scrapeProductDetails2 env url s))) = fst (pageImages env pg ?s2)"
    using u w
    by (simp add: scrapeProductDetails2_def axiosGet_def console_def Let_def split: prod.splits)
  then show "\<exists>s'. snd (snd (fst (scrapeProductDetails2 env url s))) = fst (pageImages env pg s')"
    by (rule exI)
qed

lemma finishPages_fst [simp]: "fst (finishPages cfg env conv (v, s)) = v"
  by (simp add: finishPages_def Let_def split: prod.splits bool.splits)

lemma scrapeProductDetails2_imagesOk:
  "distinct (snd (snd (fst (scrapeProductDetails2 env url s))))
   \<and> (snd (snd (fst (scrapeProductDetails2 env url s))) = []
      \<or> snd (snd (fst (scrapeProductDetails2 env url s))) = [DEFAULT_IMAGE_URL]
      \<or> (\<exists>pg. realImageUrls env pg \<noteq> []
            \<and> set (snd (snd (fst (scrapeProductDetails2 env url s)))) = set (realImageUrls env pg)
            \<and> DEFAULT_IMAGE_URL \<notin> set (snd (snd (fst (scrapeProductDetails2 env url s))))))"
proof (cases "url = [] \<or> fst (httpGet env (world s) url) = None")
  case True
  then show ?thesis by (simp add: scrapeProductDetails2_images(1))
next
  case False
  then obtain pg where ok: "url \<noteq> []" "fst (httpGet env (world s) url) = Some pg" by auto
  then obtain s' where
    s': "snd (snd (fst (scrapeProductDetails2 env url s))) = fst (pageImages env pg s')"
    using scrapeProductDetails2_images(2) by blast
  show ?thesis
  proof (cases "realImageUrls env pg = []")
    case True
    then show ?thesis by (simp add: s' pageImages_fst(3))
  next
    case F: False
    have "DEFAULT_IMAGE_URL \<notin> set (realImageUrls env pg)"
      using realImageUrls_no_placeholder placeholder_includes by blast
    then have "realImageUrls env pg \<noteq> []
        \<and> set (fst (pageImages env pg s')) = set (realImageUrls env pg)
        \<and> DEFAULT_IMAGE_URL \<notin> set (fst (pageImages env pg s'))"
      using F by (simp add: pageImages_fst(2))
    then show ?thesis unfolding s' using pageImages_fst(1) [of env pg s'] by blast
  qed
qed

lemma mergeDetails2_single:
  "truthy (productPageUrl b) \<Longrightarrow>
   fst (mergeDetails2 env [b] (acc, s)) =
     acc @ [\<lparr>sku = sku b, siteCode = siteCode b, name = name b, price = price b,
             productPageUrl = productPageUrl b,
             manufacturerCode2 = fst (fst (scrapeProductDetails2 env (orElse (productPageUrl b) [])
                                           (console LOG ''Processing SKU'' s))),
             isInStock2 = fst (snd (fst (scrapeProductDetails2 env (orElse (productPageUrl b) [])
                                           (console LOG ''Processing SKU'' s)))),
             imageUrls = snd (snd (fst (scrapeProductDetails2 env (orElse (productPageUrl b) [])
                                           (console LOG ''Processing SKU'' s))))\<rparr>]"
  by (simp add: Let_def case_prod_beta)

lemma mergeDetails2_skip:
  "\<not> truthy (productPageUrl b) \<Longrightarrow> fst (mergeDetails2 env [b] (acc, s)) = acc"
  by (simp add: Let_def)

lemma mergeDetails2_Cons:
  "mergeDetails2 env (b # rest) (acc, s) = mergeDetails2 env rest (mergeDetails2 env [b] (acc, s))"
  by (simp add: Let_def case_prod_beta)

lemma mergeDetails2_images:
  assumes "\<forall>p \<in> set acc. P (imageUrls p)"
    and "\<And>url s. P (snd (snd (fst (scrapeProductDetails2 env url s))))"
  shows "\<forall>p \<in> set (fst (mergeDetails2 env bs (acc, s))). P (imageUrls p)"
  using assms(1)
proof (induction bs arbitrary: acc s)
  case Nil
  then show ?case by simp
next
  case (Cons b bs)
  show ?case
  proof (cases "truthy (productPageUrl b)")
    case False
    then show ?thesis using Cons.IH [OF Cons.prems] by (simp add: Let_def)
  next
    case True
    let ?r = "scrapeProductDetails2 env (orElse (productPageUrl b) []) (console LOG ''Processing SKU'' s)"
    let ?p = "\<lparr>sku = sku b, siteCode = siteCode b, name = name b, price = price b,
             productPageUrl = productPageUrl b,
             manufacturerCode2 = fst (fst ?r), isInStock2 = fst (snd (fst ?r)),
             imageUrls = snd (snd (fst ?r))\<rparr>"
    have "\<forall>p \<in> set (acc @ [?p]). P (imageUrls p)"
      using Cons.prems assms(2) by auto
    from Cons.IH [OF this, of "snd ?r"] show ?thesis
      using True by (simp add: Let_def case_prod_beta)
  qed
qed

lemma catalogStep2_images:
  assumes "\<forall>p \<in> set (allProducts v). P (imageUrls p)"
    and "\<And>url s. P (snd (snd (fst (scrapeProductDetails2 env url s))))"
  shows "\<forall>p \<in> set (allProducts (fst (snd (catalogStep2 env url (v, s))))). P (imageUrls p)"
proof -
  obtain bs nxt s1 where sc: "scrapeCatalogPage2 env url s = ((bs, nxt), s1)"
    by (cases "scrapeCatalogPage2 env url s") auto
  let ?m = "mergeDetails2 env bs
              (allProducts v, console LOG ''Found products on catalog page. Fetching details...'' s1)"
  have m: "\<forall>p \<in> set (fst ?m). P (imageUrls p)"
    by (rule mergeDetails2_images [OF assms(1)]) (rule assms(2))
  show ?thesis
    using m assms(1) by (simp add: catalogStep2_def sc Let_def case_prod_beta)
qed

lemma catalogLoop2_unfold:
  assumes "currentCatalogPageUrl v = Some url" "url \<noteq> []"
    "catalogPageCount v < MAX_CATALOG_PAGES cfg"
  shows "catalogLoop2 cfg env (v, s) =
     (if fst (catalogStep2 env url (v, s)) then catalogLoop2 cfg env (snd (catalogStep2 env url (v, s)))
      else snd (catalogStep2 env url (v, s)))"
  using assms by (cases "catalogStep2 env url (v, s)") (auto split: bool.splits)

lemma catalogLoop2_stop:
  "currentCatalogPageUrl v = None \<or> currentCatalogPageUrl v = Some []
    \<or> MAX_CATALOG_PAGES cfg \<le> catalogPageCount v \<Longrightarrow> catalogLoop2 cfg env (v, s) = (v, s)"
  by (auto split: option.splits)

declare catalogLoop2.simps [simp del]

lemma catalogLoop2_images:
  assumes P: "\<And>url s. P (snd (snd (fst (scrapeProductDetails2 env url s))))"
  shows "\<forall>p \<in> set (allProducts v). P (imageUrls p) \<Longrightarrow>
         \<forall>p \<in> set (allProducts (fst (catalogLoop2 cfg env (v, s)))). P (imageUrls p)"
proof (induction "MAX_CATALOG_PAGES cfg - catalogPageCount v" arbitrary: v s rule: less_induct)
  case less
  show ?case
  proof (cases "currentCatalogPageUrl v = None \<or> currentCatalogPageUrl v = Some []
      \<or> MAX_CATALOG_PAGES cfg \<le> catalogPageCount v")
    case True
    then show ?thesis using less.prems catalogLoop2_stop [OF True, of env s] by simp
  next
    case False
    then obtain url where u: "currentCatalogPageUrl v = Some url" "url \<noteq> []"
      "catalogPageCount v < MAX_CATALOG_PAGES cfg" by auto
    obtain b v1 s1 where st: "catalogStep2 env url (v, s) = (b, v1, s1)"
      by (cases "catalogStep2 env url (v, s)")
    have i1: "\<forall>p \<in> set (allProducts v1). P (imageUrls p)"
      using catalogStep2_images [of v P env url s, OF less.prems P] st by simp
    have c: "catalogPageCount v1 = Suc (catalogPageCount v)"
      using catalogStep2_count [OF st] .
    show ?thesis
    proof (cases b)
      case True
      have "catalogLoop2 cfg env (v, s) = catalogLoop2 cfg env (v1, s1)"
        using catalogLoop2_unfold [OF u, of env s] st True by simp
      moreover have "\<forall>p \<in> set (allProducts (fst (catalogLoop2 cfg env (v1, s1)))). P (imageUrls p)"
        using less.hyps [of v1 s1] i1 c u(3) by simp
      ultimately show ?thesis by simp
    next
      case False
      then have "catalogLoop2 cfg env (v, s) = (v1, s1)"
        using catalogLoop2_unfold [OF u, of env s] st by simp
      then show ?thesis using i1 by simp
    qed
  qed
qed

lemma scrapeAllPages2_images:
  assumes P: "\<And>url s. P (snd (snd (fst (scrapeProductDetails2 env url s))))"
  shows "\<forall>p \<in> set (allProducts (fst (scrapeAllPages2 cfg env s))). P (imageUrls p)"
proof -
  let ?v0 = "\<lparr>allProducts = [], currentCatalogPageUrl = Some START_URL, catalogPageCount = 0\<rparr>"
  let ?l = "catalogLoop2 cfg env (?v0, console LOG ''Starting scraper...'' s)"
  have "fst (scrapeAllPages2 cfg env s) = fst ?l"
    by (cases ?l) (simp add: scrapeAllPages2_def)
  moreover have "\<forall>p \<in> set (allProducts (fst ?l)). P (imageUrls p)"
    by (rule catalogLoop2_images [of P env]) (simp_all add: P)
  ultimately show ?thesis by simp
qed

text \<open>
  C6 (as amended). The image list of every product that \<open>scrapeAllPages\<close> of the second
  program merges is the list \<open>scrapeProductDetails\<close> returned for its product page, and it
  never repeats a URL. When the product page was fetched, the list holds exactly the real
  images of the page if there is one, and then neither the placeholder URL nor any URL
  containing its file name; it is the placeholder URL alone if the page has no real image.
  When the page could not be fetched (or the URL is empty, in which case nothing is
  merged), the list is empty: no placeholder is made up. The first three parts are about
  the list \<open>scrapeProductDetails\<close> returns, the next five about the product the loop of
  \<open>scrapeAllPages\<close> appends for one catalog item, the last about all products of a run.
\<close>

theorem product_page_image_set:
  "distinct (snd (snd (fst (scrapeProductDetails2 env url s))))
   \<and> (url \<noteq> [] \<and> fst (httpGet env (world s) url) = Some pg \<longrightarrow>
        (realImageUrls env pg \<noteq> [] \<longrightarrow>
           set (snd (snd (fst (scrapeProductDetails2 env url s)))) = set (realImageUrls env pg)
           \<and> DEFAULT_IMAGE_URL \<notin> set (snd (snd (fst (scrapeProductDetails2 env url s))))
           \<and> (\<forall>u \<in> set (snd (snd (fst (scrapeProductDetails2 env url s)))).
                 \<not> includesStr u ''default-image.png''))
        \<and> (realImageUrls env pg = [] \<longrightarrow>
             snd (snd (fst (scrapeProductDetails2 env url s))) = [DEFAULT_IMAGE_URL]))
   \<and> (url = [] \<or> fst (httpGet env (world s) url) = None \<longrightarrow>
        snd (snd (fst (scrapeProductDetails2 env url s))) = [])
   \<and> (truthy (productPageUrl b) \<longrightarrow>
        fst (mergeDetails2 env [b] (acc, s)) =
          acc @ [\<lparr>sku = sku b, siteCode = siteCode b, name = name b, price = price b,
                  productPageUrl = productPageUrl b,
                  manufacturerCode2 = fst (fst (scrapeProductDetails2 env (orElse (productPageUrl b) [])
                                                (console LOG ''Processing SKU'' s))),
                  isInStock2 = fst (snd (fst (scrapeProductDetails2 env (orElse (productPageUrl b) [])
                                                (console LOG ''Processing SKU'' s)))),
                  imageUrls = snd (snd (fst (scrapeProductDetails2 env (orElse (productPageUrl b) [])
                                                (console LOG ''Processing SKU'' s))))\<rparr>])
   \<and> (truthy (productPageUrl b)
        \<and> fst (httpGet env (world s) (orElse (productPageUrl b) [])) = Some pg \<longrightarrow>
        (realImageUrls env pg \<noteq> [] \<longrightarrow>
           set (imageUrls (last (fst (mergeDetails2 env [b] (acc, s))))) = set (realImageUrls env pg)
           \<and> DEFAULT_IMAGE_URL \<notin> set (imageUrls (last (fst (mergeDetails2 env [b] (acc, s))))))
        \<and> (realImageUrls env pg = [] \<longrightarrow>
             imageUrls (last (fst (mergeDetails2 env [b] (acc, s)))) = [DEFAULT_IMAGE_URL]))
   \<and> (truthy (productPageUrl b)
        \<and> fst (httpGet env (world s) (orElse (productPageUrl b) [])) = None \<longrightarrow>
        imageUrls (last (fst (mergeDetails2 env [b] (acc, s)))) = [])
   \<and> (\<not> truthy (productPageUrl b) \<longrightarrow> fst (mergeDetails2 env [b] (acc, s)) = acc)
   \<and> mergeDetails2 env (b # rest) (acc, s) = mergeDetails2 env rest (mergeDetails2 env [b] (acc, s))
   \<and> (\<forall>p \<in> set (allProducts (fst (scrapeAllPages2 cfg env s))).
         distinct (imageUrls p)
         \<and> (imageUrls p = [] \<or> imageUrls p = [DEFAULT_IMAGE_URL]
            \<or> (\<exists>pg. realImageUrls env pg \<noteq> []
                  \<and> set (imageUrls p) = set (realImageUrls env pg)
                  \<and> DEFAULT_IMAGE_URL \<notin> set (imageUrls p))))"
proof (intro conjI impI)
  show "distinct (snd (snd (fst (scrapeProductDetails2 env url s))))"
  proof (cases "url = [] \<or> fst (httpGet env (world s) url) = None")
    case True
    then show ?thesis by (simp add: scrapeProductDetails2_images(1))
  next
    case False
    then obtain pg' where "url \<noteq> []" "fst (httpGet env (world s) url) = Some pg'" by auto
    then obtain s' where
      "snd (snd (fst (scrapeProductDetails2 env url s))) = fst (pageImages env pg' s')"
      using scrapeProductDetails2_images(2) by blast
    then show ?thesis by (simp add: pageImages_fst(1))
  qed
next
  assume ok: "url \<noteq> [] \<and> fst (httpGet env (world s) url) = Some pg"
  then obtain s' where
    s': "snd (snd (fst (scrapeProductDetails2 env url s))) = fst (pageImages env pg s')"
    using scrapeProductDetails2_images(2) by blast
  assume real: "realImageUrls env pg \<noteq> []"
  show a: "set (snd (snd (fst (scrapeProductDetails2 env url s)))) = set (realImageUrls env pg)"
    using real by (simp add: s' pageImages_fst(2))
  show b: "\<forall>u \<in> set (snd (snd (fst (scrapeProductDetails2 env url s)))).
             \<not> includesStr u ''default-image.png''"
    by (auto simp: a dest: realImageUrls_no_placeholder)
  show "DEFAULT_IMAGE_URL \<notin> set (snd (snd (fst (scrapeProductDetails2 env url s))))"
    using b placeholder_includes by blast
next
  assume ok: "url \<noteq> [] \<and> fst (httpGet env (world s) url) = Some pg"
  then obtain s' where
    s': "snd (snd (fst (scrapeProductDetails2 env url s))) = fst (pageImages env pg s')"
    using scrapeProductDetails2_images(2) by blast
  assume "realImageUrls env pg = []"
  then show "snd (snd (fst (scrapeProductDetails2 env url s))) = [DEFAULT_IMAGE_URL]"
    by (simp add: s' pageImages_fst(3))
next
  assume "url = [] \<or> fst (httpGet env (world s) url) = None"
  then show "snd (snd (fst (scrapeProductDetails2 env url s))) = []"
    by (rule scrapeProductDetails2_images(1))
next
  assume "truthy (productPageUrl b)"
  then show "fst (mergeDetails2 env [b] (acc, s)) =
          acc @ [\<lparr>sku = sku b, siteCode = siteCode b, name = name b, price = price b,
                  productPageUrl = productPageUrl b,
                  manufacturerCode2 = fst (fst (scrapeProductDetails2 env (orElse (productPageUrl b) [])
                                                (console LOG ''Processing SKU'' s))),
                  isInStock2 = fst (snd (fst (scrapeProductDetails2 env (orElse (productPageUrl b) [])
                                                (console LOG ''Processing SKU'' s)))),
                  imageUrls = snd (snd (fst (scrapeProductDetails2 env (orElse (productPageUrl b) [])
                                                (console LOG ''Processing SKU'' s))))\<rparr>]"
    by (rule mergeDetails2_single)
next
  assume ok: "truthy (productPageUrl b)
        \<and> fst (httpGet env (world s) (orElse (productPageUrl b) [])) = Some pg"
  then have u: "orElse (productPageUrl b) [] \<noteq> []"
    by (cases "productPageUrl b") (auto simp: orElse_def)
  let ?s1 = "console LOG ''Processing SKU'' s"
  have l: "imageUrls (last (fst (mergeDetails2 env [b] (acc, s))))
        = snd (snd (fst (scrapeProductDetails2 env (orElse (productPageUrl b) []) ?s1)))"
    using ok by (subst mergeDetails2_single) simp_all
  obtain s' where
    s': "snd (snd (fst (scrapeProductDetails2 env (orElse (productPageUrl b) []) ?s1)))
          = fst (pageImages env pg s')"
    using scrapeProductDetails2_images(2) [of "orElse (productPageUrl b) []" env ?s1 pg] u ok
    by (auto simp: console_def)
  {
    assume real: "realImageUrls env pg \<noteq> []"
    show a: "set (imageUrls (last (fst (mergeDetails2 env [b] (acc, s))))) = set (realImageUrls env pg)"
      unfolding l s' using real by (simp add: pageImages_fst(2))
    show "DEFAULT_IMAGE_URL \<notin> set (imageUrls (last (fst (mergeDetails2 env [b] (acc, s)))))"
      unfolding a using realImageUrls_no_placeholder placeholder_includes by blast
  }
  {
    assume "realImageUrls env pg = []"
    then show "imageUrls (last (fst (mergeDetails2 env [b] (acc, s)))) = [DEFAULT_IMAGE_URL]"
      unfolding l s' by (simp add: pageImages_fst(3))
  }
next
  assume no: "truthy (productPageUrl b)
        \<and> fst (httpGet env (world s) (orElse (productPageUrl b) [])) = None"
  have "snd (snd (fst (scrapeProductDetails2 env (orElse (productPageUrl b) [])
                        (console LOG ''Processing SKU'' s)))) = []"
    using no by (intro scrapeProductDetails2_images(1)) (simp add: console_def)
  then show "imageUrls (last (fst (mergeDetails2 env [b] (acc, s)))) = []"
    using no by (subst mergeDetails2_single) simp_all
next
  assume "\<not> truthy (productPageUrl b)"
  then show "fst (mergeDetails2 env [b] (acc, s)) = acc" by (rule mergeDetails2_skip)
next
  show "mergeDetails2 env (b # rest) (acc, s) = mergeDetails2 env rest (mergeDetails2 env [b] (acc, s))"
    by (rule mergeDetails2_Cons)
next
  show "\<forall>p \<in> set (allProducts (fst (scrapeAllPages2 cfg env s))).
         distinct (imageUrls p)
         \<and> (imageUrls p = [] \<or> imageUrls p = [DEFAULT_IMAGE_URL]
            \<or> (\<exists>pg. realImageUrls env pg \<noteq> []
                  \<and> set (imageUrls p) = set (realImageUrls env pg)
                  \<and> DEFAULT_IMAGE_URL \<notin> set (imageUrls p)))"
    by (rule scrapeAllPages2_images
          [where P = "\<lambda>urls. distinct urls
             \<and> (urls = [] \<or> urls = [DEFAULT_IMAGE_URL]
                \<or> (\<exists>pg. realImageUrls env pg \<noteq> [] \<and> set urls = set (realImageUrls env pg)
                      \<and> DEFAULT_IMAGE_URL \<notin> set urls))"])
       (rule scrapeProductDetails2_imagesOk)
qed

theorem product_page_image_set_witness:
  "BASE_URL @ ''/prece/123'' \<noteq> []
   \<and> fst (httpGet (staticEnv (productSite (Some picturePage))) (world io0) (BASE_URL @ ''/prece/123''))
       = Some picturePage
   \<and> realImageUrls (staticEnv (productSite (Some picturePage))) picturePage \<noteq> []
   \<and> set (snd (snd (fst (scrapeProductDetails2 (staticEnv (productSite (Some picturePage)))
                            (BASE_URL @ ''/prece/123'') io0))))
       = {BASE_URL @ ''/images/a.jpg'', BASE_URL @ ''/images/b.jpg''}
   \<and> fst (httpGet (staticEnv (productSite (Some emptyPage))) (world io0) (BASE_URL @ ''/prece/123''))
       = Some emptyPage
   \<and> realImageUrls (staticEnv (productSite (Some emptyPage))) emptyPage = []
   \<and> snd (snd (fst (scrapeProductDetails2 (staticEnv (productSite (Some emptyPage)))
                       (BASE_URL @ ''/prece/123'') io0)))
       = [DEFAULT_IMAGE_URL]
   \<and> fst (httpGet (staticEnv (productSite None)) (world io0) (BASE_URL @ ''/prece/123'')) = None
   \<and> snd (snd (fst (scrapeProductDetails2 (staticEnv (productSite None))
                       (BASE_URL @ ''/prece/123'') io0))) = []
   \<and> truthy (productPageUrl oilFilterInfo)
   \<and> set (imageUrls (last (fst (mergeDetails2 (staticEnv (productSite (Some picturePage)))
          [oilFilterInfo] ([], io0)))))
       = {BASE_URL @ ''/images/a.jpg'', BASE_URL @ ''/images/b.jpg''}
   \<and> (allProducts (fst (scrapeAllPages2 sourceConfig (staticEnv (productSite (Some picturePage))) io0))) \<noteq> []
   \<and> distinct (imageUrls (hd (allProducts (fst (scrapeAllPages2 sourceConfig (staticEnv (productSite (Some picturePage))) io0)))))"
proof -
  have a: "fst (httpGet (staticEnv (productSite (Some picturePage))) (world io0) (BASE_URL @ ''/prece/123''))
       = Some picturePage"
    by (simp add: staticEnv_def productSite_def BASE_URL_def START_URL_def)
  have b: "realImageUrls (staticEnv (productSite (Some picturePage))) picturePage
       = [BASE_URL @ ''/images/a.jpg'', BASE_URL @ ''/images/a.jpg'', BASE_URL @ ''/images/b.jpg'']"
    by code_simp
  have c: "fst (httpGet (staticEnv (productSite (Some emptyPage))) (world io0) (BASE_URL @ ''/prece/123''))
       = Some emptyPage"
    by (simp add: staticEnv_def productSite_def BASE_URL_def START_URL_def)
  have d: "realImageUrls (staticEnv (productSite (Some emptyPage))) emptyPage = []"
    by code_simp
  have e: "fst (httpGet (staticEnv (productSite None)) (world io0) (BASE_URL @ ''/prece/123'')) = None"
    by (simp add: staticEnv_def productSite_def BASE_URL_def START_URL_def)
  have n: "BASE_URL @ ''/prece/123'' \<noteq> []"
    by (simp add: BASE_URL_def)
  have f: "(allProducts (fst (scrapeAllPages2 sourceConfig (staticEnv (productSite (Some picturePage))) io0))) \<noteq> []"
    by code_simp
  then have h: "hd (allProducts (fst (scrapeAllPages2 sourceConfig (staticEnv (productSite (Some picturePage))) io0))) \<in> set (allProducts (fst (scrapeAllPages2 sourceConfig (staticEnv (productSite (Some picturePage))) io0)))"
    by simp
    have g: "truthy (productPageUrl oilFilterInfo)" "orElse (productPageUrl oilFilterInfo) [] = BASE_URL @ ''/prece/123''"
    by (simp_all add: oilFilterInfo_def orElse_def BASE_URL_def)
  note t = product_page_image_set
            [where env = "staticEnv (productSite (Some picturePage))" and url = "BASE_URL @ ''/prece/123''"
               and s = io0 and pg = picturePage and b = oilFilterInfo and acc = "[]" and cfg = sourceConfig]
  have pre: "truthy (productPageUrl oilFilterInfo)
      \<and> fst (httpGet (staticEnv (productSite (Some picturePage))) (world io0)
                (orElse (productPageUrl oilFilterInfo) [])) = Some picturePage"
    using g a by simp
  have ne: "realImageUrls (staticEnv (productSite (Some picturePage))) picturePage \<noteq> []"
    using b by simp
  have m: "set (imageUrls (last (fst (mergeDetails2 (staticEnv (productSite (Some picturePage)))
              [oilFilterInfo] ([], io0)))))
        = set (realImageUrls (staticEnv (productSite (Some picturePage))) picturePage)"
    using t pre ne by blast
  have k: "distinct (imageUrls (hd (allProducts (fst (scrapeAllPages2 sourceConfig (staticEnv (productSite (Some picturePage))) io0)))))"
    using t h by blast
  have old: "BASE_URL @ ''/prece/123'' \<noteq> []
   \<and> fst (httpGet (staticEnv (productSite (Some picturePage))) (world io0) (BASE_URL @ ''/prece/123''))
       = Some picturePage
   \<and> realImageUrls (staticEnv (productSite (Some picturePage))) picturePage \<noteq> []
   \<and> set (snd (snd (fst (scrapeProductDetails2 (staticEnv (productSite (Some picturePage)))
                            (BASE_URL @ ''/prece/123'') io0))))
       = {BASE_URL @ ''/images/a.jpg'', BASE_URL @ ''/images/b.jpg''}
   \<and> fst (httpGet (staticEnv (productSite (Some emptyPage))) (world io0) (BASE_URL @ ''/prece/123''))
       = Some emptyPage
   \<and> realImageUrls (staticEnv (productSite (Some emptyPage))) emptyPage = []
   \<and> snd (snd (fst (scrapeProductDetails2 (staticEnv (productSite (Some emptyPage)))
                       (BASE_URL @ ''/prece/123'') io0)))
       = [DEFAULT_IMAGE_URL]
   \<and> fst (httpGet (staticEnv (productSite None)) (world io0) (BASE_URL @ ''/prece/123'')) = None
   \<and> snd (snd (fst (scrapeProductDetails2 (staticEnv (productSite None))
                       (BASE_URL @ ''/prece/123'') io0))) = []"
    using product_page_image_set
            [of "staticEnv (productSite (Some picturePage))" "BASE_URL @ ''/prece/123''" io0 picturePage]
          product_page_image_set
            [of "staticEnv (productSite (Some emptyPage))" "BASE_URL @ ''/prece/123''" io0 emptyPage]
          product_page_image_set
            [of "staticEnv (productSite None)" "BASE_URL @ ''/prece/123''" io0 emptyPage]
          a b c d e n
    by simp
  show ?thesis
    using old g(1) m b f k by simp
qed

text \<open>
  The catalog shows one product whose page cannot be fetched: the product is merged with
  an empty image list.
\<close>

theorem failed_product_page_leaves_no_image_counterexample:
  "map (\<lambda>p. (name p, sku p, productPageUrl p, imageUrls p))
     (allProducts (fst (scrapeAllPages2 sourceConfig (staticEnv (productSite None)) io0)))
   = [(Some ''Oil filter'', Some ''123'', Some (BASE_URL @ ''/prece/123''), [])]"
  by code_simp

section \<open>Basic effects\<close>

lemma console_simps [simp]:
  "world (console l m s) = world s"
  "trace (console l m s) = trace s @ [Console l m]"
  "outputFile (console l m s) = outputFile s"
  by (simp_all add: console_def)

lemma axiosGet_simps [simp]:
  "fst (axiosGet env url s) = fst (httpGet env (world s) url)"
  "world (snd (axiosGet env url s)) = snd (httpGet env (world s) url)"
  "trace (snd (axiosGet env url s)) = trace s @ [HttpGet url]"
  "outputFile (snd (axiosGet env url s)) = outputFile s"
  by (simp_all add: axiosGet_def split: prod.splits)

section \<open>The loop of \<open>scrapeAllPages\<close> in the first program\<close>

lemma mergeDetails_Nil [simp]: "mergeDetails env [] x = x"
  by (cases x) simp

lemma catalogLoop_unfold:
  assumes "currentCatalogPageUrl v = Some url" "url \<noteq> []"
    "catalogPageCount v < MAX_CATALOG_PAGES cfg"
  shows "catalogLoop cfg env (v, s) =
     (if fst (catalogStep env url (v, s)) then catalogLoop cfg env (snd (catalogStep env url (v, s)))
      else snd (catalogStep env url (v, s)))"
  using assms by (cases "catalogStep env url (v, s)") (auto split: bool.splits)

lemma catalogLoop_stop:
  "currentCatalogPageUrl v = None \<or> currentCatalogPageUrl v = Some [] 
    \<or> MAX_CATALOG_PAGES cfg \<le> catalogPageCount v \<Longrightarrow> catalogLoop cfg env (v, s) = (v, s)"
  by (auto split: option.splits)

lemma catalogStep_empty_later:
  assumes "0 < catalogPageCount v" "fst (fst (scrapeCatalogPage env url s)) = []"
  shows "catalogStep env url (v, s) =
     (False, v\<lparr>catalogPageCount := Suc (catalogPageCount v)\<rparr>,
      console LOG ''No products found on catalog page, stopping catalog pagination.''
        (snd (scrapeCatalogPage env url s)))"
proof -
  obtain ps nxt s1 where sc: "scrapeCatalogPage env url s = ((ps, nxt), s1)"
    by (cases "scrapeCatalogPage env url s") auto
  show ?thesis using assms by (simp add: catalogStep_def sc)
qed

lemma catalogStep_empty_first:
  assumes "catalogPageCount v = 0" "fst (fst (scrapeCatalogPage env url s)) = []"
  shows "catalogStep env url (v, s) =
     (if snd (fst (scrapeCatalogPage env url s)) = Some url
      then (False, v\<lparr>catalogPageCount := 1, allProducts := allProducts v\<rparr>,
            console LOG ''Next catalog page URL is the same as current, stopping.''
              (console LOG ''Found products on catalog page. Fetching details...''
                 (snd (scrapeCatalogPage env url s))))
      else (True, v\<lparr>catalogPageCount := 1, allProducts := allProducts v,
                     currentCatalogPageUrl := snd (fst (scrapeCatalogPage env url s))\<rparr>,
            console LOG ''Found products on catalog page. Fetching details...''
              (snd (scrapeCatalogPage env url s))))"
proof -
  obtain ps nxt s1 where sc: "scrapeCatalogPage env url s = ((ps, nxt), s1)"
    by (cases "scrapeCatalogPage env url s") auto
  show ?thesis using assms by (simp add: catalogStep_def sc)
qed

lemma catalogLoop_invariant:
  assumes init: "I (v, s)"
    and step: "\<And>v s url b v' s'. I (v, s) \<Longrightarrow> currentCatalogPageUrl v = Some url \<Longrightarrow> url \<noteq> []
        \<Longrightarrow> catalogPageCount v < MAX_CATALOG_PAGES cfg
        \<Longrightarrow> catalogStep env url (v, s) = (b, v', s') \<Longrightarrow> I (v', s')"
  shows "I (catalogLoop cfg env (v, s))"
  using init
proof (induction "MAX_CATALOG_PAGES cfg - catalogPageCount v" arbitrary: v s rule: less_induct)
  case less
  show ?case
  proof (cases "\<exists>url. currentCatalogPageUrl v = Some url \<and> url \<noteq> []
                  \<and> catalogPageCount v < MAX_CATALOG_PAGES cfg")
    case False
    then have "catalogLoop cfg env (v, s) = (v, s)" by (auto split: option.splits)
    then show ?thesis using less.prems by simp
  next
    case True
    then obtain url where u: "currentCatalogPageUrl v = Some url" "url \<noteq> []"
      "catalogPageCount v < MAX_CATALOG_PAGES cfg" by blast
    obtain b v' s' where st: "catalogStep env url (v, s) = (b, v', s')"
      by (cases "catalogStep env url (v, s)")
    have c: "catalogPageCount v' = Suc (catalogPageCount v)"
      using catalogStep_count [OF st] .
    have I': "I (v', s')" using step [OF less.prems u st] .
    show ?thesis
    proof (cases b)
      case True
      have "I (catalogLoop cfg env (v', s'))"
        using less.hyps [of v' s'] u c I' by simp
      then show ?thesis using u st True by simp
    next
      case False
      then show ?thesis using u st I' by simp
    qed
  qed
qed

lemma catalogLoop_count_le:
  "catalogPageCount (fst (catalogLoop cfg env (v, s))) \<le> max (catalogPageCount v) (MAX_CATALOG_PAGES cfg)"
proof -
  have "(\<lambda>(v', s'). catalogPageCount v' \<le> max (catalogPageCount v) (MAX_CATALOG_PAGES cfg))
          (catalogLoop cfg env (v, s))"
    by (rule catalogLoop_invariant) (auto dest: catalogStep_count)
  then show ?thesis by (simp add: case_prod_beta)
qed


lemma resolveOrWarn_log:
  "resolveOrWarn env msg rel s = (r, s') \<Longrightarrow>
     count_list (trace s') (Console LOG m) = count_list (trace s) (Console LOG m)"
  by (auto simp: resolveOrWarn_def split: option.splits if_splits)

lemma nextPageOf_log:
  "nextPageOf r msg url pg s = (n, s') \<Longrightarrow>
     count_list (trace s') (Console LOG m) = count_list (trace s) (Console LOG m)"
  by (auto simp: nextPageOf_def split: option.splits if_splits)

lemma catalogItem_log:
  assumes "catalogItem env el s = (b, s')"
  shows "count_list (trace s') (Console LOG m) = count_list (trace s) (Console LOG m)"
proof -
  obtain u s1 where
    a: "resolveOrWarn env ''Could not construct absolute URL for product page'' (productHref el) s = (u, s1)"
    by (cases "resolveOrWarn env ''Could not construct absolute URL for product page'' (productHref el) s")
  obtain i s2 where
    b: "resolveOrWarn env ''Could not construct absolute URL for image'' (imgSrc el) s1 = (i, s2)"
    by (cases "resolveOrWarn env ''Could not construct absolute URL for image'' (imgSrc el) s1")
  have "s' = s2" using assms by (simp add: catalogItem_def Let_def a b)
  then show ?thesis using resolveOrWarn_log [OF a, of m] resolveOrWarn_log [OF b, of m] by simp
qed

lemma catalogItems_log:
  "catalogItems env els s = (bs, s') \<Longrightarrow>
     count_list (trace s') (Console LOG m) = count_list (trace s) (Console LOG m)"
proof (induction els arbitrary: s bs s')
  case Nil
  then show ?case by simp
next
  case (Cons el els)
  obtain b s1 where i: "catalogItem env el s = (b, s1)" by (cases "catalogItem env el s")
  obtain bs' s2 where r: "catalogItems env els s1 = (bs', s2)" by (cases "catalogItems env els s1")
  have "s' = s2" using Cons.prems by (simp add: i r)
  then show ?case
    using Cons.IH [OF r] catalogItem_log [OF i, of m] by simp
qed

lemma scrapeCatalogPage_fetches:
  "count_list (trace (snd (scrapeCatalogPage env url s))) (Console LOG ''Fetching catalog page'')
     = Suc (count_list (trace s) (Console LOG ''Fetching catalog page''))"
proof -
  let ?s0 = "console LOG ''Fetching catalog page'' s"
  obtain r s1 where g: "axiosGet env url ?s0 = (r, s1)" by (cases "axiosGet env url ?s0")
  have t1: "trace s1 = trace s @ [Console LOG ''Fetching catalog page'', HttpGet url]"
    using axiosGet_simps(3) [of env url ?s0] g by simp
  show ?thesis
  proof (cases r)
    case None
    then show ?thesis by (simp add: scrapeCatalogPage_def g t1)
  next
    case (Some pg)
    obtain ps s2 where i: "catalogItems env (items pg) s1 = (ps, s2)"
      by (cases "catalogItems env (items pg) s1")
    obtain n s3 where
      n: "nextPageOf (nextCatalogUrl env) ''Could not construct absolute URL for next page'' url pg s2 = (n, s3)"
      by (cases "nextPageOf (nextCatalogUrl env) ''Could not construct absolute URL for next page'' url pg s2")
    have "count_list (trace s3) (Console LOG ''Fetching catalog page'')
            = count_list (trace s1) (Console LOG ''Fetching catalog page'')"
      using catalogItems_log [OF i] nextPageOf_log [OF n] by simp
    then show ?thesis by (simp add: scrapeCatalogPage_def g Some i n t1)
  qed
qed

lemma scrapeProductDetails_fetches:
  "count_list (trace (snd (scrapeProductDetails env url s))) (Console LOG ''Fetching catalog page'')
     = count_list (trace s) (Console LOG ''Fetching catalog page'')"
proof (cases "url = []")
  case True
  then show ?thesis by (simp add: scrapeProductDetails_def)
next
  case False
  let ?s0 = "console LOG '' -> Fetching details from'' s"
  obtain r s1 where g: "axiosGet env url ?s0 = (r, s1)" by (cases "axiosGet env url ?s0")
  have t1: "trace s1 = trace s @ [Console LOG '' -> Fetching details from'', HttpGet url]"
    using axiosGet_simps(3) [of env url ?s0] g by simp
  show ?thesis using False by (cases r) (simp_all add: scrapeProductDetails_def g t1)
qed

lemma mergeDetails_fetches:
  "count_list (trace (snd (mergeDetails env bs (acc, s)))) (Console LOG ''Fetching catalog page'')
     = count_list (trace s) (Console LOG ''Fetching catalog page'')"
proof (induction bs arbitrary: acc s)
  case Nil
  then show ?case by simp
next
  case (Cons b bs)
  show ?case
  proof (cases "truthy (productPageUrl b)")
    case False
    then show ?thesis using Cons.IH by (simp add: Let_def)
  next
    case True
    obtain mc s2 where
      d: "scrapeProductDetails env (orElse (productPageUrl b) []) (console LOG ''Processing SKU'' s) = (mc, s2)"
      by (cases "scrapeProductDetails env (orElse (productPageUrl b) []) (console LOG ''Processing SKU'' s)")
    have "count_list (trace s2) (Console LOG ''Fetching catalog page'')
            = count_list (trace s) (Console LOG ''Fetching catalog page'')"
      using scrapeProductDetails_fetches [of env "orElse (productPageUrl b) []" "console LOG ''Processing SKU'' s"] d
      by simp
    then show ?thesis using True Cons.IH [of _ s2] by (simp add: Let_def d)
  qed
qed

lemma catalogStep_fetches:
  assumes "catalogStep env url (v, s) = (b, v', s')"
  shows "count_list (trace s') (Console LOG ''Fetching catalog page'')
     = Suc (count_list (trace s) (Console LOG ''Fetching catalog page''))"
proof -
  obtain ps nxt s1 where sc: "scrapeCatalogPage env url s = ((ps, nxt), s1)"
    by (cases "scrapeCatalogPage env url s") auto
  have c1: "count_list (trace s1) (Console LOG ''Fetching catalog page'')
     = Suc (count_list (trace s) (Console LOG ''Fetching catalog page''))"
    using scrapeCatalogPage_fetches [of env url s] sc by simp
  let ?s1' = "console LOG ''Found products on catalog page. Fetching details...'' s1"
  obtain acc s2 where md: "mergeDetails env ps (allProducts v, ?s1') = (acc, s2)"
    by (cases "mergeDetails env ps (allProducts v, ?s1')")
  have c2: "count_list (trace s2) (Console LOG ''Fetching catalog page'')
     = count_list (trace s1) (Console LOG ''Fetching catalog page'')"
    using mergeDetails_fetches [of env ps "allProducts v" ?s1'] md by simp
  show ?thesis
    using assms c1 c2 by (auto simp: catalogStep_def sc md Let_def split: if_splits)
qed

lemma catalogLoop_fetches:
  "count_list (trace (snd (catalogLoop cfg env (v, s)))) (Console LOG ''Fetching catalog page'')
     + catalogPageCount v
   = count_list (trace s) (Console LOG ''Fetching catalog page'')
     + catalogPageCount (fst (catalogLoop cfg env (v, s)))"
proof -
  have "(\<lambda>(v', s'). count_list (trace s') (Console LOG ''Fetching catalog page'') + catalogPageCount v
          = count_list (trace s) (Console LOG ''Fetching catalog page'') + catalogPageCount v')
          (catalogLoop cfg env (v, s))"
  proof (rule catalogLoop_invariant, goal_cases)
    case 1
    then show ?case by simp
  next
    case (2 v1 s1 url b v' s')
    then show ?case
      using catalogStep_fetches [of env url v1 s1 b v' s'] catalogStep_count [of env url v1 s1 b v' s']
      by simp
  qed
  then show ?thesis by (simp add: case_prod_beta)
qed


lemma catalogLoop_count_mono:
  "catalogPageCount v \<le> catalogPageCount (fst (catalogLoop cfg env (v, s)))"
proof -
  have "(\<lambda>(v', s'). catalogPageCount v \<le> catalogPageCount v') (catalogLoop cfg env (v, s))"
    by (rule catalogLoop_invariant) (auto dest: catalogStep_count)
  then show ?thesis by (simp add: case_prod_beta)
qed

lemma catalogLoop_fetches_second:
  assumes "currentCatalogPageUrl v = Some url" "url \<noteq> []"
    "catalogPageCount v < MAX_CATALOG_PAGES cfg"
  shows "Suc (catalogPageCount v) \<le> catalogPageCount (fst (catalogLoop cfg env (v, s)))"
proof -
  obtain b v' s' where st: "catalogStep env url (v, s) = (b, v', s')"
    by (cases "catalogStep env url (v, s)")
  have c: "catalogPageCount v' = Suc (catalogPageCount v)"
    using catalogStep_count [OF st] .
  show ?thesis
    using assms st c catalogLoop_count_mono [of v' cfg env s'] by (cases b) simp_all
qed

section \<open>The loop of \<open>scrapeSingleCar\<close>\<close>

lemma carDetails_Nil [simp]: "carDetails cfg env [] x = x"
  by (cases x) simp

lemma carLoop_unfold:
  assumes "currentCarCatalogUrl v = Some url" "url \<noteq> []"
    "enat (productCountForCar v) < MAX_PRODUCTS_PER_CAR cfg"
  shows "carLoop cfg env b m y (v, s) =
     (if fst (carStep cfg env b m y url (v, s))
      then carLoop cfg env b m y (snd (carStep cfg env b m y url (v, s)))
      else Some (snd (carStep cfg env b m y url (v, s))))"
  using assms by (subst carLoop.simps) (simp add: Let_def)

lemma carLoop_stop:
  assumes "currentCarCatalogUrl v = None \<or> currentCarCatalogUrl v = Some []
    \<or> MAX_PRODUCTS_PER_CAR cfg \<le> enat (productCountForCar v)"
  shows "carLoop cfg env b m y (v, s) = Some (v, s)"
  using assms by (subst carLoop.simps) (auto split: option.splits)

lemma carStep_empty_later:
  assumes "0 < pageCountForCar v" "fst (fst (scrapeCarCatalogPage env url b m y s)) = []"
  shows "carStep cfg env b m y url (v, s) =
     (False, v\<lparr>pageCountForCar := Suc (pageCountForCar v)\<rparr>,
      console LOG '' -> No more products found for this car on page.''
        (snd (scrapeCarCatalogPage env url b m y s)))"
proof -
  obtain ps nxt s1 where sc: "scrapeCarCatalogPage env url b m y s = ((ps, nxt), s1)"
    by (cases "scrapeCarCatalogPage env url b m y s") auto
  show ?thesis using assms by (simp add: carStep_def sc)
qed

lemma carStep_empty_first:
  assumes "pageCountForCar v = 0" "fst (fst (scrapeCarCatalogPage env url b m y s)) = []"
    "enat (productCountForCar v) < MAX_PRODUCTS_PER_CAR cfg"
  shows "carStep cfg env b m y url (v, s) =
     (True, v\<lparr>pageCountForCar := 1,
                currentCarCatalogUrl := snd (fst (scrapeCarCatalogPage env url b m y s))\<rparr>,
      console LOG ''  -> Found products on page. Fetching details...''
        (snd (scrapeCarCatalogPage env url b m y s)))"
proof -
  obtain ps nxt s1 where sc: "scrapeCarCatalogPage env url b m y s = ((ps, nxt), s1)"
    by (cases "scrapeCarCatalogPage env url b m y s") auto
  show ?thesis using assms by (simp add: carStep_def sc)
qed

declare catalogLoop.simps [simp del]

section \<open>A catalog page without products\<close>

text \<open>
  C5. Let the loop of \<open>scrapeAllPages\<close> (first program) or of \<open>scrapeSingleCar\<close> be
  about to fetch the page at \<open>url\<close>, and let that page yield no product. If a page was
  fetched before, the loop ends there, with the page counted and one line written to
  the console. If it is the first page, the loop does not end for that reason: it goes
  on with the next-page URL of the page exactly as after a page with products (in the
  first program unless that URL is \<open>url\<close> itself), so that a further page is fetched
  whenever there is a next-page URL and the limits allow it.
\<close>

theorem empty_page_ends_walk_unless_first:
  "(currentCatalogPageUrl v = Some url \<and> url \<noteq> [] \<and> catalogPageCount v < MAX_CATALOG_PAGES cfg
      \<and> fst (fst (scrapeCatalogPage env url s)) = [] \<longrightarrow>
      (0 < catalogPageCount v \<longrightarrow>
         catalogLoop cfg env (v, s) =
           (v\<lparr>catalogPageCount := Suc (catalogPageCount v)\<rparr>,
            console LOG ''No products found on catalog page, stopping catalog pagination.''
              (snd (scrapeCatalogPage env url s))))
      \<and> (catalogPageCount v = 0 \<and> snd (fst (scrapeCatalogPage env url s)) \<noteq> Some url \<longrightarrow>
           catalogLoop cfg env (v, s) =
             catalogLoop cfg env
               (v\<lparr>catalogPageCount := 1,
                   currentCatalogPageUrl := snd (fst (scrapeCatalogPage env url s))\<rparr>,
                console LOG ''Found products on catalog page. Fetching details...''
                  (snd (scrapeCatalogPage env url s)))
           \<and> (truthy (snd (fst (scrapeCatalogPage env url s))) \<and> 1 < MAX_CATALOG_PAGES cfg \<longrightarrow>
                2 \<le> catalogPageCount (fst (catalogLoop cfg env (v, s))))))
   \<and> (currentCarCatalogUrl c = Some url \<and> url \<noteq> []
        \<and> enat (productCountForCar c) < MAX_PRODUCTS_PER_CAR cfg
        \<and> fst (fst (scrapeCarCatalogPage env url b m y s)) = [] \<longrightarrow>
      (0 < pageCountForCar c \<longrightarrow>
         carLoop cfg env b m y (c, s) =
           Some (c\<lparr>pageCountForCar := Suc (pageCountForCar c)\<rparr>,
                 console LOG '' -> No more products found for this car on page.''
                   (snd (scrapeCarCatalogPage env url b m y s))))
      \<and> (pageCountForCar c = 0 \<longrightarrow>
           carLoop cfg env b m y (c, s) =
             carLoop cfg env b m y
               (c\<lparr>pageCountForCar := 1,
                   currentCarCatalogUrl := snd (fst (scrapeCarCatalogPage env url b m y s))\<rparr>,
                console LOG ''  -> Found products on page. Fetching details...''
                  (snd (scrapeCarCatalogPage env url b m y s)))))"
proof (intro conjI impI; (elim conjE)?)
  assume "currentCatalogPageUrl v = Some url" "url \<noteq> []"
    "catalogPageCount v < MAX_CATALOG_PAGES cfg" "fst (fst (scrapeCatalogPage env url s)) = []"
    "0 < catalogPageCount v"
  then show "catalogLoop cfg env (v, s) =
           (v\<lparr>catalogPageCount := Suc (catalogPageCount v)\<rparr>,
            console LOG ''No products found on catalog page, stopping catalog pagination.''
              (snd (scrapeCatalogPage env url s)))"
    by (simp add: catalogLoop_unfold catalogStep_empty_later)
next
  assume a: "currentCatalogPageUrl v = Some url" "url \<noteq> []"
    "catalogPageCount v < MAX_CATALOG_PAGES cfg" "fst (fst (scrapeCatalogPage env url s)) = []"
    "catalogPageCount v = 0" "snd (fst (scrapeCatalogPage env url s)) \<noteq> Some url"
  then show e: "catalogLoop cfg env (v, s) =
             catalogLoop cfg env
               (v\<lparr>catalogPageCount := 1,
                   currentCatalogPageUrl := snd (fst (scrapeCatalogPage env url s))\<rparr>,
                console LOG ''Found products on catalog page. Fetching details...''
                  (snd (scrapeCatalogPage env url s)))"
    by (simp add: catalogLoop_unfold catalogStep_empty_first)
  assume t: "truthy (snd (fst (scrapeCatalogPage env url s)))" "1 < MAX_CATALOG_PAGES cfg"
  then obtain u' where u': "snd (fst (scrapeCatalogPage env url s)) = Some u'" "u' \<noteq> []"
    by (cases "snd (fst (scrapeCatalogPage env url s))") auto
  show "2 \<le> catalogPageCount (fst (catalogLoop cfg env (v, s)))"
    using catalogLoop_fetches_second
            [of "v\<lparr>catalogPageCount := 1,
                   currentCatalogPageUrl := snd (fst (scrapeCatalogPage env url s))\<rparr>" u' cfg env
                "console LOG ''Found products on catalog page. Fetching details...''
                  (snd (scrapeCatalogPage env url s))"]
      u' t
    by (simp add: e)
next
  assume "currentCarCatalogUrl c = Some url" "url \<noteq> []"
    "enat (productCountForCar c) < MAX_PRODUCTS_PER_CAR cfg"
    "fst (fst (scrapeCarCatalogPage env url b m y s)) = []" "0 < pageCountForCar c"
  then show "carLoop cfg env b m y (c, s) =
           Some (c\<lparr>pageCountForCar := Suc (pageCountForCar c)\<rparr>,
                 console LOG '' -> No more products found for this car on page.''
                   (snd (scrapeCarCatalogPage env url b m y s)))"
    by (simp add: carLoop_unfold carStep_empty_later)
next
  assume "currentCarCatalogUrl c = Some url" "url \<noteq> []"
    "enat (productCountForCar c) < MAX_PRODUCTS_PER_CAR cfg"
    "fst (fst (scrapeCarCatalogPage env url b m y s)) = []" "pageCountForCar c = 0"
  then show "carLoop cfg env b m y (c, s) =
             carLoop cfg env b m y
               (c\<lparr>pageCountForCar := 1,
                   currentCarCatalogUrl := snd (fst (scrapeCarCatalogPage env url b m y s))\<rparr>,
                console LOG ''  -> Found products on page. Fetching details...''
                  (snd (scrapeCarCatalogPage env url b m y s)))"
    by (simp add: carLoop_unfold carStep_empty_first)
qed


theorem empty_page_ends_walk_unless_first_witness:
  "fst (scrapeCatalogPage (staticEnv emptyCatalogSite) START_URL io0)
     = ([], Some (BASE_URL @ ''/katalogs/?page=2''))
   \<and> catalogPageCount (fst (catalogLoop sourceConfig (staticEnv emptyCatalogSite)
         (\<lparr>allProducts = [], currentCatalogPageUrl = Some START_URL, catalogPageCount = 0\<rparr>, io0))) = 2
   \<and> fst (scrapeCarCatalogPage (staticEnv emptyCatalogSite)
          (BASE_URL @ ''/katalogs/?brand=AD&model=A4&year=2000'') ''AD'' ''A4'' ''2000'' io0)
     = ([], Some (BASE_URL @ ''/katalogs/?brand=AD&model=A4&year=2000&page=2''))
   \<and> map_option (\<lambda>(c, s). (pageCountForCar c, carProducts c))
        (carLoop sourceConfig (staticEnv emptyCatalogSite) ''AD'' ''A4'' ''2000''
           (\<lparr>carProducts = [],
             currentCarCatalogUrl = Some (BASE_URL @ ''/katalogs/?brand=AD&model=A4&year=2000''),
             productCountForCar = 0, pageCountForCar = 0\<rparr>, io0))
     = Some (2, [])"
  using empty_page_ends_walk_unless_first
     [of "\<lparr>allProducts = [], currentCatalogPageUrl = Some START_URL, catalogPageCount = 0\<rparr>"
         START_URL sourceConfig "staticEnv emptyCatalogSite" io0
         "\<lparr>carProducts = [],
             currentCarCatalogUrl = Some (BASE_URL @ ''/katalogs/?brand=AD&model=A4&year=2000''),
             productCountForCar = 0, pageCountForCar = 0\<rparr>" "''AD''" "''A4''" "''2000''"]
  by code_simp

section \<open>The end of scrapeAllPages\<close>

lemma writeFile_trace:
  "trace (snd (writeFile env d s)) = trace s @ [WriteFile d (fst (fsOk env (world s)))]"
  by (simp add: writeFile_def split: prod.splits)

lemma finishPages_trace:
  "\<exists>rest. trace (snd (finishPages cfg env conv (v, s))) =
     trace s @ (if MAX_CATALOG_PAGES cfg \<le> catalogPageCount v
                then [Console WARN ''Reached maximum catalog page limit. Stopping.''] else [])
       @ Console LOG ''Scraping finished.'' # rest
     \<and> count_list rest (Console LOG ''Fetching catalog page'') = 0"
proof (cases "allProducts v = []")
  case True
  then show ?thesis by (simp add: finishPages_def Let_def)
next
  case False
  let ?s2 = "console LOG ''Converting data to WooCommerce CSV format...''
      (console LOG ''Scraping finished.''
        (if MAX_CATALOG_PAGES cfg \<le> catalogPageCount v
         then console WARN ''Reached maximum catalog page limit. Stopping.'' s else s))"
  obtain ok s3 where w: "writeFile env (conv (allProducts v)) ?s2 = (ok, s3)"
    by (cases "writeFile env (conv (allProducts v)) ?s2")
  have t: "trace s3 = trace ?s2 @ [WriteFile (conv (allProducts v)) (fst (fsOk env (world ?s2)))]"
    using writeFile_trace [of env "conv (allProducts v)" ?s2] w by simp
  show ?thesis
    using False by (cases ok) (simp_all add: finishPages_def Let_def w t)
qed

section \<open>The functions of the grouped program that leave the output file alone\<close>

lemma quietI:
  "outputFile s' = outputFile s \<Longrightarrow> trace s' = trace s @ ext \<Longrightarrow> fsEvents ext = []
     \<Longrightarrow> pageLimitWarning \<notin> set ext \<Longrightarrow> quiet s s'"
  by (simp add: quiet_def)

lemma quietD:
  assumes "quiet s s'"
  shows "outputFile s' = outputFile s"
    "\<exists>ext. trace s' = trace s @ ext \<and> fsEvents ext = [] \<and> pageLimitWarning \<notin> set ext"
proof -
  show "outputFile s' = outputFile s" using assms by (simp add: quiet_def)
  have "trace s' = trace s @ drop (length (trace s)) (trace s')"
    using assms append_take_drop_id [of "length (trace s)" "trace s'"] by (simp add: quiet_def)
  then show "\<exists>ext. trace s' = trace s @ ext \<and> fsEvents ext = [] \<and> pageLimitWarning \<notin> set ext"
    using assms unfolding quiet_def by blast
qed

lemma quiet_refl [simp]: "quiet s s"
  by (simp add: quiet_def fsEvents_def)

lemma quiet_trans: "quiet s s1 \<Longrightarrow> quiet s1 s2 \<Longrightarrow> quiet s s2"
proof -
  assume a: "quiet s s1" and b: "quiet s1 s2"
  obtain e1 where e1: "trace s1 = trace s @ e1" "fsEvents e1 = []" "pageLimitWarning \<notin> set e1"
    using quietD(2) [OF a] by blast
  obtain e2 where e2: "trace s2 = trace s1 @ e2" "fsEvents e2 = []" "pageLimitWarning \<notin> set e2"
    using quietD(2) [OF b] by blast
  show ?thesis
    by (rule quietI [where ext = "e1 @ e2"])
       (use quietD(1) [OF a] quietD(1) [OF b] e1 e2 in \<open>simp_all add: fsEvents_def\<close>)
qed

lemma pageLimitWarning_eq [simp]:
  "(Console l m = pageLimitWarning) = (l = WARN \<and> m = ''Reached maximum catalog page limit. Stopping.'')"
  "(pageLimitWarning = Console l m) = (l = WARN \<and> m = ''Reached maximum catalog page limit. Stopping.'')"
  "HttpGet u \<noteq> pageLimitWarning" "pageLimitWarning \<noteq> HttpGet u"
  by (auto simp: pageLimitWarning_def)

lemma quiet_console [simp]:
  "quiet s s' \<Longrightarrow> Console l m \<noteq> pageLimitWarning \<Longrightarrow> quiet s (console l m s')"
  by (erule quiet_trans)
     (rule quietI [where ext = "[Console l m]"], auto simp: fsEvents_def isFsEvent_def console_def)

lemma quiet_axiosGet [simp]: "quiet s s' \<Longrightarrow> quiet s (snd (axiosGet env url s'))"
  by (erule quiet_trans)
     (rule quietI [where ext = "[HttpGet url]"],
      auto simp: fsEvents_def isFsEvent_def axiosGet_def split: prod.splits)

lemma quiet_resolveOrWarn [simp]:
  "quiet s s' \<Longrightarrow> msg \<noteq> ''Reached maximum catalog page limit. Stopping.''
     \<Longrightarrow> quiet s (snd (resolveOrWarn env msg rel s'))"
  by (auto simp: resolveOrWarn_def split: option.splits)

lemma quiet_nextPageOf [simp]:
  "quiet s s' \<Longrightarrow> msg \<noteq> ''Reached maximum catalog page limit. Stopping.''
     \<Longrightarrow> quiet s (snd (nextPageOf resolve msg url pg s'))"
  by (auto simp: nextPageOf_def split: option.splits)

lemma quiet_carCatalogItem: "quiet s s' \<Longrightarrow> quiet s (snd (carCatalogItem env b m y el s'))"
  by (simp add: carCatalogItem_def Let_def case_prod_beta)

lemma quiet_carCatalogItems: "quiet s s' \<Longrightarrow> quiet s (snd (carCatalogItems env b m y els s'))"
  by (induction els arbitrary: s') (auto simp: Let_def case_prod_beta intro: quiet_carCatalogItem)

lemma quiet_scrapeCarCatalogPage:
  "quiet s s' \<Longrightarrow> quiet s (snd (scrapeCarCatalogPage env url b m y s'))"
proof -
  assume a: "quiet s s'"
  let ?s1 = "snd (axiosGet env url (console LOG '' -> Fetching catalog page'' s'))"
  have q1: "quiet s ?s1" using a by simp
  obtain r s1 where ag: "axiosGet env url (console LOG '' -> Fetching catalog page'' s') = (r, s1)"
    by (cases "axiosGet env url (console LOG '' -> Fetching catalog page'' s')")
  then have q: "quiet s s1" using q1 by simp
  show ?thesis
  proof (cases r)
    case None
    then show ?thesis using q by (simp add: scrapeCarCatalogPage_def ag)
  next
    case (Some pg)
    then show ?thesis
      using quiet_carCatalogItems [OF q, of env b m y "items pg"]
      by (simp add: scrapeCarCatalogPage_def ag Let_def case_prod_beta)
  qed
qed

lemma quiet_scrapeProductDetailsCar:
  "quiet s s' \<Longrightarrow> quiet s (snd (scrapeProductDetailsCar env url s'))"
proof -
  assume a: "quiet s s'"
  obtain r s1 where ag: "axiosGet env url (console LOG ''   -> Fetching details from'' s') = (r, s1)"
    by (cases "axiosGet env url (console LOG ''   -> Fetching details from'' s')")
  have "quiet s (snd (axiosGet env url (console LOG ''   -> Fetching details from'' s')))"
    using a by simp
  then have q1: "quiet s s1" unfolding ag by simp
  show ?thesis
    using a q1 by (cases r) (simp_all add: scrapeProductDetailsCar_def ag)
qed

lemma quiet_carDetails:
  "quiet s s' \<Longrightarrow> quiet s (snd (carDetails cfg env ps (v, s')))"
proof (induction ps arbitrary: v s')
  case Nil
  then show ?case by simp
next
  case (Cons p ps)
  show ?case
  proof (cases "MAX_PRODUCTS_PER_CAR cfg \<le> enat (productCountForCar v)")
    case True
    then show ?thesis using Cons.prems by simp
  next
    case False
    have q1: "quiet s (console LOG ''    Processing'' s')" using Cons.prems by simp
    have q2: "quiet s (snd (scrapeProductDetailsCar env u (console LOG ''    Processing'' s')))" for u
      by (rule quiet_scrapeProductDetailsCar [OF q1])
    have q3: "quiet s (console WARN ''    -> Skipping detail fetch - missing URL.''
                        (console LOG ''    Processing'' s'))"
      using q1 by simp
    show ?thesis
      using False q2 q3 by (auto simp: Let_def case_prod_beta intro!: Cons.IH)
  qed
qed

lemma quiet_carStep:
  "quiet s s' \<Longrightarrow> quiet s (snd (snd (carStep cfg env b m y url (v, s'))))"
proof -
  assume a: "quiet s s'"
  obtain ps nxt s1 where sc: "scrapeCarCatalogPage env url b m y s' = ((ps, nxt), s1)"
    by (cases "scrapeCarCatalogPage env url b m y s'") auto
  have q1: "quiet s s1" using quiet_scrapeCarCatalogPage [OF a, of env url b m y] sc by simp
  have q2: "quiet s (snd (carDetails cfg env ps
             (v\<lparr>pageCountForCar := pageCountForCar v + 1\<rparr>,
              console LOG ''  -> Found products on page. Fetching details...'' s1)))"
    using q1 by (intro quiet_carDetails) simp
  show ?thesis
    using q1 q2 by (auto simp: carStep_def sc Let_def case_prod_beta)
qed

lemma quiet_carLoop:
  fixes env :: "('w, 'n) env"
  assumes "carLoop cfg env b m y (v, s) = Some (v', s')"
  shows "quiet s s'"
proof -
  have "\<forall>s0. quiet s0 (snd (v, s)) \<longrightarrow> quiet s0 (snd (v', s'))"
  proof (rule carLoop.raw_induct [where P = "\<lambda>cfg' env' b' m' y' vs r.
        \<forall>s0. quiet s0 (snd vs) \<longrightarrow> quiet s0 (snd r)", OF _ assms])
    fix loop cfg' and env' :: "('w, 'n) env" and b' m' y' and vs r :: "'n carState \<times> 'w io"
    assume IH: "\<And>cfg' (env' :: ('w, 'n) env) b' m' y' vs r. loop cfg' env' b' m' y' vs = Some r \<Longrightarrow>
        \<forall>s0. quiet s0 (snd vs) \<longrightarrow> quiet s0 (snd r)"
      and body: "(case currentCarCatalogUrl (fst vs) of None \<Rightarrow> Some vs
          | Some url \<Rightarrow>
              if url \<noteq> [] \<and> enat (productCountForCar (fst vs)) < MAX_PRODUCTS_PER_CAR cfg'
              then let r = carStep cfg' env' b' m' y' url vs
                   in if fst r then loop cfg' env' b' m' y' (snd r) else Some (snd r)
              else Some vs) = Some r"
    show "\<forall>s0. quiet s0 (snd vs) \<longrightarrow> quiet s0 (snd r)"
    proof (intro allI impI)
      fix s0 assume q: "quiet s0 (snd vs)"
      obtain v1 s1 where vs: "vs = (v1, s1)" by (cases vs)
      show "quiet s0 (snd r)"
      proof (cases "currentCarCatalogUrl v1")
        case None
        then show ?thesis using body q vs by simp
      next
        case (Some url)
        show ?thesis
        proof (cases "url \<noteq> [] \<and> enat (productCountForCar v1) < MAX_PRODUCTS_PER_CAR cfg'")
          case False
          then show ?thesis using body q vs Some by auto
        next
          case True
          have qs: "quiet s0 (snd (snd (carStep cfg' env' b' m' y' url (v1, s1))))"
            using q vs by (intro quiet_carStep) simp
          show ?thesis
          proof (cases "fst (carStep cfg' env' b' m' y' url (v1, s1))")
            case True': True
            have "loop cfg' env' b' m' y' (snd (carStep cfg' env' b' m' y' url (v1, s1))) = Some r"
              using body vs Some True True' by (simp add: Let_def)
            from IH [OF this] qs show ?thesis by blast
          next
            case False
            then have "r = snd (carStep cfg' env' b' m' y' url (v1, s1))"
              using body vs Some True by (simp add: Let_def)
            then show ?thesis using qs by simp
          qed
        qed
      qed
    qed
  qed
  then show ?thesis by simp
qed

lemma quiet_scrapeSingleCar:
  assumes "scrapeSingleCar cfg env b m y s = Some (ps, s')"
  shows "quiet s s'"
proof -
  from assms obtain v s1 where
    l: "carLoop cfg env b m y
          (\<lparr>carProducts = [], currentCarCatalogUrl = Some (BASE_URL @ ''/katalogs/?brand='' @ b
               @ ''&model='' @ encodeURIComponent env m @ ''&year='' @ encodeURIComponent env y),
            productCountForCar = 0, pageCountForCar = 0\<rparr>, console LOG ''--- Scraping Car'' s)
        = Some (v, s1)"
    and s': "s' = console LOG ''--- Finished Car'' s1"
    by (auto simp: scrapeSingleCar_def Let_def)
  have "quiet (console LOG ''--- Scraping Car'' s) s1" by (rule quiet_carLoop [OF l])
  then have "quiet s s1" by (rule quiet_trans [rotated]) simp
  then show ?thesis unfolding s' by simp
qed

lemma quiet_getBrandModelsData: "quiet s (snd (getBrandModelsData env s))"
proof -
  obtain r s1 where ag: "axiosGet env DATA_SOURCE_URL (console LOG ''Fetching brand/model data'' s) = (r, s1)"
    by (cases "axiosGet env DATA_SOURCE_URL (console LOG ''Fetching brand/model data'' s)")
  have "quiet s (snd (axiosGet env DATA_SOURCE_URL (console LOG ''Fetching brand/model data'' s)))"
    by simp
  then have q1: "quiet s s1" unfolding ag by simp
  show ?thesis
    using q1 by (cases r) (simp_all add: getBrandModelsData_def ag split: brandModelsScript.splits)
qed

lemma scrapeSingleCar_no_page_limit_warning:
  assumes "scrapeSingleCar cfg env b m y s = Some (ps, s')"
  shows "Console WARN ''Reached maximum catalog page limit. Stopping.''
           \<notin> set (drop (length (trace s)) (trace s'))"
  using quiet_scrapeSingleCar [OF assms] by (simp add: quiet_def pageLimitWarning_def)

section \<open>The page ceiling\<close>

lemma scrapeAllPages_page_ceiling:
  fixes env :: "('w, 'n) env"
  shows
  "catalogPageCount (fst (scrapeAllPages cfg env s)) \<le> MAX_CATALOG_PAGES cfg
   \<and> count_list (trace (snd (scrapeAllPages cfg env s))) (Console LOG ''Fetching catalog page'')
       = count_list (trace s) (Console LOG ''Fetching catalog page'')
         + catalogPageCount (fst (scrapeAllPages cfg env s))
   \<and> fst (scrapeAllPages cfg env s)
       = fst (catalogLoop cfg env
           (\<lparr>allProducts = [], currentCatalogPageUrl = Some START_URL, catalogPageCount = 0\<rparr>,
            console LOG ''Starting scraper...'' s))
   \<and> (\<exists>rest. trace (snd (scrapeAllPages cfg env s)) =
         trace (snd (catalogLoop cfg env
           (\<lparr>allProducts = [], currentCatalogPageUrl = Some START_URL, catalogPageCount = 0\<rparr>,
            console LOG ''Starting scraper...'' s)))
         @ (if MAX_CATALOG_PAGES cfg \<le> catalogPageCount (fst (scrapeAllPages cfg env s))
            then [Console WARN ''Reached maximum catalog page limit. Stopping.''] else [])
         @ Console LOG ''Scraping finished.'' # rest
         \<and> count_list rest (Console LOG ''Fetching catalog page'') = 0)"
proof -
  let ?v0 = "\<lparr>allProducts = [] :: 'n Product list, currentCatalogPageUrl = Some START_URL, catalogPageCount = 0\<rparr>"
  let ?s0 = "console LOG ''Starting scraper...'' s"
  obtain v1 s1 where l: "catalogLoop cfg env (?v0, ?s0) = (v1, s1)"
    by (cases "catalogLoop cfg env (?v0, ?s0)")
  have r: "scrapeAllPages cfg env s = finishPages cfg env (convertToWooCommerceCSV env) (v1, s1)"
    by (simp add: scrapeAllPages_def l)
  have le: "catalogPageCount v1 \<le> MAX_CATALOG_PAGES cfg"
    using catalogLoop_count_le [of cfg env ?v0 ?s0] l by simp
  have f: "count_list (trace s1) (Console LOG ''Fetching catalog page'')
      = count_list (trace s) (Console LOG ''Fetching catalog page'') + catalogPageCount v1"
    using catalogLoop_fetches [of cfg env ?v0 ?s0] l by simp
  obtain rest where rest: "trace (snd (finishPages cfg env (convertToWooCommerceCSV env) (v1, s1))) =
     trace s1 @ (if MAX_CATALOG_PAGES cfg \<le> catalogPageCount v1
                then [Console WARN ''Reached maximum catalog page limit. Stopping.''] else [])
       @ Console LOG ''Scraping finished.'' # rest"
     "count_list rest (Console LOG ''Fetching catalog page'') = 0"
    using finishPages_trace [of cfg env "convertToWooCommerceCSV env" v1 s1] by blast
  show ?thesis
    using le f rest by (auto simp: r l)
qed

text \<open>
  C7 (as amended). The walk of the single-catalog program \<open>scrapeAllPages\<close> (first
  program of scraper.ts) fetches at most \<open>MAX_CATALOG_PAGES\<close> catalog pages: the number of
  pages it counts is at most the ceiling and equals the number of page fetches it announces.
  The walk is total, so it stops; when the count has reached the ceiling, the first event
  after the loop is the message about the page limit, at level \<open>WARN\<close> (not \<open>ERROR\<close>);
  otherwise no such message is logged, and no page is fetched after the loop. The walk of
  one car in the grouped program, \<open>scrapeSingleCar\<close>, never logs that warning, whatever the
  site and the limits.
\<close>

theorem catalog_walk_stops_at_page_ceiling:
  fixes env :: "('w, 'n) env"
  shows
  "catalogPageCount (fst (scrapeAllPages cfg env s)) \<le> MAX_CATALOG_PAGES cfg
   \<and> count_list (trace (snd (scrapeAllPages cfg env s))) (Console LOG ''Fetching catalog page'')
       = count_list (trace s) (Console LOG ''Fetching catalog page'')
         + catalogPageCount (fst (scrapeAllPages cfg env s))
   \<and> fst (scrapeAllPages cfg env s)
       = fst (catalogLoop cfg env
           (\<lparr>allProducts = [], currentCatalogPageUrl = Some START_URL, catalogPageCount = 0\<rparr>,
            console LOG ''Starting scraper...'' s))
   \<and> (\<exists>rest. trace (snd (scrapeAllPages cfg env s)) =
         trace (snd (catalogLoop cfg env
           (\<lparr>allProducts = [], currentCatalogPageUrl = Some START_URL, catalogPageCount = 0\<rparr>,
            console LOG ''Starting scraper...'' s)))
         @ (if MAX_CATALOG_PAGES cfg \<le> catalogPageCount (fst (scrapeAllPages cfg env s))
            then [Console WARN ''Reached maximum catalog page limit. Stopping.''] else [])
         @ Console LOG ''Scraping finished.'' # rest
         \<and> count_list rest (Console LOG ''Fetching catalog page'') = 0)
   \<and> (scrapeSingleCar cfg env b m y s = Some (ps, s') \<longrightarrow>
        Console WARN ''Reached maximum catalog page limit. Stopping.''
          \<notin> set (drop (length (trace s)) (trace s')))"
proof -
  have car: "scrapeSingleCar cfg env b m y s = Some (ps, s') \<longrightarrow>
        Console WARN ''Reached maximum catalog page limit. Stopping.''
          \<notin> set (drop (length (trace s)) (trace s'))"
    using scrapeSingleCar_no_page_limit_warning [of cfg env b m y s ps s'] by blast
  show ?thesis
    using scrapeAllPages_page_ceiling [of cfg env s] car
    by (elim conjE, intro conjI) assumption+
qed

theorem catalog_walk_stops_at_page_ceiling_witness:
  "catalogPageCount (fst (scrapeAllPages (sourceConfig\<lparr>MAX_CATALOG_PAGES := 2\<rparr>)
       (staticEnv threePageSite) io0)) = 2
   \<and> take 13 (trace (snd (scrapeAllPages (sourceConfig\<lparr>MAX_CATALOG_PAGES := 2\<rparr>)
                           (staticEnv threePageSite) io0)))
      = [Console LOG ''Starting scraper...'',
         Console LOG ''Fetching catalog page'', HttpGet START_URL,
         Console LOG ''Found products on catalog page. Fetching details...'',
         Console LOG ''Processing SKU'',
         Console WARN '' -> Skipping detail fetch due to missing product page URL'',
         Console LOG ''Fetching catalog page'', HttpGet (BASE_URL @ ''/katalogs/?page=2''),
         Console LOG ''Found products on catalog page. Fetching details...'',
         Console LOG ''Processing SKU'',
         Console WARN '' -> Skipping detail fetch due to missing product page URL'',
         Console WARN ''Reached maximum catalog page limit. Stopping.'',
         Console LOG ''Scraping finished.'']
   \<and> (scrapeSingleCar sourceConfig (staticEnv emptyCatalogSite) ''AD'' ''A4'' ''2000'' io0) \<noteq> None
   \<and> Console WARN ''Reached maximum catalog page limit. Stopping.''
        \<notin> set (trace (snd (the (scrapeSingleCar sourceConfig (staticEnv emptyCatalogSite) ''AD'' ''A4'' ''2000'' io0))))"
proof -
  have a: "catalogPageCount (fst (scrapeAllPages (sourceConfig\<lparr>MAX_CATALOG_PAGES := 2\<rparr>)
       (staticEnv threePageSite) io0)) = 2
   \<and> take 13 (trace (snd (scrapeAllPages (sourceConfig\<lparr>MAX_CATALOG_PAGES := 2\<rparr>)
                           (staticEnv threePageSite) io0)))
      = [Console LOG ''Starting scraper...'',
         Console LOG ''Fetching catalog page'', HttpGet START_URL,
         Console LOG ''Found products on catalog page. Fetching details...'',
         Console LOG ''Processing SKU'',
         Console WARN '' -> Skipping detail fetch due to missing product page URL'',
         Console LOG ''Fetching catalog page'', HttpGet (BASE_URL @ ''/katalogs/?page=2''),
         Console LOG ''Found products on catalog page. Fetching details...'',
         Console LOG ''Processing SKU'',
         Console WARN '' -> Skipping detail fetch due to missing product page URL'',
         Console WARN ''Reached maximum catalog page limit. Stopping.'',
         Console LOG ''Scraping finished.'']"
    by code_simp
  have r: "(scrapeSingleCar sourceConfig (staticEnv emptyCatalogSite) ''AD'' ''A4'' ''2000'' io0) \<noteq> None"
    by code_simp
  then have r': "(scrapeSingleCar sourceConfig (staticEnv emptyCatalogSite) ''AD'' ''A4'' ''2000'' io0) = Some (fst (the (scrapeSingleCar sourceConfig (staticEnv emptyCatalogSite) ''AD'' ''A4'' ''2000'' io0)), snd (the (scrapeSingleCar sourceConfig (staticEnv emptyCatalogSite) ''AD'' ''A4'' ''2000'' io0)))"
    by auto
  have c: "Console WARN ''Reached maximum catalog page limit. Stopping.''
        \<notin> set (trace (snd (the (scrapeSingleCar sourceConfig (staticEnv emptyCatalogSite) ''AD'' ''A4'' ''2000'' io0))))"
    using catalog_walk_stops_at_page_ceiling
            [where cfg = sourceConfig and env = "staticEnv emptyCatalogSite" and s = io0
               and b = "''AD''" and m = "''A4''" and y = "''2000''"
               and ps = "fst (the (scrapeSingleCar sourceConfig (staticEnv emptyCatalogSite) ''AD'' ''A4'' ''2000'' io0))" and s' = "snd (the (scrapeSingleCar sourceConfig (staticEnv emptyCatalogSite) ''AD'' ''A4'' ''2000'' io0))"] r'
    by (simp add: io0_def)
  show ?thesis
    using catalog_walk_stops_at_page_ceiling
            [of "sourceConfig\<lparr>MAX_CATALOG_PAGES := 2\<rparr>" "staticEnv threePageSite" io0] a r c
    by simp
qed

text \<open>
  The walk of one car in the grouped program has no page ceiling: its loop is bounded by the
  number of products only, and \<open>MAX_PRODUCTS_PER_CAR\<close> is \<open>Infinity\<close>. Against a server that
  offers 1001 pages, it fetches all 1001 of them, more than the \<open>MAX_CATALOG_PAGES = 1000\<close> of
  the other programs, and logs no warning.
\<close>

lemma counting_page:
  "scrapeCarCatalogPage countingEnv u b m y s =
     (([\<lparr>sku = Some ''Oil-filter'', siteCode = None, name = Some ''Oil filter'', price = None,
          productPageUrl = None, imageUrl = Some DEFAULT_IMAGE_URL, isInStock = False,
          manufacturerCode = None, brandCode = Some b, modelName = Some m, yearRange = Some y\<rparr>],
       (if world s < 1000 then Some (BASE_URL @ ''/katalogs/?brand=AD&model=A4&year=2000&page=next'')
        else None)),
      s\<lparr>world := Suc (world s),
         trace := trace s @ [Console LOG '' -> Fetching catalog page'', HttpGet u]\<rparr>)"
  by (simp add: scrapeCarCatalogPage_def countingEnv_def axiosGet_def oneItemPage_def emptyPage_def
        emptyItem_def carCatalogItem_def siteCodeOf_def priceOf_def resolveOrWarn_def stockOf_def
        nextPageOf_def orNull_def trim_def isWhiteSpace_def replaceWhiteSpace_def console_def Let_def)

lemma counting_step:
  "carStep sourceConfig countingEnv b m y u (c, s) =
     (True,
      c\<lparr>pageCountForCar := Suc (pageCountForCar c),
        carProducts := carProducts c @
          [\<lparr>sku = Some ''Oil-filter'', siteCode = None, name = Some ''Oil filter'', price = None,
            productPageUrl = None, imageUrl = Some DEFAULT_IMAGE_URL, isInStock = False,
            manufacturerCode = None, brandCode = Some b, modelName = Some m, yearRange = Some y\<rparr>],
        productCountForCar := Suc (productCountForCar c),
        currentCarCatalogUrl :=
          (if world s < 1000 then Some (BASE_URL @ ''/katalogs/?brand=AD&model=A4&year=2000&page=next'')
           else None)\<rparr>,
      s\<lparr>world := Suc (world s),
         trace := trace s @ [Console LOG '' -> Fetching catalog page'', HttpGet u,
                    Console LOG ''  -> Found products on page. Fetching details...'',
                    Console LOG ''    Processing'',
                    Console WARN ''    -> Skipping detail fetch - missing URL.'']\<rparr>)"
  by (simp add: carStep_def counting_page Let_def sourceConfig_def console_def)

lemma counting_loop:
  assumes "world s = k" "k \<le> 1000" "currentCarCatalogUrl c = Some u" "u \<noteq> []"
  shows "\<exists>c' s'. carLoop sourceConfig countingEnv b m y (c, s) = Some (c', s')
           \<and> length (carProducts c') = length (carProducts c) + (1001 - k)
           \<and> pageCountForCar c' = pageCountForCar c + (1001 - k)
           \<and> count_list (trace s') (Console LOG '' -> Fetching catalog page'')
               = count_list (trace s) (Console LOG '' -> Fetching catalog page'') + (1001 - k)"
  using assms
proof (induction "1000 - k" arbitrary: k c s u)
  case 0
  then have k: "k = 1000" by simp
  have cap: "enat (productCountForCar c) < MAX_PRODUCTS_PER_CAR sourceConfig"
    by (simp add: sourceConfig_def)
  show ?case
    using "0.prems" k
    by (simp add: carLoop_unfold [OF "0.prems"(3,4) cap] counting_step carLoop_stop)
next
  case (Suc n)
  then have k: "k < 1000" "n = 1000 - Suc k" by simp_all
  have cap: "enat (productCountForCar c) < MAX_PRODUCTS_PER_CAR sourceConfig"
    by (simp add: sourceConfig_def)
  let ?c1 = "c\<lparr>pageCountForCar := Suc (pageCountForCar c),
        carProducts := carProducts c @
          [\<lparr>sku = Some ''Oil-filter'', siteCode = None, name = Some ''Oil filter'', price = None,
            productPageUrl = None, imageUrl = Some DEFAULT_IMAGE_URL, isInStock = False,
            manufacturerCode = None, brandCode = Some b, modelName = Some m, yearRange = Some y\<rparr>],
        productCountForCar := Suc (productCountForCar c),
        currentCarCatalogUrl := Some (BASE_URL @ ''/katalogs/?brand=AD&model=A4&year=2000&page=next'')\<rparr>"
  let ?s1 = "s\<lparr>world := Suc (world s),
         trace := trace s @ [Console LOG '' -> Fetching catalog page'', HttpGet u,
                    Console LOG ''  -> Found products on page. Fetching details...'',
                    Console LOG ''    Processing'',
                    Console WARN ''    -> Skipping detail fetch - missing URL.'']\<rparr>"
  have unf: "carLoop sourceConfig countingEnv b m y (c, s) = carLoop sourceConfig countingEnv b m y (?c1, ?s1)"
    using Suc.prems k
    by (simp add: carLoop_unfold [OF Suc.prems(3,4) cap] counting_step)
  have "\<exists>c' s'. carLoop sourceConfig countingEnv b m y (?c1, ?s1) = Some (c', s')
           \<and> length (carProducts c') = length (carProducts ?c1) + (1001 - Suc k)
           \<and> pageCountForCar c' = pageCountForCar ?c1 + (1001 - Suc k)
           \<and> count_list (trace s') (Console LOG '' -> Fetching catalog page'')
               = count_list (trace ?s1) (Console LOG '' -> Fetching catalog page'') + (1001 - Suc k)"
    using Suc.prems k
    by (intro Suc.hyps(1) [of "Suc k" ?s1 ?c1 "BASE_URL @ ''/katalogs/?brand=AD&model=A4&year=2000&page=next''"])
       (simp_all add: BASE_URL_def)
  then show ?case
    using k by (auto simp: unf)
qed

theorem car_walk_fetches_1001_pages_counterexample:
  "map_option (\<lambda>(ps, s). (length ps, count_list (trace s) (Console LOG '' -> Fetching catalog page'')))
     (scrapeSingleCar sourceConfig countingEnv ''AD'' ''A4'' ''2000''
        \<lparr>world = 0, trace = [], outputFile = None\<rparr>)
   = Some (1001, 1001)"
proof -
  let ?s0 = "console LOG ''--- Scraping Car'' \<lparr>world = 0 :: nat, trace = [], outputFile = None\<rparr>"
  let ?c0 = "\<lparr>carProducts = [] :: nat CarProduct list,
             currentCarCatalogUrl = Some (BASE_URL @ ''/katalogs/?brand=AD&model=A4&year=2000''),
             productCountForCar = 0, pageCountForCar = 0\<rparr>"
  obtain c' s' where l: "carLoop sourceConfig countingEnv ''AD'' ''A4'' ''2000'' (?c0, ?s0) = Some (c', s')"
    "length (carProducts c') = length (carProducts ?c0) + (1001 - 0)"
    "count_list (trace s') (Console LOG '' -> Fetching catalog page'')
       = count_list (trace ?s0) (Console LOG '' -> Fetching catalog page'') + (1001 - 0)"
    using counting_loop [of ?s0 0 ?c0 "BASE_URL @ ''/katalogs/?brand=AD&model=A4&year=2000''" "''AD''" "''A4''" "''2000''"]
    by (auto simp: console_def BASE_URL_def)
  show ?thesis
    using l by (simp add: scrapeSingleCar_def countingEnv_def Let_def console_def)
qed

section \<open>Cycles of catalog pages\<close>

lemma catalogLoop_cycle:
  assumes ab: "a \<noteq> []" "b \<noteq> []" "a \<noteq> b"
    and pa: "\<And>s. fst (fst (scrapeCatalogPage env a s)) \<noteq> [] \<and> snd (fst (scrapeCatalogPage env a s)) = Some b"
    and pb: "\<And>s. fst (fst (scrapeCatalogPage env b s)) \<noteq> [] \<and> snd (fst (scrapeCatalogPage env b s)) = Some a"
    and cur: "currentCatalogPageUrl v = Some a \<or> currentCatalogPageUrl v = Some b"
  shows "catalogPageCount (fst (catalogLoop cfg env (v, s)))
           = max (catalogPageCount v) (MAX_CATALOG_PAGES cfg)"
  using cur
proof (induction "MAX_CATALOG_PAGES cfg - catalogPageCount v" arbitrary: v s rule: less_induct)
  case less
  from less.prems obtain u u' where u: "currentCatalogPageUrl v = Some u" "u \<noteq> []"
    "u' = a \<or> u' = b" "u' \<noteq> u"
    "fst (fst (scrapeCatalogPage env u s)) \<noteq> []" "snd (fst (scrapeCatalogPage env u s)) = Some u'"
    using ab pa [of s] pb [of s] by auto
  show ?case
  proof (cases "catalogPageCount v < MAX_CATALOG_PAGES cfg")
    case False
    then show ?thesis using catalogLoop_stop [of v cfg env s] by simp
  next
    case True
    obtain ps nxt s1 where sc: "scrapeCatalogPage env u s = ((ps, nxt), s1)"
      by (cases "scrapeCatalogPage env u s") auto
    obtain acc s2 where md: "mergeDetails env ps
         (allProducts v, console LOG ''Found products on catalog page. Fetching details...'' s1) = (acc, s2)"
      by (cases "mergeDetails env ps
         (allProducts v, console LOG ''Found products on catalog page. Fetching details...'' s1)")
    let ?v' = "v\<lparr>catalogPageCount := Suc (catalogPageCount v), allProducts := acc,
                   currentCatalogPageUrl := Some u'\<rparr>"
    have st: "catalogStep env u (v, s) = (True, ?v', s2)"
      using u sc md by (simp add: catalogStep_def)
    have "catalogLoop cfg env (v, s) = catalogLoop cfg env (?v', s2)"
      using catalogLoop_unfold [OF u(1,2) True, of env s] st by simp
    moreover have "catalogPageCount (fst (catalogLoop cfg env (?v', s2)))
           = max (catalogPageCount ?v') (MAX_CATALOG_PAGES cfg)"
      using less.hyps [of ?v' s2] True u(3) by auto
    ultimately show ?thesis using True by simp
  qed
qed

lemma threePage_page:
  "u = BASE_URL @ ''/katalogs/?page=2'' \<or> u = BASE_URL @ ''/katalogs/?page=3'' \<Longrightarrow>
   fst (fst (scrapeCatalogPage (staticEnv threePageSite) u s)) \<noteq> []
   \<and> snd (fst (scrapeCatalogPage (staticEnv threePageSite) u s))
       = Some (if u = BASE_URL @ ''/katalogs/?page=2'' then BASE_URL @ ''/katalogs/?page=3''
               else BASE_URL @ ''/katalogs/?page=2'')"
  by (auto simp: scrapeCatalogPage_def staticEnv_def threePageSite_def axiosGet_def oneItemPage_def
        emptyPage_def emptyItem_def catalogItem_def siteCodeOf_def priceOf_def resolveOrWarn_def
        stockOf_def nextPageOf_def orNull_def trim_def isWhiteSpace_def replaceWhiteSpace_def
        console_def Let_def BASE_URL_def START_URL_def)

text \<open>
  C3 (as amended). The guard of \<open>scrapeAllPages\<close> (first program of scraper.ts) compares the
  resolved next-page URL with the URL of the page just fetched, and with nothing else. After
  a page that is not an empty later page: if the next-page URL equals the current URL, the walk
  stops after that page and says so; if it differs, the walk goes on with it, whether or
  not that URL was visited before. On two non-empty pages that link to each other the walk
  is therefore only ended by the page ceiling, after \<open>MAX_CATALOG_PAGES\<close> pages. In all
  cases the walk ends with at most \<open>MAX_CATALOG_PAGES\<close> pages counted.
\<close>

theorem cycle_guard_compares_with_current_url:
  "(currentCatalogPageUrl v = Some url \<and> url \<noteq> [] \<and> catalogPageCount v < MAX_CATALOG_PAGES cfg
      \<and> (fst (fst (scrapeCatalogPage env url s)) \<noteq> [] \<or> catalogPageCount v = 0) \<longrightarrow>
      (snd (fst (scrapeCatalogPage env url s)) = Some url \<longrightarrow>
         \<not> fst (catalogStep env url (v, s))
         \<and> catalogLoop cfg env (v, s) = snd (catalogStep env url (v, s))
         \<and> catalogPageCount (fst (catalogLoop cfg env (v, s))) = Suc (catalogPageCount v)
         \<and> last (trace (snd (catalogLoop cfg env (v, s))))
             = Console LOG ''Next catalog page URL is the same as current, stopping.'')
      \<and> (snd (fst (scrapeCatalogPage env url s)) \<noteq> Some url \<longrightarrow>
           fst (catalogStep env url (v, s))
           \<and> currentCatalogPageUrl (fst (snd (catalogStep env url (v, s))))
               = snd (fst (scrapeCatalogPage env url s))
           \<and> catalogLoop cfg env (v, s) = catalogLoop cfg env (snd (catalogStep env url (v, s)))))
   \<and> (a \<noteq> [] \<and> b \<noteq> [] \<and> a \<noteq> b
        \<and> (\<forall>s'. fst (fst (scrapeCatalogPage env a s')) \<noteq> []
                 \<and> snd (fst (scrapeCatalogPage env a s')) = Some b)
        \<and> (\<forall>s'. fst (fst (scrapeCatalogPage env b s')) \<noteq> []
                 \<and> snd (fst (scrapeCatalogPage env b s')) = Some a)
        \<and> (currentCatalogPageUrl v = Some a \<or> currentCatalogPageUrl v = Some b) \<longrightarrow>
        catalogPageCount (fst (catalogLoop cfg env (v, s)))
          = max (catalogPageCount v) (MAX_CATALOG_PAGES cfg))
   \<and> catalogPageCount (fst (catalogLoop cfg env (v, s)))
        \<le> max (catalogPageCount v) (MAX_CATALOG_PAGES cfg)"
proof (intro conjI impI; (elim conjE)?)
  assume h: "currentCatalogPageUrl v = Some url" "url \<noteq> []"
    "catalogPageCount v < MAX_CATALOG_PAGES cfg"
    "fst (fst (scrapeCatalogPage env url s)) \<noteq> [] \<or> catalogPageCount v = 0"
    "snd (fst (scrapeCatalogPage env url s)) = Some url"
  obtain ps nxt s1 where sc: "scrapeCatalogPage env url s = ((ps, nxt), s1)"
    by (cases "scrapeCatalogPage env url s") auto
  obtain acc s2 where md: "mergeDetails env ps
       (allProducts v, console LOG ''Found products on catalog page. Fetching details...'' s1) = (acc, s2)"
    by (cases "mergeDetails env ps
       (allProducts v, console LOG ''Found products on catalog page. Fetching details...'' s1)")
  have st: "catalogStep env url (v, s) =
      (False, v\<lparr>catalogPageCount := Suc (catalogPageCount v), allProducts := acc\<rparr>,
       console LOG ''Next catalog page URL is the same as current, stopping.'' s2)"
    using h sc md by (auto simp: catalogStep_def)
  show "\<not> fst (catalogStep env url (v, s))" by (simp add: st)
  show l: "catalogLoop cfg env (v, s) = snd (catalogStep env url (v, s))"
    using catalogLoop_unfold [OF h(1,2,3), of env s] st by simp
  show "catalogPageCount (fst (catalogLoop cfg env (v, s))) = Suc (catalogPageCount v)"
    by (simp add: l st)
  show "last (trace (snd (catalogLoop cfg env (v, s))))
          = Console LOG ''Next catalog page URL is the same as current, stopping.''"
    by (simp add: l st)
next
  assume h: "currentCatalogPageUrl v = Some url" "url \<noteq> []"
    "catalogPageCount v < MAX_CATALOG_PAGES cfg"
    "fst (fst (scrapeCatalogPage env url s)) \<noteq> [] \<or> catalogPageCount v = 0"
    "snd (fst (scrapeCatalogPage env url s)) \<noteq> Some url"
  obtain ps nxt s1 where sc: "scrapeCatalogPage env url s = ((ps, nxt), s1)"
    by (cases "scrapeCatalogPage env url s") auto
  obtain acc s2 where md: "mergeDetails env ps
       (allProducts v, console LOG ''Found products on catalog page. Fetching details...'' s1) = (acc, s2)"
    by (cases "mergeDetails env ps
       (allProducts v, console LOG ''Found products on catalog page. Fetching details...'' s1)")
  have st: "catalogStep env url (v, s) =
      (True, v\<lparr>catalogPageCount := Suc (catalogPageCount v), allProducts := acc,
                currentCatalogPageUrl := nxt\<rparr>, s2)"
    using h sc md by (auto simp: catalogStep_def)
  show "fst (catalogStep env url (v, s))" by (simp add: st)
  show "currentCatalogPageUrl (fst (snd (catalogStep env url (v, s))))
               = snd (fst (scrapeCatalogPage env url s))"
    by (simp add: st sc)
  show "catalogLoop cfg env (v, s) = catalogLoop cfg env (snd (catalogStep env url (v, s)))"
    using catalogLoop_unfold [OF h(1,2,3), of env s] st by simp
next
  assume "a \<noteq> []" "b \<noteq> []" "a \<noteq> b"
    "\<forall>s'. fst (fst (scrapeCatalogPage env a s')) \<noteq> []
                 \<and> snd (fst (scrapeCatalogPage env a s')) = Some b"
    "\<forall>s'. fst (fst (scrapeCatalogPage env b s')) \<noteq> []
                 \<and> snd (fst (scrapeCatalogPage env b s')) = Some a"
    "currentCatalogPageUrl v = Some a \<or> currentCatalogPageUrl v = Some b"
  then show "catalogPageCount (fst (catalogLoop cfg env (v, s)))
          = max (catalogPageCount v) (MAX_CATALOG_PAGES cfg)"
    by (intro catalogLoop_cycle [of a b env v cfg s]) simp_all
next
  show "catalogPageCount (fst (catalogLoop cfg env (v, s)))
        \<le> max (catalogPageCount v) (MAX_CATALOG_PAGES cfg)"
    by (rule catalogLoop_count_le)
qed

theorem cycle_guard_compares_with_current_url_witness:
  "catalogPageCount (fst (catalogLoop sourceConfig (staticEnv selfLinkSite)
       (\<lparr>allProducts = [], currentCatalogPageUrl = Some (BASE_URL @ ''/katalogs/?page=2''),
         catalogPageCount = 1\<rparr>, io0))) = 2
   \<and> last (trace (snd (catalogLoop sourceConfig (staticEnv selfLinkSite)
       (\<lparr>allProducts = [], currentCatalogPageUrl = Some (BASE_URL @ ''/katalogs/?page=2''),
         catalogPageCount = 1\<rparr>, io0))))
       = Console LOG ''Next catalog page URL is the same as current, stopping.''
   \<and> catalogLoop sourceConfig (staticEnv threePageSite)
       (\<lparr>allProducts = [], currentCatalogPageUrl = Some (BASE_URL @ ''/katalogs/?page=2''),
         catalogPageCount = 1\<rparr>, io0)
       = catalogLoop sourceConfig (staticEnv threePageSite)
           (snd (catalogStep (staticEnv threePageSite) (BASE_URL @ ''/katalogs/?page=2'')
             (\<lparr>allProducts = [], currentCatalogPageUrl = Some (BASE_URL @ ''/katalogs/?page=2''),
               catalogPageCount = 1\<rparr>, io0)))
   \<and> catalogPageCount (fst (catalogLoop sourceConfig (staticEnv threePageSite)
       (\<lparr>allProducts = [], currentCatalogPageUrl = Some (BASE_URL @ ''/katalogs/?page=2''),
         catalogPageCount = 1\<rparr>, io0))) = 1000"
proof -
  let ?p2 = "BASE_URL @ ''/katalogs/?page=2''"
  let ?p3 = "BASE_URL @ ''/katalogs/?page=3''"
  let ?v = "\<lparr>allProducts = ([] :: nat Product list), currentCatalogPageUrl = Some ?p2,
         catalogPageCount = 1\<rparr>"
  have a: "fst (fst (scrapeCatalogPage (staticEnv selfLinkSite) ?p2 io0)) \<noteq> []
           \<and> snd (fst (scrapeCatalogPage (staticEnv selfLinkSite) ?p2 io0)) = Some ?p2
           \<and> ?p2 \<noteq> [] \<and> ?p3 \<noteq> [] \<and> ?p2 \<noteq> ?p3"
    by code_simp
  have b: "\<forall>s'. fst (fst (scrapeCatalogPage (staticEnv threePageSite) ?p2 s')) \<noteq> []
        \<and> snd (fst (scrapeCatalogPage (staticEnv threePageSite) ?p2 s')) = Some ?p3"
       "\<forall>s'. fst (fst (scrapeCatalogPage (staticEnv threePageSite) ?p3 s')) \<noteq> []
        \<and> snd (fst (scrapeCatalogPage (staticEnv threePageSite) ?p3 s')) = Some ?p2"
    using threePage_page [of ?p2] threePage_page [of ?p3] a by simp_all
  have c: "MAX_CATALOG_PAGES sourceConfig = 1000" by (simp add: sourceConfig_def)
  have pre: "currentCatalogPageUrl ?v = Some ?p2 \<and> ?p2 \<noteq> []
      \<and> catalogPageCount ?v < MAX_CATALOG_PAGES sourceConfig"
    using a c by simp
  have r1: "catalogPageCount (fst (catalogLoop sourceConfig (staticEnv selfLinkSite) (?v, io0)))
              = Suc (catalogPageCount ?v)
            \<and> last (trace (snd (catalogLoop sourceConfig (staticEnv selfLinkSite) (?v, io0))))
              = Console LOG ''Next catalog page URL is the same as current, stopping.''"
    using cycle_guard_compares_with_current_url
            [where v = ?v and url = ?p2 and cfg = sourceConfig and env = "staticEnv selfLinkSite"
               and s = io0 and a = ?p2 and b = ?p3]
          pre a
    by blast
  have d: "fst (fst (scrapeCatalogPage (staticEnv threePageSite) ?p2 io0)) \<noteq> []"
    "snd (fst (scrapeCatalogPage (staticEnv threePageSite) ?p2 io0)) \<noteq> Some ?p2"
    using b(1) a by simp_all
  have r2: "catalogLoop sourceConfig (staticEnv threePageSite) (?v, io0)
              = catalogLoop sourceConfig (staticEnv threePageSite)
                  (snd (catalogStep (staticEnv threePageSite) ?p2 (?v, io0)))
            \<and> catalogPageCount (fst (catalogLoop sourceConfig (staticEnv threePageSite) (?v, io0)))
              = max (catalogPageCount ?v) (MAX_CATALOG_PAGES sourceConfig)"
    using cycle_guard_compares_with_current_url
            [where v = ?v and url = ?p2 and cfg = sourceConfig and env = "staticEnv threePageSite"
               and s = io0 and a = ?p2 and b = ?p3]
          pre a b d
    by blast
  show ?thesis
    using r1 [THEN conjunct1] r1 [THEN conjunct2] r2 [THEN conjunct1] r2 [THEN conjunct2] c
    by (intro conjI) simp_all
qed

text \<open>
  The walk of one car in the grouped program has neither the guard nor a page ceiling. When
  page 2 of a car links back to page 1, \<open>scrapeSingleCar\<close> never returns.
\<close>

lemma carLoop_diverges:
  assumes inv: "\<And>vs. vs \<in> I \<Longrightarrow>
      \<exists>url. currentCarCatalogUrl (fst vs) = Some url \<and> url \<noteq> []
        \<and> enat (productCountForCar (fst vs)) < MAX_PRODUCTS_PER_CAR cfg
        \<and> fst (carStep cfg env b m y url vs) \<and> snd (carStep cfg env b m y url vs) \<in> I"
    and start: "vs \<in> I"
  shows "carLoop cfg env b m y vs = None"
proof (rule ccontr)
  assume "carLoop cfg env b m y vs \<noteq> None"
  then obtain r where r: "carLoop cfg env b m y vs = Some r" by auto
  have "cfg = cfg \<longrightarrow> env = env \<longrightarrow> b = b \<longrightarrow> m = m \<longrightarrow> y = y \<longrightarrow> vs \<notin> I"
  proof (rule carLoop.raw_induct [where P = "\<lambda>cfg' env' b' m' y' vs' r'.
        cfg' = cfg \<longrightarrow> env' = env \<longrightarrow> b' = b \<longrightarrow> m' = m \<longrightarrow> y' = y \<longrightarrow> vs' \<notin> I", OF _ r])
    fix loop cfg' env' b' m' y' vs' r'
    assume IH: "\<And>cfg' env' b' m' y' vs' r'. loop cfg' env' b' m' y' vs' = Some r' \<Longrightarrow>
        cfg' = cfg \<longrightarrow> env' = env \<longrightarrow> b' = b \<longrightarrow> m' = m \<longrightarrow> y' = y \<longrightarrow> vs' \<notin> I"
      and body: "(case currentCarCatalogUrl (fst vs') of None \<Rightarrow> Some vs'
          | Some url \<Rightarrow>
              if url \<noteq> [] \<and> enat (productCountForCar (fst vs')) < MAX_PRODUCTS_PER_CAR cfg'
              then let r = carStep cfg' env' b' m' y' url vs'
                   in if fst r then loop cfg' env' b' m' y' (snd r) else Some (snd r)
              else Some vs') = Some r'"
    show "cfg' = cfg \<longrightarrow> env' = env \<longrightarrow> b' = b \<longrightarrow> m' = m \<longrightarrow> y' = y \<longrightarrow> vs' \<notin> I"
    proof (intro impI notI)
      assume e: "cfg' = cfg" "env' = env" "b' = b" "m' = m" "y' = y" and i: "vs' \<in> I"
      obtain url where u: "currentCarCatalogUrl (fst vs') = Some url" "url \<noteq> []"
        "enat (productCountForCar (fst vs')) < MAX_PRODUCTS_PER_CAR cfg"
        "fst (carStep cfg env b m y url vs')" "snd (carStep cfg env b m y url vs') \<in> I"
        using inv [OF i] by blast
      have "loop cfg env b m y (snd (carStep cfg env b m y url vs')) = Some r'"
        using body u e by (simp add: Let_def)
      then have "snd (carStep cfg env b m y url vs') \<notin> I"
        using IH by blast
      then show False using u by simp
    qed
  qed
  then show False using start by simp
qed

lemma cycle_page:
  "u = BASE_URL @ ''/katalogs/?brand=AD&model=A4&year=2000''
      \<or> u = BASE_URL @ ''/katalogs/?brand=AD&model=A4&year=2000&page=2'' \<Longrightarrow>
   scrapeCarCatalogPage (staticEnv cycleSite) u b m y s =
     (([\<lparr>sku = Some ''Oil-filter'', siteCode = None, name = Some ''Oil filter'', price = None,
          productPageUrl = None, imageUrl = Some DEFAULT_IMAGE_URL, isInStock = False,
          manufacturerCode = None, brandCode = Some b, modelName = Some m, yearRange = Some y\<rparr>],
       (if u = BASE_URL @ ''/katalogs/?brand=AD&model=A4&year=2000''
        then Some (BASE_URL @ ''/katalogs/?brand=AD&model=A4&year=2000&page=2'')
        else Some (BASE_URL @ ''/katalogs/?brand=AD&model=A4&year=2000''))),
      s\<lparr>trace := trace s @ [Console LOG '' -> Fetching catalog page'', HttpGet u]\<rparr>)"
  by (auto simp: scrapeCarCatalogPage_def staticEnv_def cycleSite_def axiosGet_def oneItemPage_def
        emptyPage_def emptyItem_def carCatalogItem_def siteCodeOf_def priceOf_def resolveOrWarn_def
        stockOf_def nextPageOf_def orNull_def trim_def isWhiteSpace_def replaceWhiteSpace_def
        console_def Let_def BASE_URL_def)

theorem cyclic_car_catalog_never_ends_counterexample:
  "scrapeSingleCar sourceConfig (staticEnv cycleSite) ''AD'' ''A4'' ''2000'' io0 = None"
proof -
  let ?I = "{vs :: nat carState \<times> unit io.
      currentCarCatalogUrl (fst vs) = Some (BASE_URL @ ''/katalogs/?brand=AD&model=A4&year=2000'')
      \<or> currentCarCatalogUrl (fst vs) = Some (BASE_URL @ ''/katalogs/?brand=AD&model=A4&year=2000&page=2'')}"
  have "carLoop sourceConfig (staticEnv cycleSite) ''AD'' ''A4'' ''2000''
          (\<lparr>carProducts = [],
            currentCarCatalogUrl = Some (BASE_URL @ ''/katalogs/?brand=AD&model=A4&year=2000''),
            productCountForCar = 0, pageCountForCar = 0\<rparr>, console LOG ''--- Scraping Car'' io0) = None"
  proof (rule carLoop_diverges [where I = ?I])
    fix vs :: "nat carState \<times> unit io"
    assume i: "vs \<in> ?I"
    obtain c s where vs: "vs = (c, s)" by (cases vs)
    from i obtain u where u: "currentCarCatalogUrl c = Some u"
      "u = BASE_URL @ ''/katalogs/?brand=AD&model=A4&year=2000''
        \<or> u = BASE_URL @ ''/katalogs/?brand=AD&model=A4&year=2000&page=2''"
      by (auto simp: vs)
    have ne: "u \<noteq> []" using u(2) by (auto simp: BASE_URL_def)
    have cap: "enat (productCountForCar c) < MAX_PRODUCTS_PER_CAR sourceConfig"
      by (simp add: sourceConfig_def)
    have step: "fst (carStep sourceConfig (staticEnv cycleSite) ''AD'' ''A4'' ''2000'' u (c, s))"
      "currentCarCatalogUrl (fst (snd (carStep sourceConfig (staticEnv cycleSite) ''AD'' ''A4'' ''2000'' u (c, s))))
         = (if u = BASE_URL @ ''/katalogs/?brand=AD&model=A4&year=2000''
            then Some (BASE_URL @ ''/katalogs/?brand=AD&model=A4&year=2000&page=2'')
            else Some (BASE_URL @ ''/katalogs/?brand=AD&model=A4&year=2000''))"
      by (simp_all add: carStep_def cycle_page [OF u(2)] Let_def sourceConfig_def)
    show "\<exists>url. currentCarCatalogUrl (fst vs) = Some url \<and> url \<noteq> []
        \<and> enat (productCountForCar (fst vs)) < MAX_PRODUCTS_PER_CAR sourceConfig
        \<and> fst (carStep sourceConfig (staticEnv cycleSite) ''AD'' ''A4'' ''2000'' url vs)
        \<and> snd (carStep sourceConfig (staticEnv cycleSite) ''AD'' ''A4'' ''2000'' url vs) \<in> ?I"
      using u(1) ne cap step by (intro exI [of _ u]) (auto simp: vs)
  next
    show "(\<lparr>carProducts = [],
            currentCarCatalogUrl = Some (BASE_URL @ ''/katalogs/?brand=AD&model=A4&year=2000''),
            productCountForCar = 0, pageCountForCar = 0\<rparr>, console LOG ''--- Scraping Car'' io0) \<in> ?I"
      by simp
  qed
  then show ?thesis
    by (simp add: scrapeSingleCar_def staticEnv_def Let_def)
qed

section \<open>The records of the CSV output\<close>

lemma splitRecords_escaped:
  "splitRecords True cur (concat (map (\<lambda>c. if c = CHR 0x22 then [c, c] else [c]) f) @ ys)
     = splitRecords True (cur @ concat (map (\<lambda>c. if c = CHR 0x22 then [c, c] else [c]) f)) ys"
  by (induction f arbitrary: cur) simp_all

lemma splitRecords_csvField:
  "splitRecords False cur (csvField f @ ys) = splitRecords False (cur @ csvField f) ys"
  by (simp add: csvField_def splitRecords_escaped)

lemma splitRecords_csvRow:
  "splitRecords False cur (csvRow fs @ ys) = splitRecords False (cur @ csvRow fs) ys"
proof (induction fs arbitrary: cur rule: induct_list012)
  case 1
  then show ?case by (simp add: csvRow_def)
next
  case (2 x)
  then show ?case by (simp add: csvRow_def splitRecords_csvField)
next
  case (3 x y zs)
  have "csvRow (x # y # zs) = csvField x @ CHR '','' # csvRow (y # zs)"
    by (simp add: csvRow_def)
  then show ?case using 3(2) [of "cur @ csvField x @ '',''"]
    by (simp add: splitRecords_csvField)
qed

lemma splitRecords_rows:
  "rows \<noteq> [] \<Longrightarrow> splitRecords False [] (joinWith CRLF (map csvRow rows)) = map csvRow rows"
proof (induction rows rule: induct_list012)
  case 1
  then show ?case by simp
next
  case (2 x)
  show ?case using splitRecords_csvRow [of "[]" x "[]"] by simp
next
  case (3 x y zs)
  show ?case using splitRecords_csvRow [of "[]" x "CRLF @ joinWith CRLF (map csvRow (y # zs))"] 3(2)
    by (simp add: CRLF_def)
qed

lemma joinWith_append:
  "xs \<noteq> [] \<Longrightarrow> ys \<noteq> [] \<Longrightarrow> joinWith sep (xs @ ys) = joinWith sep xs @ sep @ joinWith sep ys"
  by (induction xs rule: induct_list012) (auto simp: neq_Nil_conv)

lemma csvRow_nonempty: "fs \<noteq> [] \<Longrightarrow> csvRow fs \<noteq> []"
  by (induction fs rule: induct_list012) (auto simp: csvRow_def csvField_def)

section \<open>The budget and the batches of \<open>scrapeAllCars\<close>\<close>

lemma slice0_budget:
  "enat n \<le> M \<Longrightarrow> enat (n + length (slice0 ps (M - enat n))) = min (enat (n + length ps)) M"
  by (cases M) (auto simp: slice0_def min_def)

lemma slice0_take: "slice0 ps (enat k) = take k ps" "slice0 ps \<infinity> = ps"
  by (simp_all add: slice0_def)

lemma yearLoop_inv:
  "yearLoop cfg env b m ys (acc, v, s) = (sig, acc', v', s') \<Longrightarrow>
     quiet s s' \<and> isHeaderWritten v' = isHeaderWritten v
     \<and> (\<exists>added. acc' = acc @ added
           \<and> totalProductsScraped v' = totalProductsScraped v + length added)
     \<and> (enat (totalProductsScraped v) \<le> MAX_TOTAL_PRODUCTS cfg
          \<longrightarrow> enat (totalProductsScraped v') \<le> MAX_TOTAL_PRODUCTS cfg)
     \<and> (sig = BreakBrandLoop \<longrightarrow> MAX_TOTAL_PRODUCTS cfg \<le> enat (totalProductsScraped v))
     \<and> (MAX_TOTAL_PRODUCTS cfg \<le> enat (totalProductsScraped v) \<longrightarrow> acc' = acc \<and> v' = v)
     \<and> (sig = Next \<and> ys \<noteq> [] \<longrightarrow> \<not> MAX_TOTAL_PRODUCTS cfg \<le> enat (totalProductsScraped v'))"
proof (induction ys arbitrary: acc v s)
  case Nil
  then show ?case by auto
next
  case (Cons y ys)
  show ?case
  proof (cases "MAX_TOTAL_PRODUCTS cfg \<le> enat (totalProductsScraped v)")
    case True
    then show ?thesis using Cons.prems by auto
  next
    case False
    show ?thesis
    proof (cases "scrapeSingleCar cfg env b m y s")
      case None
      then show ?thesis using Cons.prems False by auto
    next
      case (Some r)
      obtain ps s1 where r: "r = (ps, s1)" by (cases r)
      have q1: "quiet s s1" using quiet_scrapeSingleCar Some r by blast
      let ?add = "slice0 ps (MAX_TOTAL_PRODUCTS cfg - enat (totalProductsScraped v))"
      let ?v1 = "v\<lparr>totalProductsScraped := totalProductsScraped v + length ?add\<rparr>"
      have le: "enat (totalProductsScraped v) \<le> MAX_TOTAL_PRODUCTS cfg" using False by simp
      have b: "enat (totalProductsScraped ?v1) \<le> MAX_TOTAL_PRODUCTS cfg"
        using slice0_budget [OF le, of ps] by simp
      show ?thesis
      proof (cases "MAX_TOTAL_PRODUCTS cfg \<le> enat (totalProductsScraped ?v1)")
        case True
        then show ?thesis
          using Cons.prems False Some r b q1 by (auto simp: Let_def)
      next
        case F2: False
        have rec: "yearLoop cfg env b m ys (acc @ ?add, ?v1, s1) = (sig, acc', v', s')"
          using Cons.prems False Some r F2 by (simp add: Let_def)
        note ih = Cons.IH [OF rec]
        have "quiet s s'" using q1 ih by (blast intro: quiet_trans)
        moreover have "sig = Next \<longrightarrow> \<not> MAX_TOTAL_PRODUCTS cfg \<le> enat (totalProductsScraped v')"
          using ih F2 by (cases "ys = []") (use rec in auto)
        ultimately show ?thesis
          using ih False b F2 by auto
      qed
    qed
  qed
qed

lemma modelLoop_inv:
  "modelLoop cfg env b ms (acc, v, s) = (sig, acc', v', s') \<Longrightarrow>
     quiet s s' \<and> isHeaderWritten v' = isHeaderWritten v
     \<and> (\<exists>added. acc' = acc @ added
           \<and> totalProductsScraped v' = totalProductsScraped v + length added)
     \<and> (enat (totalProductsScraped v) \<le> MAX_TOTAL_PRODUCTS cfg
          \<longrightarrow> enat (totalProductsScraped v') \<le> MAX_TOTAL_PRODUCTS cfg)
     \<and> (sig = BreakBrandLoop \<longrightarrow> MAX_TOTAL_PRODUCTS cfg \<le> enat (totalProductsScraped v))
     \<and> (MAX_TOTAL_PRODUCTS cfg \<le> enat (totalProductsScraped v) \<longrightarrow> acc' = acc \<and> v' = v)"
proof (induction ms arbitrary: acc v s)
  case Nil
  then show ?case by auto
next
  case (Cons my ms)
  obtain m ys where my: "my = (m, ys)" by (cases my)
  obtain sig1 acc1 v1 s1 where yl: "yearLoop cfg env b m ys (acc, v, s) = (sig1, acc1, v1, s1)"
    by (cases "yearLoop cfg env b m ys (acc, v, s)")
  note y = yearLoop_inv [OF yl]
  show ?case
  proof (cases "sig1 = Next \<and> \<not> MAX_TOTAL_PRODUCTS cfg \<le> enat (totalProductsScraped v1)")
    case False
    then have "(sig, acc', v', s') = (if sig1 = Next then BreakModelLoop else sig1, acc1, v1, s1)"
      using Cons.prems yl my by (cases sig1) auto
    then show ?thesis using y by auto
  next
    case True
    then have rec: "modelLoop cfg env b ms (acc1, v1, s1) = (sig, acc', v', s')"
      using Cons.prems yl my by simp
    note ih = Cons.IH [OF rec]
    have "quiet s s'" using y ih by (blast intro: quiet_trans)
    then show ?thesis using y ih True by auto
  qed
qed

lemma batchWrites_append:
  "batchWrites h (xs @ ys) = (batchWrites h xs \<and> batchWrites (headerAfter h xs) ys)"
proof (induction xs arbitrary: h)
  case Nil
  show ?case by simp
next
  case (Cons e xs)
  show ?case
  proof (cases e)
    case (Console l m)
    then show ?thesis using Cons.IH [of h] by simp
  next
    case (HttpGet u)
    then show ?thesis using Cons.IH [of h] by simp
  next
    case (WriteFile d ok)
    then show ?thesis using Cons.IH [of ok] by (cases h) simp_all
  next
    case (AppendFile d ok)
    then show ?thesis using Cons.IH [of h] by simp
  qed
qed

lemma headerAfter_append: "headerAfter h (xs @ ys) = headerAfter (headerAfter h xs) ys"
proof (induction xs arbitrary: h)
  case Nil
  show ?case by simp
next
  case (Cons e xs)
  show ?case
  proof (cases e)
    case (Console l m)
    then show ?thesis using Cons.IH [of h] by simp
  next
    case (HttpGet u)
    then show ?thesis using Cons.IH [of h] by simp
  next
    case (WriteFile d ok)
    then show ?thesis using Cons.IH [of "h \<or> ok"] by simp
  next
    case (AppendFile d ok)
    then show ?thesis using Cons.IH [of h] by simp
  qed
qed

lemma rowsWritten_append [simp]: "rowsWritten (xs @ ys) = rowsWritten xs + rowsWritten ys"
  by (simp add: rowsWritten_def)

lemma quiet_events:
  "fsEvents ext = [] \<Longrightarrow>
     batchWrites h ext \<and> headerAfter h ext = h \<and> rowsWritten ext = 0 \<and> list_all writeOk ext"
proof (induction ext)
  case Nil
  then show ?case by (simp add: rowsWritten_def)
next
  case (Cons e ext)
  then show ?case
    by (cases e) (auto simp: fsEvents_def isFsEvent_def rowsWritten_def rowsOfEvent_def writeOk_def
          split: if_splits)
qed

lemma length_batchRows [simp]: "length (batchRows env ps) = length ps"
  by (simp add: batchRows_def)

lemma batchRows_Nil [simp]: "(batchRows env ps = []) = (ps = [])"
  by (cases ps) (simp_all add: batchRows_def)

lemma isDataRow_batchRows: "list_all isDataRow (batchRows env ps)"
  by (auto simp: batchRows_def list_all_iff isDataRow_def wooCommerceRow_def wooCommerceColumns_def)

lemma convertBatch_unparse:
  "convertBatchToWooCommerceCSV env ps h = unparse h (batchRows env ps)"
  by (simp add: convertBatchToWooCommerceCSV_def batchRows_def)

lemma csvRow_header_snd: "csvRow headerFields ! 1 = CHR ''I''"
  by code_simp

lemma isDataRow_csvRow:
  assumes "isDataRow r"
  shows "csvRow r \<noteq> csvRow headerFields" "csvRow r \<noteq> []" "take 1 (csvRow r) = [CHR 0x22]"
proof -
  from assms obtain a rest where r: "r = [] # a # rest"
    by (cases r; cases "tl r") (auto simp: isDataRow_def)
  have c: "csvRow r = CHR 0x22 # CHR 0x22 # CHR '','' # csvRow (a # rest)"
    by (simp add: r csvRow_def csvField_def)
  show "csvRow r \<noteq> []" "take 1 (csvRow r) = [CHR 0x22]" by (simp_all add: c)
  have "csvRow r ! 1 = CHR 0x22" by (simp add: c)
  then show "csvRow r \<noteq> csvRow headerFields" using csvRow_header_snd by auto
qed

lemma dataRows_records:
  assumes "list_all isDataRow rows"
  shows "csvRow headerFields \<notin> set (map csvRow rows)" "[] \<notin> set (map csvRow rows)"
    "filter (\<lambda>r. r \<noteq> [] \<and> r \<noteq> csvRow headerFields) (map csvRow rows) = map csvRow rows"
    "count_list (map csvRow rows) (csvRow headerFields) = 0"
proof -
  show a: "csvRow headerFields \<notin> set (map csvRow rows)"
    using assms isDataRow_csvRow(1) by (fastforce simp: list_all_iff)
  show b: "[] \<notin> set (map csvRow rows)"
    using assms isDataRow_csvRow(2) by (fastforce simp: list_all_iff)
  show "filter (\<lambda>r. r \<noteq> [] \<and> r \<noteq> csvRow headerFields) (map csvRow rows) = map csvRow rows"
  proof (rule filter_True, intro ballI conjI notI)
    fix x assume "x \<in> set (map csvRow rows)" "x = []"
    then show False using b by blast
  next
    fix x assume "x \<in> set (map csvRow rows)" "x = csvRow headerFields"
    then show False using a by blast
  qed
  show "count_list (map csvRow rows) (csvRow headerFields) = 0"
    using a by (simp add: count_list_0_iff)
qed

lemma joinWith_nonempty: "xs \<noteq> [] \<Longrightarrow> hd xs \<noteq> [] \<Longrightarrow> joinWith sep xs \<noteq> []"
  by (induction xs rule: induct_list012) auto

lemma header_text_nonempty: "csvRow headerFields \<noteq> []"
  by code_simp

lemma csvRecords_with_header:
  "csvRecords (joinWith CRLF (csvRow headerFields # map csvRow rows)) = csvRow headerFields # map csvRow rows"
  using splitRecords_rows [of "headerFields # rows"]
        joinWith_nonempty [of "csvRow headerFields # map csvRow rows" CRLF] header_text_nonempty
  by (simp add: csvRecords_def)

lemma csvRecords_rows_only:
  assumes "rows \<noteq> []" "list_all isDataRow rows"
  shows "csvRecords (joinWith CRLF (map csvRow rows)) = map csvRow rows"
    "csvRecords (CRLF @ joinWith CRLF (map csvRow rows)) = [] # map csvRow rows"
    "take 1 (joinWith CRLF (map csvRow rows)) = [CHR 0x22]"
proof -
  obtain r rs where rows: "rows = r # rs" using assms(1) by (cases rows) auto
  have d: "isDataRow r" using assms(2) rows by simp
  have t: "take 1 (joinWith CRLF (map csvRow rows)) = [CHR 0x22]"
    using isDataRow_csvRow(2,3) [OF d] by (cases rs; cases "csvRow r") (auto simp: rows)
  then show "take 1 (joinWith CRLF (map csvRow rows)) = [CHR 0x22]" .
  then have ne: "joinWith CRLF (map csvRow rows) \<noteq> []" by auto
  show "csvRecords (joinWith CRLF (map csvRow rows)) = map csvRow rows"
    using splitRecords_rows [OF assms(1)] ne by (simp add: csvRecords_def)
  show "csvRecords (CRLF @ joinWith CRLF (map csvRow rows)) = [] # map csvRow rows"
    using splitRecords_rows [OF assms(1)] by (simp add: csvRecords_def CRLF_def)
qed

lemma trim_nonempty: "\<not> isWhiteSpace c \<Longrightarrow> take 1 t = [c] \<Longrightarrow> trim t \<noteq> []"
  by (cases t) (auto simp: trim_def dropWhile_append)

lemma quote_not_space: "\<not> isWhiteSpace (CHR 0x22)"
  by (simp add: isWhiteSpace_def)

lemma withHeader_batch:
  assumes "list_all isDataRow rows"
  shows "withHeader (joinWith CRLF (csvRow headerFields # map csvRow rows))"
    "dataRecords (joinWith CRLF (csvRow headerFields # map csvRow rows)) = map csvRow rows"
proof -
  note d = dataRows_records [OF assms]
  show "withHeader (joinWith CRLF (csvRow headerFields # map csvRow rows))"
    unfolding withHeader_def headerCount_def csvRecords_with_header using d(4) by simp
  show "dataRecords (joinWith CRLF (csvRow headerFields # map csvRow rows)) = map csvRow rows"
    unfolding dataRecords_def csvRecords_with_header using d(3) header_text_nonempty by simp
qed

lemma rowsOnly_batch:
  assumes "rows \<noteq> []" "list_all isDataRow rows"
  shows "rowsOnly (CRLF @ joinWith CRLF (map csvRow rows))"
    "dataRecords (CRLF @ joinWith CRLF (map csvRow rows)) = map csvRow rows"
    "rowsOnly (joinWith CRLF (map csvRow rows))"
    "dataRecords (joinWith CRLF (map csvRow rows)) = map csvRow rows"
proof -
  note d = dataRows_records [OF assms(2)]
  note c = csvRecords_rows_only(1,2) [OF assms]
  show "rowsOnly (CRLF @ joinWith CRLF (map csvRow rows))"
    unfolding rowsOnly_def headerCount_def c using d(4) header_text_nonempty by simp
  show "dataRecords (CRLF @ joinWith CRLF (map csvRow rows)) = map csvRow rows"
    unfolding dataRecords_def c using d(3) by simp
  show "rowsOnly (joinWith CRLF (map csvRow rows))"
    unfolding rowsOnly_def headerCount_def c using d(4) by simp
  show "dataRecords (joinWith CRLF (map csvRow rows)) = map csvRow rows"
    unfolding dataRecords_def c using d(3) by simp
qed

lemma saveBatch_first:
  assumes "ps \<noteq> []" "\<not> isHeaderWritten v" "fsOk env (world s) = (ok, w)"
  shows "saveBatch env ps (v, s) =
     ((if ok then v\<lparr>isHeaderWritten := True\<rparr> else v),
      s\<lparr>world := w,
        trace := trace s @ [Console LOG ''Converting and saving batch for Brand'',
                   WriteFile (convertBatchToWooCommerceCSV env ps True) ok,
                   (if ok then Console LOG '' -> Header written and first batch saved.''
                    else Console ERROR ''Error converting or writing batch CSV for brand'')],
        outputFile := (if ok then Some (convertBatchToWooCommerceCSV env ps True) else outputFile s)\<rparr>)"
  using assms by (simp add: saveBatch_def Let_def writeFile_def console_def)

lemma saveBatch_later:
  assumes "ps \<noteq> []" "isHeaderWritten v" "fsOk env (world s) = (ok, w)"
    "trim (convertBatchToWooCommerceCSV env ps False) \<noteq> []"
  shows "saveBatch env ps (v, s) =
     (v,
      s\<lparr>world := w,
        trace := trace s @ [Console LOG ''Converting and saving batch for Brand'',
                   AppendFile ((if outputFile s = None \<or> outputFile s = Some [] then [] else CRLF)
                                @ convertBatchToWooCommerceCSV env ps False) ok,
                   (if ok then Console LOG '' -> Appended batch.''
                    else Console ERROR ''Error converting or writing batch CSV for brand'')],
        outputFile := (if ok
           then Some ((case outputFile s of None \<Rightarrow> [] | Some c \<Rightarrow> c)
                      @ (if outputFile s = None \<or> outputFile s = Some [] then [] else CRLF)
                      @ convertBatchToWooCommerceCSV env ps False)
           else outputFile s)\<rparr>)"
  using assms
  by (cases "outputFile s") (simp_all add: saveBatch_def Let_def appendFile_def console_def statSize_def)

lemma saveBatch_inv:
  assumes sb: "saveBatch env ps (v, s) = (v', s')" and inv: "fileInv v s"
  shows "totalProductsScraped v' = totalProductsScraped v \<and> fileInv v' s'
    \<and> (\<exists>ext. trace s' = trace s @ ext \<and> batchWrites (isHeaderWritten v) ext
           \<and> isHeaderWritten v' = headerAfter (isHeaderWritten v) ext
           \<and> rowsWritten ext \<le> length ps
           \<and> (list_all writeOk ext \<longrightarrow> rowsWritten ext = length ps))"
proof (cases "ps = []")
  case True
  then have r: "v' = v" "s' = console LOG '' -> No products found or added for Brand in this run. Skipping save.'' s"
    using sb by (simp_all add: saveBatch_def)
  have e: "trace s' = trace s @ [Console LOG '' -> No products found or added for Brand in this run. Skipping save.'']"
    by (simp add: r)
  have "fileInv v' s'" using inv by (simp add: r)
  then show ?thesis
    using e True r(1)
    by (intro conjI exI [of _ "[Console LOG '' -> No products found or added for Brand in this run. Skipping save.'']"])
       (simp_all add: rowsWritten_def rowsOfEvent_def writeOk_def)
next
  case ne: False
  let ?rows = "batchRows env ps"
  have rows: "?rows \<noteq> []" "list_all isDataRow ?rows" "length ?rows = length ps"
    using ne isDataRow_batchRows by simp_all
  obtain ok w where fs: "fsOk env (world s) = (ok, w)" by (cases "fsOk env (world s)")
  show ?thesis
  proof (cases "isHeaderWritten v")
    case False
    let ?csv = "joinWith CRLF (csvRow headerFields # map csvRow ?rows)"
    have csv: "convertBatchToWooCommerceCSV env ps True = ?csv"
      using ne by (simp add: convertBatch_unparse unparse_def)
    let ?ext = "[Console LOG ''Converting and saving batch for Brand'', WriteFile ?csv ok,
                 (if ok then Console LOG '' -> Header written and first batch saved.''
                  else Console ERROR ''Error converting or writing batch CSV for brand'')]"
    have r0: "(v', s') = ((if ok then v\<lparr>isHeaderWritten := True\<rparr> else v),
      s\<lparr>world := w, trace := trace s @ ?ext,
        outputFile := (if ok then Some ?csv else outputFile s)\<rparr>)"
      using saveBatch_first [OF ne False fs] sb csv by simp
    have r: "v' = (if ok then v\<lparr>isHeaderWritten := True\<rparr> else v)" "trace s' = trace s @ ?ext"
      "outputFile s' = (if ok then Some ?csv else outputFile s)"
      using r0 by simp_all
    have t: "totalProductsScraped v' = totalProductsScraped v" by (simp add: r(1))
    have h: "isHeaderWritten v' = ok" using False by (simp add: r(1))
    have fi: "fileInv v' s'"
    proof (cases ok)
      case True
      have "?rows \<noteq> [] \<and> list_all isDataRow ?rows \<and> outputFile s' = Some ?csv"
        using rows True r(3) by simp
      then show ?thesis using h True by (auto intro: exI [of _ ?rows])
    next
      case F: False
      then show ?thesis using inv False h r(3) by simp
    qed
    have bw: "batchWrites (isHeaderWritten v) ?ext"
      using False withHeader_batch(1) [OF rows(2)] by (cases ok) simp_all
    have ha: "isHeaderWritten v' = headerAfter (isHeaderWritten v) ?ext"
      using False h by (cases ok) simp_all
    have rw: "rowsWritten ?ext = (if ok then length ps else 0)"
      using withHeader_batch(2) [OF rows(2)] by (cases ok) (simp_all add: rowsWritten_def rowsOfEvent_def)
    have wo: "list_all writeOk ?ext = ok" by (cases ok) (simp_all add: writeOk_def)
    show ?thesis
    proof (intro conjI exI [of _ ?ext] impI)
      show "rowsWritten ?ext \<le> length ps" unfolding rw by simp
      show "rowsWritten ?ext = length ps" if "list_all writeOk ?ext"
        using that unfolding rw wo by simp
    qed (fact t fi r(2) bw ha)+
  next
    case True
    then obtain rows0 where f: "rows0 \<noteq> []" "list_all isDataRow rows0"
        "outputFile s = Some (joinWith CRLF (csvRow headerFields # map csvRow rows0))"
      using inv by auto
    let ?old = "joinWith CRLF (csvRow headerFields # map csvRow rows0)"
    let ?d = "joinWith CRLF (map csvRow ?rows)"
    have d: "convertBatchToWooCommerceCSV env ps False = ?d"
      using ne by (simp add: convertBatch_unparse unparse_def)
    have tr: "trim (convertBatchToWooCommerceCSV env ps False) \<noteq> []"
      unfolding d using trim_nonempty [OF quote_not_space csvRecords_rows_only(3) [OF rows(1,2)]] .
    have old: "?old \<noteq> []"
      using joinWith_nonempty [of "csvRow headerFields # map csvRow rows0" CRLF] header_text_nonempty by simp
    let ?ext = "[Console LOG ''Converting and saving batch for Brand'', AppendFile (CRLF @ ?d) ok,
                 (if ok then Console LOG '' -> Appended batch.''
                  else Console ERROR ''Error converting or writing batch CSV for brand'')]"
    have r0: "(v', s') = (v, s\<lparr>world := w, trace := trace s @ ?ext,
        outputFile := (if ok then Some (?old @ CRLF @ ?d) else outputFile s)\<rparr>)"
      using saveBatch_later [OF ne True fs tr] sb d f(3) old by simp
    have r: "v' = v" "trace s' = trace s @ ?ext"
      "outputFile s' = (if ok then Some (?old @ CRLF @ ?d) else outputFile s)"
      using r0 by simp_all
    have j: "?old @ CRLF @ ?d = joinWith CRLF (csvRow headerFields # map csvRow (rows0 @ ?rows))"
      using joinWith_append [of "csvRow headerFields # map csvRow rows0" "map csvRow ?rows" CRLF] rows(1)
      by simp
    have fi: "fileInv v' s'"
    proof (cases ok)
      case True': True
      have "rows0 @ ?rows \<noteq> [] \<and> list_all isDataRow (rows0 @ ?rows)
          \<and> outputFile s' = Some (joinWith CRLF (csvRow headerFields # map csvRow (rows0 @ ?rows)))"
        using f rows True' j r(3) by simp
      then show ?thesis using True r(1) by (auto intro: exI [of _ "rows0 @ ?rows"])
    next
      case False
      then show ?thesis using inv r(1,3) by simp
    qed
    have bw: "batchWrites (isHeaderWritten v) ?ext"
      using True rowsOnly_batch(1) [OF rows(1,2)] by (cases ok) simp_all
    have ha: "isHeaderWritten v' = headerAfter (isHeaderWritten v) ?ext"
      by (cases ok) (simp_all add: r(1))
    have rw: "rowsWritten ?ext = (if ok then length ps else 0)"
      using rowsOnly_batch(2) [OF rows(1,2)] by (cases ok) (simp_all add: rowsWritten_def rowsOfEvent_def)
    have wo: "list_all writeOk ?ext = ok" by (cases ok) (simp_all add: writeOk_def)
    have t: "totalProductsScraped v' = totalProductsScraped v" by (simp add: r(1))
    show ?thesis
    proof (intro conjI exI [of _ ?ext] impI)
      show "rowsWritten ?ext \<le> length ps" unfolding rw by simp
      show "rowsWritten ?ext = length ps" if "list_all writeOk ?ext"
        using that unfolding rw wo by simp
    qed (fact t fi r(2) bw ha)+
  qed
qed

lemma quiet_ext:
  assumes "quiet s s'"
  obtains ext where "trace s' = trace s @ ext" "batchWrites h ext" "headerAfter h ext = h"
    "rowsWritten ext = 0" "list_all writeOk ext" "outputFile s' = outputFile s"
  using quietD [OF assms] quiet_events by blast

lemma brandLoop_inv:
  assumes "brandLoop cfg env tree (v, s) = (r, v', s')" "fileInv v s"
    "enat (totalProductsScraped v) \<le> MAX_TOTAL_PRODUCTS cfg"
  shows "fileInv v' s' \<and> enat (totalProductsScraped v') \<le> MAX_TOTAL_PRODUCTS cfg
    \<and> totalProductsScraped v \<le> totalProductsScraped v'
    \<and> (\<exists>ext. trace s' = trace s @ ext \<and> batchWrites (isHeaderWritten v) ext
           \<and> isHeaderWritten v' = headerAfter (isHeaderWritten v) ext
           \<and> rowsWritten ext + totalProductsScraped v \<le> totalProductsScraped v'
           \<and> (r \<and> list_all writeOk ext
                \<longrightarrow> rowsWritten ext + totalProductsScraped v = totalProductsScraped v'))"
  using assms
proof (induction tree arbitrary: v s)
  case Nil
  then have e: "v' = v" "s' = s" "r" by simp_all
  show ?case
    using Nil.prems(2,3) unfolding e
    by (intro conjI exI [of _ "[]"]) (simp_all add: rowsWritten_def)
next
  case (Cons bm rest)
  obtain b models where bm: "bm = (b, models)" by (cases bm)
  let ?s0 = "console LOG ''Processing Brand'' s"
  obtain sig acc v1 s1 where ml: "modelLoop cfg env b models ([], v, ?s0) = (sig, acc, v1, s1)"
    by (cases "modelLoop cfg env b models ([], v, ?s0)")
  note m = modelLoop_inv [OF ml]
  have "quiet s ?s0" by simp
  then have q: "quiet s s1" using m by (blast intro: quiet_trans)
  obtain e1 where e1: "trace s1 = trace s @ e1" "batchWrites (isHeaderWritten v) e1"
    "headerAfter (isHeaderWritten v) e1 = isHeaderWritten v" "rowsWritten e1 = 0"
    "list_all writeOk e1" "outputFile s1 = outputFile s"
    using quiet_ext [OF q] by blast
  have h1: "isHeaderWritten v1 = isHeaderWritten v" using m by simp
  have t1: "totalProductsScraped v1 = totalProductsScraped v + length acc" using m by auto
  have b1: "enat (totalProductsScraped v1) \<le> MAX_TOTAL_PRODUCTS cfg" using m Cons.prems(3) by blast
  have f1: "fileInv v1 s1" using Cons.prems(2) h1 e1(6) by simp
  show ?case
  proof (cases "sig = BreakBrandLoop \<or> sig = Hangs")
    case True
    then have res: "v' = v1" "s' = s1" "r = (sig = BreakBrandLoop)"
      using Cons.prems(1) ml bm by auto
    have eq: "sig = BreakBrandLoop \<longrightarrow> totalProductsScraped v1 = totalProductsScraped v"
      using m by auto
    show ?thesis
      unfolding res
      using f1 b1 t1 e1 h1 eq by (intro conjI exI [of _ e1]) simp_all
  next
    case False
    obtain v2 s2 where sb: "saveBatch env acc (v1, s1) = (v2, s2)"
      by (cases "saveBatch env acc (v1, s1)")
    from saveBatch_inv [OF sb f1] obtain e2 where
      t2: "totalProductsScraped v2 = totalProductsScraped v1" and f2: "fileInv v2 s2"
      and e2: "trace s2 = trace s1 @ e2" "batchWrites (isHeaderWritten v1) e2"
        "isHeaderWritten v2 = headerAfter (isHeaderWritten v1) e2"
        "rowsWritten e2 \<le> length acc" "list_all writeOk e2 \<longrightarrow> rowsWritten e2 = length acc"
      by blast
    have b2: "enat (totalProductsScraped v2) \<le> MAX_TOTAL_PRODUCTS cfg" using b1 t2 by simp
    have bw12: "batchWrites (isHeaderWritten v) (e1 @ e2)"
      "isHeaderWritten v2 = headerAfter (isHeaderWritten v) (e1 @ e2)"
      using e1 e2 h1 by (simp_all add: batchWrites_append headerAfter_append)
    show ?thesis
    proof (cases "MAX_TOTAL_PRODUCTS cfg \<le> enat (totalProductsScraped v2)")
      case True
      let ?c = "Console LOG ''Reached MAX_TOTAL_PRODUCTS limit after processing brand. Stopping all scraping.''"
      have res: "v' = v2" "s' = console LOG ''Reached MAX_TOTAL_PRODUCTS limit after processing brand. Stopping all scraping.'' s2" "r"
        using Cons.prems(1) ml bm False sb True by (cases sig; simp)+
      have f': "fileInv v' s'" using f2 by (simp add: res)
      have tr: "trace s' = trace s @ (e1 @ e2 @ [?c])" by (simp add: res e1 e2)
      have bw: "batchWrites (isHeaderWritten v) (e1 @ e2 @ [?c])"
        "isHeaderWritten v' = headerAfter (isHeaderWritten v) (e1 @ e2 @ [?c])"
        using bw12 batchWrites_append [of "isHeaderWritten v" "e1 @ e2" "[?c]"]
          headerAfter_append [of "isHeaderWritten v" "e1 @ e2" "[?c]"]
        by (simp_all add: res)
      have rw: "rowsWritten (e1 @ e2 @ [?c]) = rowsWritten e2"
        using e1(4) by (simp add: rowsWritten_def rowsOfEvent_def)
      show ?thesis
      proof (intro conjI exI [of _ "e1 @ e2 @ [?c]"] impI)
        show "rowsWritten (e1 @ e2 @ [?c]) + totalProductsScraped v \<le> totalProductsScraped v'"
          unfolding rw using e2(4) t1 t2 by (simp add: res)
        show "rowsWritten (e1 @ e2 @ [?c]) + totalProductsScraped v = totalProductsScraped v'"
          if "r \<and> list_all writeOk (e1 @ e2 @ [?c])"
          unfolding rw using that e2(5) t1 t2 by (simp add: res)
        show "totalProductsScraped v \<le> totalProductsScraped v'" using t1 t2 by (simp add: res)
        show "enat (totalProductsScraped v') \<le> MAX_TOTAL_PRODUCTS cfg" using b2 by (simp add: res)
      qed (fact f' tr bw)+
    next
      case F2: False
      have rec: "brandLoop cfg env rest (v2, s2) = (r, v', s')"
        using Cons.prems(1) ml bm False sb F2 by (cases sig; simp)
      from Cons.IH [OF rec f2 b2] obtain e3 where
        f': "fileInv v' s'" and b': "enat (totalProductsScraped v') \<le> MAX_TOTAL_PRODUCTS cfg"
        and t3: "totalProductsScraped v2 \<le> totalProductsScraped v'"
        and e3: "trace s' = trace s2 @ e3" "batchWrites (isHeaderWritten v2) e3"
          "isHeaderWritten v' = headerAfter (isHeaderWritten v2) e3"
          "rowsWritten e3 + totalProductsScraped v2 \<le> totalProductsScraped v'"
          "r \<and> list_all writeOk e3 \<longrightarrow> rowsWritten e3 + totalProductsScraped v2 = totalProductsScraped v'"
        by blast
      have tr: "trace s' = trace s @ ((e1 @ e2) @ e3)" by (simp add: e1 e2 e3)
      have bw: "batchWrites (isHeaderWritten v) ((e1 @ e2) @ e3)"
        "isHeaderWritten v' = headerAfter (isHeaderWritten v) ((e1 @ e2) @ e3)"
        using bw12 e3(2,3) batchWrites_append [of "isHeaderWritten v" "e1 @ e2" e3]
          headerAfter_append [of "isHeaderWritten v" "e1 @ e2" e3]
        by simp_all
      have rw: "rowsWritten ((e1 @ e2) @ e3) = rowsWritten e2 + rowsWritten e3"
        using e1(4) by simp
      show ?thesis
      proof (intro conjI exI [of _ "(e1 @ e2) @ e3"] impI)
        show "rowsWritten ((e1 @ e2) @ e3) + totalProductsScraped v \<le> totalProductsScraped v'"
          unfolding rw using e2(4) e3(4) t1 t2 by simp
        show "rowsWritten ((e1 @ e2) @ e3) + totalProductsScraped v = totalProductsScraped v'"
          if "r \<and> list_all writeOk ((e1 @ e2) @ e3)"
          unfolding rw using that e2(5) e3(5) t1 t2 by simp
        show "totalProductsScraped v \<le> totalProductsScraped v'" using t1 t2 t3 by simp
      qed (fact f' b' tr bw)+
    qed
  qed
qed

lemma getBrandModelsData_Some:
  assumes "getBrandModelsData env s = (Some tree, s1)"
  shows "trace s1 = trace s @ [Console LOG ''Fetching brand/model data'', HttpGet DATA_SOURCE_URL,
            Console LOG ''Successfully parsed brand/model data.'']"
    "outputFile s1 = outputFile s"
  using assms
  by (auto simp: getBrandModelsData_def axiosGet_def console_def
        split: prod.splits option.splits brandModelsScript.splits)

lemma scrapeAllCars_None:
  assumes "getBrandModelsData env s = (None, s1)"
  shows "scrapeAllCars cfg env s =
           (True, \<lparr>isHeaderWritten = False, totalProductsScraped = 0\<rparr>,
            console ERROR ''Cannot proceed without brand/model data.'' s1)"
  using assms by (simp add: scrapeAllCars_def)

lemma scrapeAllCars_Some:
  assumes run: "scrapeAllCars cfg env s = (r, v, s')"
    and g: "getBrandModelsData env s = (Some tree, s1)"
    and fs: "fsOk env (world s1) = (ok, w)"
  shows "\<exists>rest. trace s' = trace s1 @ WriteFile [] ok # rest
       \<and> batchWrites False rest \<and> isHeaderWritten v = headerAfter False rest
       \<and> enat (totalProductsScraped v) \<le> MAX_TOTAL_PRODUCTS cfg
       \<and> rowsWritten rest \<le> totalProductsScraped v
       \<and> (r \<and> list_all writeOk rest \<longrightarrow> rowsWritten rest = totalProductsScraped v)
       \<and> (if ok then fileInv v s'
           else r \<and> v = \<lparr>isHeaderWritten = False, totalProductsScraped = 0\<rparr>
                \<and> outputFile s' = outputFile s1
                \<and> rest = [Console ERROR ''Error initializing output file''])"
proof (cases ok)
  case False
  have res: "r" "v = \<lparr>isHeaderWritten = False, totalProductsScraped = 0\<rparr>"
    "s' = console ERROR ''Error initializing output file''
           (s1\<lparr>world := w, trace := trace s1 @ [WriteFile [] False]\<rparr>)"
    using run g fs False by (simp_all add: scrapeAllCars_def writeFile_def)
  show ?thesis
    using False
    by (intro exI [of _ "[Console ERROR ''Error initializing output file'']"])
       (simp add: res rowsWritten_def rowsOfEvent_def writeOk_def zero_enat_def [symmetric])
next
  case True
  let ?v0 = "\<lparr>isHeaderWritten = False, totalProductsScraped = 0\<rparr>"
  let ?s2 = "s1\<lparr>world := w, trace := trace s1 @ [WriteFile [] True], outputFile := Some []\<rparr>"
  let ?s3 = "console LOG ''Starting scraping process for all cars...''
               (console LOG ''Initialized output file'' ?s2)"
  obtain r3 v3 s4 where bl: "brandLoop cfg env tree (?v0, ?s3) = (r3, v3, s4)"
    by (cases "brandLoop cfg env tree (?v0, ?s3)")
  have res: "r = r3" "v = v3"
    "s' = (if r3 then console LOG ''Output file'' (console LOG ''Scraping finished.'' s4) else s4)"
    using run g fs True bl by (cases r3; simp add: scrapeAllCars_def writeFile_def)+
  have i0: "fileInv ?v0 ?s3" by simp
  have b0: "enat (totalProductsScraped ?v0) \<le> MAX_TOTAL_PRODUCTS cfg"
    by (simp add: zero_enat_def [symmetric])
  have "fileInv v3 s4 \<and> enat (totalProductsScraped v3) \<le> MAX_TOTAL_PRODUCTS cfg
    \<and> (\<exists>ext. trace s4 = trace ?s3 @ ext \<and> batchWrites False ext
           \<and> isHeaderWritten v3 = headerAfter False ext
           \<and> rowsWritten ext \<le> totalProductsScraped v3
           \<and> (r3 \<and> list_all writeOk ext \<longrightarrow> rowsWritten ext = totalProductsScraped v3))"
    using brandLoop_inv [OF bl i0 b0] by simp
  then obtain ext where
    f: "fileInv v3 s4" and b: "enat (totalProductsScraped v3) \<le> MAX_TOTAL_PRODUCTS cfg"
    and e: "trace s4 = trace ?s3 @ ext" "batchWrites False ext"
      "isHeaderWritten v3 = headerAfter False ext"
      "rowsWritten ext \<le> totalProductsScraped v3"
      "r3 \<and> list_all writeOk ext \<longrightarrow> rowsWritten ext = totalProductsScraped v3"
    by blast
  let ?pre = "[Console LOG ''Initialized output file'',
               Console LOG ''Starting scraping process for all cars...'']"
  let ?post = "if r3 then [Console LOG ''Scraping finished.'', Console LOG ''Output file''] else []"
  let ?rest = "?pre @ ext @ ?post"
  have tr: "trace s' = trace s1 @ WriteFile [] ok # ?rest"
    using e(1) True by (simp add: res)
  have bw: "batchWrites False ?rest" "headerAfter False ?rest = headerAfter False ext"
    using e(2) by (cases r3; simp add: batchWrites_append headerAfter_append)+
  have rw: "rowsWritten ?rest = rowsWritten ext"
    by (cases r3) (simp_all add: rowsWritten_def rowsOfEvent_def)
  have wo: "list_all writeOk ?rest = list_all writeOk ext"
    by (cases r3) (simp_all add: writeOk_def)
  have fi: "fileInv v s'" using f by (simp add: res)
  show ?thesis
  proof (intro exI [of _ ?rest] conjI impI)
    show "trace s' = trace s1 @ WriteFile [] ok # ?rest" by (fact tr)
    show "batchWrites False ?rest" by (fact bw(1))
    show "isHeaderWritten v = headerAfter False ?rest" unfolding bw(2) using e(3) by (simp add: res)
    show "enat (totalProductsScraped v) \<le> MAX_TOTAL_PRODUCTS cfg" using b by (simp add: res)
    show "rowsWritten ?rest \<le> totalProductsScraped v" unfolding rw using e(4) by (simp add: res)
    show "rowsWritten ?rest = totalProductsScraped v" if "r \<and> list_all writeOk ?rest"
      using that e(5) unfolding rw wo by (simp add: res)
    show "if ok then fileInv v s'
           else r \<and> v = \<lparr>isHeaderWritten = False, totalProductsScraped = 0\<rparr>
                \<and> outputFile s' = outputFile s1
                \<and> ?rest = [Console ERROR ''Error initializing output file'']"
      using True fi by simp
  qed
qed

lemma dataRecords_Nil [simp]: "dataRecords [] = []"
  by (simp add: dataRecords_def csvRecords_def)

lemma scrapeAllCars_events:
  assumes run: "scrapeAllCars cfg env s = (r, v, s')"
  shows "\<exists>new. trace s' = trace s @ new
     \<and> enat (totalProductsScraped v) \<le> MAX_TOTAL_PRODUCTS cfg
     \<and> rowsWritten new \<le> totalProductsScraped v
     \<and> (r \<and> list_all writeOk new \<longrightarrow> rowsWritten new = totalProductsScraped v)
     \<and> batchWrites False (drop 1 (dropWhile (\<lambda>e. \<not> isFsEvent e) new))
     \<and> isHeaderWritten v = headerAfter False (drop 1 (dropWhile (\<lambda>e. \<not> isFsEvent e) new))
     \<and> (isHeaderWritten v \<longrightarrow>
          (\<exists>rows. rows \<noteq> [] \<and> list_all isDataRow rows
             \<and> outputFile s' = Some (joinWith CRLF (csvRow headerFields # map csvRow rows))))"
proof -
  obtain t s1 where g: "getBrandModelsData env s = (t, s1)" by (cases "getBrandModelsData env s")
  show ?thesis
  proof (cases t)
    case None
    have q: "quiet s s1" using quiet_getBrandModelsData [of s env] g by simp
    obtain ext where ext: "trace s1 = trace s @ ext" "fsEvents ext = []"
      using quietD(2) [OF q] by blast
    have res: "r" "v = \<lparr>isHeaderWritten = False, totalProductsScraped = 0\<rparr>"
      "s' = console ERROR ''Cannot proceed without brand/model data.'' s1"
      using scrapeAllCars_None [of env s s1 cfg] g None run by simp_all
    let ?new = "ext @ [Console ERROR ''Cannot proceed without brand/model data.'']"
    have nf: "dropWhile (\<lambda>e. \<not> isFsEvent e) ?new = []"
      using ext(2) by (auto simp: fsEvents_def filter_empty_conv isFsEvent_def)
    have rw: "rowsWritten ?new = 0"
      using quiet_events [OF ext(2), of False] by (simp add: rowsWritten_def rowsOfEvent_def)
    show ?thesis
      unfolding res
      by (intro exI [of _ ?new] conjI impI; (unfold nf rw)?)
         (simp_all add: ext zero_enat_def [symmetric])
  next
    case (Some tree)
    obtain ok w where fs: "fsOk env (world s1) = (ok, w)" by (cases "fsOk env (world s1)")
    note g' = g [unfolded Some]
    let ?pre = "[Console LOG ''Fetching brand/model data'', HttpGet DATA_SOURCE_URL,
                 Console LOG ''Successfully parsed brand/model data.'']"
    from scrapeAllCars_Some [OF run g' fs] obtain rest where
      e: "trace s' = trace s1 @ WriteFile [] ok # rest" "batchWrites False rest"
        "isHeaderWritten v = headerAfter False rest"
        "enat (totalProductsScraped v) \<le> MAX_TOTAL_PRODUCTS cfg"
        "rowsWritten rest \<le> totalProductsScraped v"
        "r \<and> list_all writeOk rest \<longrightarrow> rowsWritten rest = totalProductsScraped v"
      and f: "if ok then fileInv v s'
           else r \<and> v = \<lparr>isHeaderWritten = False, totalProductsScraped = 0\<rparr>
                \<and> outputFile s' = outputFile s1
                \<and> rest = [Console ERROR ''Error initializing output file'']"
      by blast
    let ?new = "?pre @ WriteFile [] ok # rest"
    have tr: "trace s' = trace s @ ?new"
      using e(1) getBrandModelsData_Some(1) [OF g'] by simp
    have dw: "drop 1 (dropWhile (\<lambda>e. \<not> isFsEvent e) ?new) = rest"
      by (simp add: isFsEvent_def)
    have rw: "rowsWritten ?new = rowsWritten rest"
      by (simp add: rowsWritten_def rowsOfEvent_def)
    have wo: "list_all writeOk ?new \<Longrightarrow> list_all writeOk rest" by simp
    have hw: "\<exists>rows. rows \<noteq> [] \<and> list_all isDataRow rows
             \<and> outputFile s' = Some (joinWith CRLF (csvRow headerFields # map csvRow rows))"
      if "isHeaderWritten v"
      using f that by (cases ok) auto
    show ?thesis
    proof (intro exI [of _ ?new] conjI impI; (unfold dw rw)?)
      show "rowsWritten rest = totalProductsScraped v" if "r \<and> list_all writeOk ?new"
        using that wo e(6) by blast
    qed (use tr e hw in blast)+
  qed
qed

section \<open>A run over two brands with a budget of five products\<close>

lemma carSite_page:
  "u \<noteq> DATA_SOURCE_URL \<Longrightarrow>
   scrapeCarCatalogPage (staticEnv (carSite tree)) u b m y s =
     ((fourProducts b m y, None),
      s\<lparr>trace := trace s @ [Console LOG '' -> Fetching catalog page'', HttpGet u]\<rparr>)"
  by (simp add: scrapeCarCatalogPage_def staticEnv_def carSite_def axiosGet_def fourItemPage_def
        emptyPage_def emptyItem_def carCatalogItem_def siteCodeOf_def priceOf_def resolveOrWarn_def
        stockOf_def nextPageOf_def orNull_def trim_def isWhiteSpace_def replaceWhiteSpace_def
        console_def Let_def fourProducts_def)

lemma staticEnv_simps [simp]:
  "encodeURIComponent (staticEnv site) t = t"
  "fsOk (staticEnv site) w = (True, w)"
  "httpGet (staticEnv site) w url = (site url, w)"
  by (simp_all add: staticEnv_def)

lemma carSite_loop:
  assumes "MAX_PRODUCTS_PER_CAR cfg = \<infinity>" "u \<noteq> DATA_SOURCE_URL" "u \<noteq> []"
  shows "carLoop cfg (staticEnv (carSite tree)) b m y
           (\<lparr>carProducts = [], currentCarCatalogUrl = Some u, productCountForCar = 0,
             pageCountForCar = 0\<rparr>, console LOG ''--- Scraping Car'' s) =
      Some (\<lparr>carProducts = fourProducts b m y, currentCarCatalogUrl = None,
              productCountForCar = 4, pageCountForCar = 1\<rparr>,
            s\<lparr>trace := trace s @ butlast (leafEvents u)\<rparr>)"
proof -
  let ?env = "staticEnv (carSite tree)"
  let ?v0 = "\<lparr>carProducts = [], currentCarCatalogUrl = Some u, productCountForCar = 0,
              pageCountForCar = 0\<rparr> :: nat carState"
  let ?s0 = "console LOG ''--- Scraping Car'' s"
  have st: "carStep cfg ?env b m y u (?v0, ?s0) =
      (True, \<lparr>carProducts = fourProducts b m y, currentCarCatalogUrl = None,
              productCountForCar = 4, pageCountForCar = 1\<rparr>,
       s\<lparr>trace := trace s @ butlast (leafEvents u)\<rparr>)"
    using assms(1)
    by (simp add: carStep_def carSite_page [OF assms(2)] Let_def fourProducts_def console_def
          leafEvents_def)
  show ?thesis
    using assms(1,3)
    by (subst carLoop.simps, simp add: st Let_def) (subst carLoop.simps, simp)
qed

lemma carSite_leaf:
  assumes "MAX_PRODUCTS_PER_CAR cfg = \<infinity>"
  shows "scrapeSingleCar cfg (staticEnv (carSite tree)) b m y s =
     Some (fourProducts b m y,
           s\<lparr>trace := trace s @ leafEvents (BASE_URL @ ''/katalogs/?brand='' @ b @ ''&model='' @ m
                                               @ ''&year='' @ y)\<rparr>)"
proof -
  let ?u = "BASE_URL @ ''/katalogs/?brand='' @ b @ ''&model='' @ m @ ''&year='' @ y"
  have u: "?u \<noteq> DATA_SOURCE_URL" "?u \<noteq> []"
    by (simp_all add: BASE_URL_def DATA_SOURCE_URL_def)
  have e: "leafEvents ?u = butlast (leafEvents ?u) @ [Console LOG ''--- Finished Car'']"
    by (simp add: leafEvents_def)
  show ?thesis
    unfolding scrapeSingleCar_def Let_def staticEnv_simps carSite_loop [OF assms u]
    by (subst e) (simp add: console_def)
qed

lemma convertBatch_text:
  assumes "ps \<noteq> []"
  shows "trim (convertBatchToWooCommerceCSV env ps False) \<noteq> []"
    "convertBatchToWooCommerceCSV env ps True \<noteq> []"
    "convertBatchToWooCommerceCSV env ps True
       = joinWith CRLF (csvRow headerFields # map csvRow (batchRows env ps))"
    "convertBatchToWooCommerceCSV env ps False = joinWith CRLF (map csvRow (batchRows env ps))"
proof -
  have rows: "batchRows env ps \<noteq> []" "list_all isDataRow (batchRows env ps)"
    using assms isDataRow_batchRows by simp_all
  show d: "convertBatchToWooCommerceCSV env ps False = joinWith CRLF (map csvRow (batchRows env ps))"
    using assms by (simp add: convertBatch_unparse unparse_def)
  show h: "convertBatchToWooCommerceCSV env ps True
       = joinWith CRLF (csvRow headerFields # map csvRow (batchRows env ps))"
    using assms by (simp add: convertBatch_unparse unparse_def)
  show "trim (convertBatchToWooCommerceCSV env ps False) \<noteq> []"
    unfolding d using trim_nonempty [OF quote_not_space csvRecords_rows_only(3) [OF rows]] .
  show "convertBatchToWooCommerceCSV env ps True \<noteq> []"
    unfolding h
    using joinWith_nonempty [of "csvRow headerFields # map csvRow (batchRows env ps)" CRLF]
      header_text_nonempty by simp
qed

lemma saveBatch_static:
  assumes "ps \<noteq> []"
  shows "\<not> isHeaderWritten v \<Longrightarrow> saveBatch (staticEnv site) ps (v, s) =
     (v\<lparr>isHeaderWritten := True\<rparr>,
      s\<lparr>trace := trace s @ [Console LOG ''Converting and saving batch for Brand'',
                   WriteFile (convertBatchToWooCommerceCSV (staticEnv site) ps True) True,
                   Console LOG '' -> Header written and first batch saved.''],
        outputFile := Some (convertBatchToWooCommerceCSV (staticEnv site) ps True)\<rparr>)"
    "isHeaderWritten v \<Longrightarrow> outputFile s = Some old \<Longrightarrow> old \<noteq> [] \<Longrightarrow>
     saveBatch (staticEnv site) ps (v, s) =
     (v,
      s\<lparr>trace := trace s @ [Console LOG ''Converting and saving batch for Brand'',
                   AppendFile (CRLF @ convertBatchToWooCommerceCSV (staticEnv site) ps False) True,
                   Console LOG '' -> Appended batch.''],
        outputFile := Some (old @ CRLF @ convertBatchToWooCommerceCSV (staticEnv site) ps False)\<rparr>)"
proof -
  show "\<not> isHeaderWritten v \<Longrightarrow> saveBatch (staticEnv site) ps (v, s) =
     (v\<lparr>isHeaderWritten := True\<rparr>,
      s\<lparr>trace := trace s @ [Console LOG ''Converting and saving batch for Brand'',
                   WriteFile (convertBatchToWooCommerceCSV (staticEnv site) ps True) True,
                   Console LOG '' -> Header written and first batch saved.''],
        outputFile := Some (convertBatchToWooCommerceCSV (staticEnv site) ps True)\<rparr>)"
    using saveBatch_first [OF assms, of v "staticEnv site" s True "world s"] by simp
  show "isHeaderWritten v \<Longrightarrow> outputFile s = Some old \<Longrightarrow> old \<noteq> [] \<Longrightarrow>
     saveBatch (staticEnv site) ps (v, s) =
     (v,
      s\<lparr>trace := trace s @ [Console LOG ''Converting and saving batch for Brand'',
                   AppendFile (CRLF @ convertBatchToWooCommerceCSV (staticEnv site) ps False) True,
                   Console LOG '' -> Appended batch.''],
        outputFile := Some (old @ CRLF @ convertBatchToWooCommerceCSV (staticEnv site) ps False)\<rparr>)"
    using saveBatch_later [OF assms, of v "staticEnv site" s True "world s"]
      convertBatch_text(1) [OF assms, of "staticEnv site"] by simp
qed

lemma fourProducts_simps [simp]:
  "length (fourProducts b m y) = 4" "fourProducts b m y \<noteq> []"
  by (simp_all add: fourProducts_def)

lemma budget5_simps [simp]:
  "MAX_TOTAL_PRODUCTS budget5 = enat 5" "MAX_PRODUCTS_PER_CAR budget5 = \<infinity>"
  by (simp_all add: budget5_def sourceConfig_def numeral_eq_enat)

lemma scenario_run:
  "scrapeAllCars budget5 (staticEnv (carSite twoBrands)) io0 =
     (True, \<lparr>isHeaderWritten = True, totalProductsScraped = 5\<rparr>,
      \<lparr>world = (),
       trace =
         [Console LOG ''Fetching brand/model data'', HttpGet DATA_SOURCE_URL,
          Console LOG ''Successfully parsed brand/model data.'',
          WriteFile [] True,
          Console LOG ''Initialized output file'',
          Console LOG ''Starting scraping process for all cars...'',
          Console LOG ''Processing Brand'']
         @ leafEvents (BASE_URL @ ''/katalogs/?brand=AD&model=A4&year=2000'')
         @ [Console LOG ''Converting and saving batch for Brand'',
            WriteFile (convertBatchToWooCommerceCSV (staticEnv (carSite twoBrands))
                         (fourProducts ''AD'' ''A4'' ''2000'') True) True,
            Console LOG '' -> Header written and first batch saved.'',
            Console LOG ''Processing Brand'']
         @ leafEvents (BASE_URL @ ''/katalogs/?brand=VW&model=Golf&year=2001'')
         @ [Console LOG ''Reached MAX_TOTAL_PRODUCTS limit during this car.'',
            Console LOG ''Converting and saving batch for Brand'',
            AppendFile (CRLF @ convertBatchToWooCommerceCSV (staticEnv (carSite twoBrands))
                         (take 1 (fourProducts ''VW'' ''Golf'' ''2001'')) False) True,
            Console LOG '' -> Appended batch.'',
            Console LOG ''Reached MAX_TOTAL_PRODUCTS limit after processing brand. Stopping all scraping.'',
            Console LOG ''Scraping finished.'', Console LOG ''Output file''],
       outputFile = Some scenarioFile\<rparr>)"
proof -
  let ?env = "staticEnv (carSite twoBrands)"
  have g: "getBrandModelsData ?env io0 =
      (Some twoBrands,
       io0\<lparr>trace := [Console LOG ''Fetching brand/model data'', HttpGet DATA_SOURCE_URL,
          Console LOG ''Successfully parsed brand/model data.'']\<rparr>)"
    by (simp add: getBrandModelsData_def axiosGet_def console_def carSite_def emptyPage_def io0_def)
  have t1: "take 1 (fourProducts ''VW'' ''Golf'' ''2001'') \<noteq> []"
    by (simp add: fourProducts_def)
  have ne: "convertBatchToWooCommerceCSV ?env (fourProducts ''AD'' ''A4'' ''2000'') True \<noteq> []"
    by (rule convertBatch_text(2)) simp
  show ?thesis
    unfolding scrapeAllCars_def g
    using ne t1
    by (simp add: writeFile_def twoBrands_def carSite_leaf slice0_def
          saveBatch_static Let_def io0_def scenarioFile_def BASE_URL_def)
qed

section \<open>The output file of the grouped program\<close>

lemma scrapeAllCars_file:
  assumes "scrapeAllCars cfg env s = (r, v, s')" "isHeaderWritten v"
  shows "\<exists>text. outputFile s' = Some text \<and> withHeader text \<and> 2 \<le> length (csvRecords text)"
proof -
  from scrapeAllCars_events [OF assms(1)] assms(2) obtain rows where
    rows: "rows \<noteq> []" "list_all isDataRow rows"
      "outputFile s' = Some (joinWith CRLF (csvRow headerFields # map csvRow rows))"
    by blast
  have "2 \<le> length (csvRecords (joinWith CRLF (csvRow headerFields # map csvRow rows)))"
    unfolding csvRecords_with_header using rows(1) by (cases rows) simp_all
  then show ?thesis using rows(3) withHeader_batch(1) [OF rows(2)] by blast
qed


lemma yearLoop_leaf:
  assumes lt: "enat (totalProductsScraped v0) < MAX_TOTAL_PRODUCTS cfg"
    and leaf: "scrapeSingleCar cfg env b m y s = Some (ps, s1)"
  shows "case yearLoop cfg env b m [y] (acc, v0, s) of (sig, acc', v', s') \<Rightarrow>
        acc' = acc @ slice0 ps (MAX_TOTAL_PRODUCTS cfg - enat (totalProductsScraped v0))
      \<and> totalProductsScraped v' = totalProductsScraped v0 + (length acc' - length acc)
      \<and> enat (totalProductsScraped v') =
           min (enat (totalProductsScraped v0 + length ps)) (MAX_TOTAL_PRODUCTS cfg)
      \<and> (sig = Next) = (enat (totalProductsScraped v0 + length ps) < MAX_TOTAL_PRODUCTS cfg)"
proof (cases "MAX_TOTAL_PRODUCTS cfg")
  case (enat k)
  then have "totalProductsScraped v0 < k" using lt by simp
  then show ?thesis
    by (auto simp: enat leaf Let_def slice0_def min_def)
next
  case infinity
  then show ?thesis
    by (simp add: leaf Let_def slice0_def)
qed

text \<open>
  C2. In every run of \<open>scrapeAllCars\<close> the counter \<open>totalProductsScraped\<close> stays within
  \<open>MAX_TOTAL_PRODUCTS\<close>, and the number of product rows that the successful writes and
  appends of the run carry is at most that counter; it is equal to the counter when the
  run returns and no operation on the file fails. A leaf (one call of \<open>scrapeSingleCar\<close>)
  that is reached below the budget contributes exactly the first
  \<open>MAX_TOTAL_PRODUCTS - totalProductsScraped\<close> of its products: afterwards the counter is
  the smaller of the budget and the counter plus the yield of the leaf, and the loop goes
  on to the next leaf only if the budget is not reached.
\<close>

theorem rows_written_within_budget:
  "(case scrapeAllCars cfg env s of (r, v, s') \<Rightarrow>
       enat (totalProductsScraped v) \<le> MAX_TOTAL_PRODUCTS cfg
     \<and> take (length (trace s)) (trace s') = trace s
     \<and> rowsWritten (drop (length (trace s)) (trace s')) \<le> totalProductsScraped v
     \<and> (r \<and> list_all writeOk (drop (length (trace s)) (trace s')) \<longrightarrow>
          rowsWritten (drop (length (trace s)) (trace s')) = totalProductsScraped v))
   \<and> (enat (totalProductsScraped v0) < MAX_TOTAL_PRODUCTS cfg
        \<and> scrapeSingleCar cfg env b m y s = Some (ps, s1) \<longrightarrow>
       (case yearLoop cfg env b m [y] (acc, v0, s) of (sig, acc', v', s') \<Rightarrow>
          acc' = acc @ slice0 ps (MAX_TOTAL_PRODUCTS cfg - enat (totalProductsScraped v0))
        \<and> totalProductsScraped v' = totalProductsScraped v0 + (length acc' - length acc)
        \<and> enat (totalProductsScraped v') =
             min (enat (totalProductsScraped v0 + length ps)) (MAX_TOTAL_PRODUCTS cfg)
        \<and> (sig = Next) = (enat (totalProductsScraped v0 + length ps) < MAX_TOTAL_PRODUCTS cfg)))"
proof (intro conjI impI)
  obtain r v s' where run: "scrapeAllCars cfg env s = (r, v, s')"
    by (cases "scrapeAllCars cfg env s")
  from scrapeAllCars_events [OF run] obtain new where
    n: "trace s' = trace s @ new" "enat (totalProductsScraped v) \<le> MAX_TOTAL_PRODUCTS cfg"
      "rowsWritten new \<le> totalProductsScraped v"
      "r \<and> list_all writeOk new \<longrightarrow> rowsWritten new = totalProductsScraped v"
    by blast
  show "case scrapeAllCars cfg env s of (r, v, s') \<Rightarrow>
       enat (totalProductsScraped v) \<le> MAX_TOTAL_PRODUCTS cfg
     \<and> take (length (trace s)) (trace s') = trace s
     \<and> rowsWritten (drop (length (trace s)) (trace s')) \<le> totalProductsScraped v
     \<and> (r \<and> list_all writeOk (drop (length (trace s)) (trace s')) \<longrightarrow>
          rowsWritten (drop (length (trace s)) (trace s')) = totalProductsScraped v)"
    using n by (simp add: run)
next
  assume a: "enat (totalProductsScraped v0) < MAX_TOTAL_PRODUCTS cfg
        \<and> scrapeSingleCar cfg env b m y s = Some (ps, s1)"
  show "case yearLoop cfg env b m [y] (acc, v0, s) of (sig, acc', v', s') \<Rightarrow>
          acc' = acc @ slice0 ps (MAX_TOTAL_PRODUCTS cfg - enat (totalProductsScraped v0))
        \<and> totalProductsScraped v' = totalProductsScraped v0 + (length acc' - length acc)
        \<and> enat (totalProductsScraped v') =
             min (enat (totalProductsScraped v0 + length ps)) (MAX_TOTAL_PRODUCTS cfg)
        \<and> (sig = Next) = (enat (totalProductsScraped v0 + length ps) < MAX_TOTAL_PRODUCTS cfg)"
    by (rule yearLoop_leaf [OF conjunct1 [OF a] conjunct2 [OF a]])
qed

lemma saveBatch_data:
  assumes "ps \<noteq> []"
  shows "withHeader (convertBatchToWooCommerceCSV env ps True)"
    "rowsOnly (convertBatchToWooCommerceCSV env ps False)"
    "rowsOnly (CRLF @ convertBatchToWooCommerceCSV env ps False)"
    "length (dataRecords (convertBatchToWooCommerceCSV env ps True)) = length ps"
    "length (dataRecords (convertBatchToWooCommerceCSV env ps False)) = length ps"
proof -
  have rows: "batchRows env ps \<noteq> []" "list_all isDataRow (batchRows env ps)"
    using assms isDataRow_batchRows by simp_all
  note t = convertBatch_text(3,4) [OF assms, of env]
  show "withHeader (convertBatchToWooCommerceCSV env ps True)"
    unfolding t using withHeader_batch(1) [OF rows(2)] .
  show "rowsOnly (convertBatchToWooCommerceCSV env ps False)"
    unfolding t using rowsOnly_batch(3) [OF rows] .
  show "rowsOnly (CRLF @ convertBatchToWooCommerceCSV env ps False)"
    unfolding t using rowsOnly_batch(1) [OF rows] .
  show "length (dataRecords (convertBatchToWooCommerceCSV env ps True)) = length ps"
    unfolding t using withHeader_batch(2) [OF rows(2)] by simp
  show "length (dataRecords (convertBatchToWooCommerceCSV env ps False)) = length ps"
    unfolding t using rowsOnly_batch(4) [OF rows] by simp
qed

text \<open>
  C4. In every run of \<open>scrapeAllCars\<close> the operations on the output file after its
  initialisation follow \<open>batchWrites\<close>: as long as no batch was written with success, a
  batch is written with \<open>fs.writeFile\<close> and its data start with the header row, which
  occurs once in them; after the first successful write every batch is appended with
  \<open>fs.appendFile\<close>, its data without a header row. \<open>isHeaderWritten\<close> is true at the end
  exactly when a batch write has succeeded, and then the file starts with the header row,
  which occurs exactly once among its records and is followed by at least one row. The
  last two parts are the state after saving one batch that is not empty, first without
  and then with a header written before: the record separator CR LF is put before the
  appended rows exactly when the file exists and is not empty.
\<close>

theorem header_row_written_once:
  "(case scrapeAllCars cfg env s of (r, v, s') \<Rightarrow>
       batchWrites False (drop 1 (dropWhile (\<lambda>e. \<not> isFsEvent e) (drop (length (trace s)) (trace s'))))
     \<and> isHeaderWritten v
         = headerAfter False (drop 1 (dropWhile (\<lambda>e. \<not> isFsEvent e) (drop (length (trace s)) (trace s'))))
     \<and> (isHeaderWritten v \<longrightarrow>
          (\<exists>text. outputFile s' = Some text \<and> withHeader text \<and> 2 \<le> length (csvRecords text))))
   \<and> (ps \<noteq> [] \<and> \<not> isHeaderWritten v0 \<longrightarrow>
        saveBatch env ps (v0, s) =
          ((if fst (fsOk env (world s)) then v0\<lparr>isHeaderWritten := True\<rparr> else v0),
           s\<lparr>world := snd (fsOk env (world s)),
             trace := trace s @ [Console LOG ''Converting and saving batch for Brand'',
                        WriteFile (convertBatchToWooCommerceCSV env ps True) (fst (fsOk env (world s))),
                        (if fst (fsOk env (world s))
                         then Console LOG '' -> Header written and first batch saved.''
                         else Console ERROR ''Error converting or writing batch CSV for brand'')],
             outputFile := (if fst (fsOk env (world s))
                            then Some (convertBatchToWooCommerceCSV env ps True) else outputFile s)\<rparr>)
        \<and> withHeader (convertBatchToWooCommerceCSV env ps True))
   \<and> (ps \<noteq> [] \<and> isHeaderWritten v0 \<longrightarrow>
        saveBatch env ps (v0, s) =
          (v0,
           s\<lparr>world := snd (fsOk env (world s)),
             trace := trace s @ [Console LOG ''Converting and saving batch for Brand'',
                        AppendFile ((if outputFile s = None \<or> outputFile s = Some [] then [] else CRLF)
                                     @ convertBatchToWooCommerceCSV env ps False)
                                   (fst (fsOk env (world s))),
                        (if fst (fsOk env (world s)) then Console LOG '' -> Appended batch.''
                         else Console ERROR ''Error converting or writing batch CSV for brand'')],
             outputFile := (if fst (fsOk env (world s))
                then Some ((case outputFile s of None \<Rightarrow> [] | Some c \<Rightarrow> c)
                           @ (if outputFile s = None \<or> outputFile s = Some [] then [] else CRLF)
                           @ convertBatchToWooCommerceCSV env ps False)
                else outputFile s)\<rparr>)
        \<and> rowsOnly (convertBatchToWooCommerceCSV env ps False)
        \<and> rowsOnly (CRLF @ convertBatchToWooCommerceCSV env ps False))"
proof (intro conjI impI)
  obtain r v s' where run: "scrapeAllCars cfg env s = (r, v, s')"
    by (cases "scrapeAllCars cfg env s")
  from scrapeAllCars_events [OF run] obtain new where
    n: "trace s' = trace s @ new"
      "batchWrites False (drop 1 (dropWhile (\<lambda>e. \<not> isFsEvent e) new))"
      "isHeaderWritten v = headerAfter False (drop 1 (dropWhile (\<lambda>e. \<not> isFsEvent e) new))"
    by blast
  have f: "isHeaderWritten v \<longrightarrow>
          (\<exists>text. outputFile s' = Some text \<and> withHeader text \<and> 2 \<le> length (csvRecords text))"
    using scrapeAllCars_file [OF run] by blast
  show "case scrapeAllCars cfg env s of (r, v, s') \<Rightarrow>
       batchWrites False (drop 1 (dropWhile (\<lambda>e. \<not> isFsEvent e) (drop (length (trace s)) (trace s'))))
     \<and> isHeaderWritten v
         = headerAfter False (drop 1 (dropWhile (\<lambda>e. \<not> isFsEvent e) (drop (length (trace s)) (trace s'))))
     \<and> (isHeaderWritten v \<longrightarrow>
          (\<exists>text. outputFile s' = Some text \<and> withHeader text \<and> 2 \<le> length (csvRecords text)))"
    using n f by (simp add: run)
next
  assume a: "ps \<noteq> [] \<and> \<not> isHeaderWritten v0"
  show "saveBatch env ps (v0, s) =
          ((if fst (fsOk env (world s)) then v0\<lparr>isHeaderWritten := True\<rparr> else v0),
           s\<lparr>world := snd (fsOk env (world s)),
             trace := trace s @ [Console LOG ''Converting and saving batch for Brand'',
                        WriteFile (convertBatchToWooCommerceCSV env ps True) (fst (fsOk env (world s))),
                        (if fst (fsOk env (world s))
                         then Console LOG '' -> Header written and first batch saved.''
                         else Console ERROR ''Error converting or writing batch CSV for brand'')],
             outputFile := (if fst (fsOk env (world s))
                            then Some (convertBatchToWooCommerceCSV env ps True) else outputFile s)\<rparr>)"
    using a by (intro saveBatch_first) simp_all
  show "withHeader (convertBatchToWooCommerceCSV env ps True)"
    using a saveBatch_data(1) by blast
next
  assume a: "ps \<noteq> [] \<and> isHeaderWritten v0"
  show "saveBatch env ps (v0, s) =
          (v0,
           s\<lparr>world := snd (fsOk env (world s)),
             trace := trace s @ [Console LOG ''Converting and saving batch for Brand'',
                        AppendFile ((if outputFile s = None \<or> outputFile s = Some [] then [] else CRLF)
                                     @ convertBatchToWooCommerceCSV env ps False)
                                   (fst (fsOk env (world s))),
                        (if fst (fsOk env (world s)) then Console LOG '' -> Appended batch.''
                         else Console ERROR ''Error converting or writing batch CSV for brand'')],
             outputFile := (if fst (fsOk env (world s))
                then Some ((case outputFile s of None \<Rightarrow> [] | Some c \<Rightarrow> c)
                           @ (if outputFile s = None \<or> outputFile s = Some [] then [] else CRLF)
                           @ convertBatchToWooCommerceCSV env ps False)
                else outputFile s)\<rparr>)"
    using a convertBatch_text(1) [of ps env] by (intro saveBatch_later) simp_all
  show "rowsOnly (convertBatchToWooCommerceCSV env ps False)"
    using a saveBatch_data(2) by blast
  show "rowsOnly (CRLF @ convertBatchToWooCommerceCSV env ps False)"
    using a saveBatch_data(3) by blast
qed



lemma scenario_leaf:
  "scrapeSingleCar budget5 (staticEnv (carSite twoBrands)) b m y io0 =
     Some (fourProducts b m y,
           io0\<lparr>trace := trace io0 @ leafEvents (BASE_URL @ ''/katalogs/?brand='' @ b @ ''&model='' @ m
                                               @ ''&year='' @ y)\<rparr>)"
  by (rule carSite_leaf) simp

theorem rows_written_within_budget_witness:
  "fst (scrapeAllCars budget5 (staticEnv (carSite twoBrands)) io0)
   \<and> list_all writeOk (trace (snd (snd (scrapeAllCars budget5 (staticEnv (carSite twoBrands)) io0))))
   \<and> totalProductsScraped (fst (snd (scrapeAllCars budget5 (staticEnv (carSite twoBrands)) io0))) = 5
   \<and> rowsWritten (trace (snd (snd (scrapeAllCars budget5 (staticEnv (carSite twoBrands)) io0)))) = 5
   \<and> (case yearLoop budget5 (staticEnv (carSite twoBrands)) ''AD'' ''A4'' [''2000'']
              ([], \<lparr>isHeaderWritten = False, totalProductsScraped = 0\<rparr>, io0) of
         (sig, acc', v', s') \<Rightarrow> (sig = Next, length acc', totalProductsScraped v')) = (True, 4, 4)
   \<and> (case yearLoop budget5 (staticEnv (carSite twoBrands)) ''VW'' ''Golf'' [''2001'']
              ([], \<lparr>isHeaderWritten = True, totalProductsScraped = 4\<rparr>, io0) of
         (sig, acc', v', s') \<Rightarrow> (sig = Next, length acc', totalProductsScraped v')) = (False, 1, 5)"
proof -
  have r: "fst (scrapeAllCars budget5 (staticEnv (carSite twoBrands)) io0)" "totalProductsScraped (fst (snd (scrapeAllCars budget5 (staticEnv (carSite twoBrands)) io0))) = 5"
    by (simp_all add: scenario_run)
  have t0: "trace io0 = []" by (simp add: io0_def)
  have w: "list_all writeOk (trace (snd (snd (scrapeAllCars budget5 (staticEnv (carSite twoBrands)) io0))))"
    by (simp add: scenario_run writeOk_def leafEvents_def)
  have n: "rowsWritten (trace (snd (snd (scrapeAllCars budget5 (staticEnv (carSite twoBrands)) io0)))) = 5"
    using rows_written_within_budget
            [where cfg = budget5 and env = "staticEnv (carSite twoBrands)" and s = io0] r w
    by (simp add: case_prod_beta t0)
  have l1: "(case yearLoop budget5 (staticEnv (carSite twoBrands)) ''AD'' ''A4'' [''2000'']
              ([], \<lparr>isHeaderWritten = False, totalProductsScraped = 0\<rparr>, io0) of
         (sig, acc', v', s') \<Rightarrow> (sig = Next, length acc', totalProductsScraped v')) = (True, 4, 4)"
    using rows_written_within_budget
            [where cfg = budget5 and env = "staticEnv (carSite twoBrands)" and s = io0
               and ?v0.0 = "\<lparr>isHeaderWritten = False, totalProductsScraped = 0\<rparr>"
               and b = "''AD''" and m = "''A4''" and y = "''2000''" and acc = "[]"
               and ps = "fourProducts ''AD'' ''A4'' ''2000''"]
          scenario_leaf [of "''AD''" "''A4''" "''2000''"]
    by (simp add: case_prod_beta slice0_def zero_enat_def [symmetric] enat_0_iff)
  have l2: "(case yearLoop budget5 (staticEnv (carSite twoBrands)) ''VW'' ''Golf'' [''2001'']
              ([], \<lparr>isHeaderWritten = True, totalProductsScraped = 4\<rparr>, io0) of
         (sig, acc', v', s') \<Rightarrow> (sig = Next, length acc', totalProductsScraped v')) = (False, 1, 5)"
    using rows_written_within_budget
            [where cfg = budget5 and env = "staticEnv (carSite twoBrands)" and s = io0
               and ?v0.0 = "\<lparr>isHeaderWritten = True, totalProductsScraped = 4\<rparr>"
               and b = "''VW''" and m = "''Golf''" and y = "''2001''" and acc = "[]"
               and ps = "fourProducts ''VW'' ''Golf'' ''2001''"]
          scenario_leaf [of "''VW''" "''Golf''" "''2001''"]
    by (simp add: case_prod_beta slice0_def)
  show ?thesis
    using r w n l1 l2 by simp
qed

theorem header_row_written_once_witness:
  "isHeaderWritten (fst (snd (scrapeAllCars budget5 (staticEnv (carSite twoBrands)) io0)))
   \<and> outputFile (snd (snd (scrapeAllCars budget5 (staticEnv (carSite twoBrands)) io0))) = Some scenarioFile
   \<and> withHeader scenarioFile
   \<and> headerCount scenarioFile = 1
   \<and> isHeaderWritten (fst (saveBatch (staticEnv (carSite twoBrands)) (fourProducts ''AD'' ''A4'' ''2000'')
        (\<lparr>isHeaderWritten = False, totalProductsScraped = 4\<rparr>, io0)))
   \<and> withHeader (convertBatchToWooCommerceCSV (staticEnv (carSite twoBrands))
                    (fourProducts ''AD'' ''A4'' ''2000'') True)
   \<and> outputFile (snd (saveBatch (staticEnv (carSite twoBrands)) (take 1 (fourProducts ''VW'' ''Golf'' ''2001''))
        (\<lparr>isHeaderWritten = True, totalProductsScraped = 5\<rparr>,
         io0\<lparr>outputFile := Some (convertBatchToWooCommerceCSV (staticEnv (carSite twoBrands))
                                   (fourProducts ''AD'' ''A4'' ''2000'') True)\<rparr>)))
       = Some scenarioFile
   \<and> rowsOnly (convertBatchToWooCommerceCSV (staticEnv (carSite twoBrands))
                 (take 1 (fourProducts ''VW'' ''Golf'' ''2001'')) False)"
proof -
  let ?env = "staticEnv (carSite twoBrands)"
  let ?csv1 = "convertBatchToWooCommerceCSV ?env (fourProducts ''AD'' ''A4'' ''2000'') True"
  have r: "isHeaderWritten (fst (snd (scrapeAllCars budget5 (staticEnv (carSite twoBrands)) io0)))" "outputFile (snd (snd (scrapeAllCars budget5 (staticEnv (carSite twoBrands)) io0))) = Some scenarioFile"
    by (simp_all add: scenario_run)
  have h: "withHeader scenarioFile"
    using header_row_written_once [where cfg = budget5 and env = ?env and s = io0] r
    by (auto simp: case_prod_beta)
  have ne: "fourProducts ''AD'' ''A4'' ''2000'' \<noteq> []" "take 1 (fourProducts ''VW'' ''Golf'' ''2001'') \<noteq> []"
    "?csv1 \<noteq> []"
    using convertBatch_text(2) [of "fourProducts ''AD'' ''A4'' ''2000''" ?env]
    by (simp_all add: fourProducts_def)
  have s1: "isHeaderWritten (fst (saveBatch ?env (fourProducts ''AD'' ''A4'' ''2000'')
        (\<lparr>isHeaderWritten = False, totalProductsScraped = 4\<rparr>, io0)))
      \<and> withHeader ?csv1"
    using header_row_written_once
            [where env = ?env and ps = "fourProducts ''AD'' ''A4'' ''2000''"
               and ?v0.0 = "\<lparr>isHeaderWritten = False, totalProductsScraped = 4\<rparr>" and s = io0]
          ne(1)
    by simp
  have s2: "outputFile (snd (saveBatch ?env (take 1 (fourProducts ''VW'' ''Golf'' ''2001''))
        (\<lparr>isHeaderWritten = True, totalProductsScraped = 5\<rparr>, io0\<lparr>outputFile := Some ?csv1\<rparr>)))
       = Some scenarioFile
      \<and> rowsOnly (convertBatchToWooCommerceCSV ?env (take 1 (fourProducts ''VW'' ''Golf'' ''2001'')) False)"
    using header_row_written_once
            [where env = ?env and ps = "take 1 (fourProducts ''VW'' ''Golf'' ''2001'')"
               and ?v0.0 = "\<lparr>isHeaderWritten = True, totalProductsScraped = 5\<rparr>"
               and s = "io0\<lparr>outputFile := Some ?csv1\<rparr>"]
          ne(2,3)
    by (simp add: scenarioFile_def)
  show ?thesis
    using r h s1 s2 by (simp add: withHeader_def)
qed

end
